(* ===== verification/Vpipe_Prelude.thy ===== *)
theory Vpipe_Prelude
  imports Main "HOL-Library.Word" "HOL-Library.Monad_Syntax"
begin

text \<open>
  The vocabulary shared by every component of the development: C integer types as words,
  kernel error codes, byte memory as a store of blocks with faulting accesses, the loop
  combinator every C \<open>for\<close> loop is translated to, and the generic lemmas on lists,
  row-major indices and words that the component proofs use.

  Conventions.  An access outside a live block is a fault, and a computation that faults
  is \<open>None\<close>: a theorem that an operation returns \<open>Some\<close> is a memory-safety theorem.
  Unsigned C integers are words with wrap-around; signed integers are words of the same
  width read by \<open>sint\<close> (the kernel is built with wrapping signed arithmetic).
\<close>

unbundle bit_operations_syntax

named_theorems row_major \<open>arithmetic of indices y * stride + x\<close>

section \<open>Integer types and error codes\<close>

type_synonym u8 = "8 word"
type_synonym u16 = "16 word"
type_synonym u32 = "32 word"
type_synonym u64 = "64 word"
type_synonym s32 = "32 word"
type_synonym s64 = "64 word"

datatype errno =
    EINVAL | ENOMEM | EBUSY | ENODEV | EAGAIN | EFAULT | ENOTTY | EOPNOTSUPP | ERESTARTSYS
  | EEXIST | EINTR
  | Ecode int \<comment> \<open>a code handed back by an external call\<close>

type_synonym 'a result = "errno + 'a"

text \<open>
  \<open>clamp_t(type, val, lo, hi)\<close> of the kernel's minmax header: the upper bound is tested
  first.  The unsigned and the signed instance compare differently.
\<close>

definition clamp_u32 :: "u32 \<Rightarrow> u32 \<Rightarrow> u32 \<Rightarrow> u32" where
  "clamp_u32 v lo hi = (if hi \<le> v then hi else if v \<le> lo then lo else v)"

definition clamp_s :: "'a::len word \<Rightarrow> 'a word \<Rightarrow> 'a word \<Rightarrow> 'a word" where
  "clamp_s v lo hi = (if hi \<le>s v then hi else if v \<le>s lo then lo else v)"

lemma sint_clamp_s:
  "sint lo \<le> sint hi \<Longrightarrow> sint (clamp_s v lo hi) = max (sint lo) (min (sint hi) (sint v))"
  by (auto simp: clamp_s_def word_sle_eq)

lemma unat_clamp_u32:
  "unat lo \<le> unat hi \<Longrightarrow> unat (clamp_u32 v lo hi) = max (unat lo) (min (unat hi) (unat v))"
  by (auto simp: clamp_u32_def word_le_nat_alt)

section \<open>Byte memory\<close>

text \<open>A pointer is a block and a byte offset; pointer arithmetic may leave the block.\<close>

type_synonym ptr = "nat \<times> int"
type_synonym mem = "nat \<Rightarrow> u8 list option"

definition ptr_add :: "ptr \<Rightarrow> int \<Rightarrow> ptr" where
  "ptr_add p k = (fst p, snd p + k)"

definition in_block :: "u8 list \<Rightarrow> int \<Rightarrow> nat \<Rightarrow> bool" where
  "in_block xs off n = (0 \<le> off \<and> off + int n \<le> int (length xs))"

definition load :: "mem \<Rightarrow> ptr \<Rightarrow> u8 option" where
  "load m p = (case m (fst p) of None \<Rightarrow> None
     | Some xs \<Rightarrow> if in_block xs (snd p) 1 then Some (xs ! nat (snd p)) else None)"

definition store :: "mem \<Rightarrow> ptr \<Rightarrow> u8 \<Rightarrow> mem option" where
  "store m p v = (case m (fst p) of None \<Rightarrow> None
     | Some xs \<Rightarrow> if in_block xs (snd p) 1 then Some (m(fst p \<mapsto> xs[nat (snd p) := v])) else None)"

definition load_bytes :: "mem \<Rightarrow> ptr \<Rightarrow> nat \<Rightarrow> u8 list option" where
  "load_bytes m p n = (case m (fst p) of None \<Rightarrow> None
     | Some xs \<Rightarrow> if in_block xs (snd p) n then Some (take n (drop (nat (snd p)) xs)) else None)"

text \<open>A byte range written over a list, and how to read the result back.\<close>

definition splice :: "nat \<Rightarrow> u8 list \<Rightarrow> u8 list \<Rightarrow> u8 list" where
  "splice k bs xs = take k xs @ bs @ drop (k + length bs) xs"

definition store_bytes :: "mem \<Rightarrow> ptr \<Rightarrow> u8 list \<Rightarrow> mem option" where
  "store_bytes m p bs = (case m (fst p) of None \<Rightarrow> None
     | Some xs \<Rightarrow> if in_block xs (snd p) (length bs)
         then Some (m(fst p \<mapsto> splice (nat (snd p)) bs xs)) else None)"

text \<open>
  \<open>memcpy\<close> is undefined on regions that partly overlap; copying a region onto itself is
  the identity.
\<close>

definition overlaps :: "ptr \<Rightarrow> ptr \<Rightarrow> nat \<Rightarrow> bool" where
  "overlaps p q n = (fst p = fst q \<and> snd p \<noteq> snd q \<and> snd p < snd q + int n \<and> snd q < snd p + int n)"

definition memcpy :: "mem \<Rightarrow> ptr \<Rightarrow> ptr \<Rightarrow> nat \<Rightarrow> mem option" where
  "memcpy m dst src n =
     (if overlaps dst src n then None
      else do { bs \<leftarrow> load_bytes m src n; store_bytes m dst bs })"

lemma ptr_add_Pair [simp]: "ptr_add (b, i) k = (b, i + k)"
  by (simp add: ptr_add_def)

lemma load_Some: "m b = Some xs \<Longrightarrow> i < length xs \<Longrightarrow> load m (b, int i) = Some (xs ! i)"
  by (simp add: load_def in_block_def)

lemma store_Some:
  "m b = Some xs \<Longrightarrow> i < length xs \<Longrightarrow> store m (b, int i) v = Some (m(b \<mapsto> xs[i := v]))"
  by (simp add: store_def in_block_def)

lemma load_bytes_Some:
  "m b = Some xs \<Longrightarrow> i + n \<le> length xs \<Longrightarrow> load_bytes m (b, int i) n = Some (take n (drop i xs))"
  by (simp add: load_bytes_def in_block_def)

lemma load_bytes_block: "m b = Some xs \<Longrightarrow> n \<le> length xs \<Longrightarrow> load_bytes m (b, 0) n = Some (take n xs)"
  by (simp add: load_bytes_def in_block_def)

lemma length_splice [simp]: "k + length bs \<le> length xs \<Longrightarrow> length (splice k bs xs) = length xs"
  by (simp add: splice_def)

lemma nth_splice:
  "k + length bs \<le> length xs \<Longrightarrow> i < length xs \<Longrightarrow>
   splice k bs xs ! i = (if k \<le> i \<and> i < k + length bs then bs ! (i - k) else xs ! i)"
  by (auto simp: splice_def nth_append min_def)

lemma memcpy_Some:
  assumes "m sb = Some xs" "m db = Some ys" "sb \<noteq> db"
    and "si + n \<le> length xs" "di + n \<le> length ys"
  shows "memcpy m (db, int di) (sb, int si) n
         = Some (m(db \<mapsto> splice di (take n (drop si xs)) ys))"
  using assms
  by (simp add: memcpy_def overlaps_def load_bytes_def store_bytes_def in_block_def)

lemma memcpy_start:
  assumes "m sb = Some xs" "m db = Some ys" "n \<le> length xs" "n \<le> length ys"
  shows "memcpy m (db, 0) (sb, 0) n = Some (m(db \<mapsto> splice 0 (take n xs) ys))"
  using assms by (simp add: memcpy_def overlaps_def load_bytes_def store_bytes_def in_block_def)

section \<open>Loops\<close>

text \<open>
  \<open>for (i = lo; i < hi; i++) body\<close> is \<open>foreach body [lo..<hi]\<close>; the body may fault.
\<close>

primrec foreach :: "('a \<Rightarrow> 's \<Rightarrow> 's option) \<Rightarrow> 'a list \<Rightarrow> 's \<Rightarrow> 's option" where
  "foreach f [] s = Some s"
| "foreach f (x # xs) s = do { s' \<leftarrow> f x s; foreach f xs s' }"

lemma foreach_append: "foreach f (xs @ ys) s = do { s' \<leftarrow> foreach f xs s; foreach f ys s' }"
  by (induction xs arbitrary: s) (simp_all add: bind_assoc)

text \<open>The total-correctness rule of a counting loop.\<close>

lemma foreach_upt:
  assumes "lo \<le> hi" and "I lo s"
    and step: "\<And>k t. lo \<le> k \<Longrightarrow> k < hi \<Longrightarrow> I k t \<Longrightarrow> \<exists>t'. f k t = Some t' \<and> I (Suc k) t'"
  shows "\<exists>s'. foreach f [lo..<hi] s = Some s' \<and> I hi s'"
  using assms(1) step
proof (induction hi)
  case 0
  with assms(2) show ?case by auto
next
  case (Suc hi)
  show ?case
  proof (cases "lo \<le> hi")
    case True
    with Suc obtain t where t: "foreach f [lo..<hi] s = Some t" "I hi t" by force
    with True Suc.prems(2)[of hi t] obtain t' where "f hi t = Some t'" "I (Suc hi) t'" by auto
    with t True show ?thesis by (auto simp: foreach_append)
  next
    case False
    with Suc.prems(1) have "lo = Suc hi" by simp
    with assms(2) show ?thesis by auto
  qed
qed

lemma foreach_cong:
  "(\<And>x s. x \<in> set xs \<Longrightarrow> f x s = g x s) \<Longrightarrow> foreach f xs s = foreach g xs s"
  by (induction xs arbitrary: s) (auto intro!: Option.bind_cong)

lemma foreach_map: "foreach f (map g xs) s = foreach (\<lambda>x. f (g x)) xs s"
  by (induction xs arbitrary: s) simp_all

lemma upto_int_upt: "[int a..int b - 1] = map int [a..<b]"
proof (induction b)
  case 0
  then show ?case by simp
next
  case (Suc b)
  show ?case
  proof (cases "a \<le> b")
    case True
    then have "[int a..int (Suc b) - 1] = [int a..int b - 1] @ [int b]"
      by (simp add: upto_rec2)
    with Suc True show ?thesis by simp
  next
    case False
    then show ?thesis by simp
  qed
qed

lemma foreach_upto_int:
  "foreach f [int a..int b - 1] s = foreach (\<lambda>k. f (int k)) [a..<b] s"
  by (simp add: upto_int_upt foreach_map)

text \<open>A small number survives the conversion to a word.\<close>

lemma unat_of_nat_len: "n < 2 ^ LENGTH('a) \<Longrightarrow> unat (of_nat n :: 'a::len word) = n"
  by (simp add: unat_of_nat take_bit_nat_eq_self)

section \<open>Row-major indices\<close>

lemma index_div [row_major]: "x < st \<Longrightarrow> (y * st + x) div st = (y::nat)"
  by simp

lemma index_mod [row_major]: "x < st \<Longrightarrow> (y * st + x) mod st = (x::nat)"
  by simp

lemma index_split: "(i::nat) = (i div st) * st + i mod st"
  by simp

lemma index_less:
  assumes "y < h" "x < (st::nat)"
  shows "y * st + x < h * st"
proof -
  have "y * st + x < Suc y * st" using assms(2) by simp
  also have "\<dots> \<le> h * st" using assms(1) by (intro mult_le_mono1) simp
  finally show ?thesis .
qed

lemma index_row_end:
  assumes "y < h" "w \<le> (st::nat)"
  shows "y * st + w \<le> h * st"
proof -
  have "y * st + w \<le> Suc y * st" using assms(2) by simp
  also have "\<dots> \<le> h * st" using assms(1) by (intro mult_le_mono1) simp
  finally show ?thesis .
qed

lemma index_in_row:
  assumes "w \<le> (st::nat)" "0 < st"
  shows "(y * st \<le> i \<and> i < y * st + w) \<longleftrightarrow> (i div st = y \<and> i mod st < w)"
proof
  assume a: "y * st \<le> i \<and> i < y * st + w"
  then obtain x where i: "i = y * st + x" by (metis le_Suc_ex)
  with a assms have "x < w" "x < st" by auto
  with i show "i div st = y \<and> i mod st < w" by simp
next
  assume a: "i div st = y \<and> i mod st < w"
  have "i = y * st + i mod st" using a by (metis div_mult_mod_eq)
  with a show "y * st \<le> i \<and> i < y * st + w" by linarith
qed

section \<open>Pictures drawn into a byte block\<close>

text \<open>
  \<open>draw l t r b st f D\<close> is \<open>D\<close> with the pixel \<open>f x y\<close> written at every \<open>x\<close> in
  \<open>[l, r)\<close> and \<open>y\<close> in \<open>[t, b)\<close> of a raster of stride \<open>st\<close>: the specification every
  image routine is compared with.
\<close>

definition draw :: "nat \<Rightarrow> nat \<Rightarrow> nat \<Rightarrow> nat \<Rightarrow> nat \<Rightarrow> (nat \<Rightarrow> nat \<Rightarrow> u8) \<Rightarrow> u8 list \<Rightarrow> u8 list" where
  "draw l t r b st f D =
     map (\<lambda>i. if l \<le> i mod st \<and> i mod st < r \<and> t \<le> i div st \<and> i div st < b
              then f (i mod st) (i div st) else D ! i) [0..<length D]"

lemma length_draw [simp]: "length (draw l t r b st f D) = length D"
  by (simp add: draw_def)

lemma nth_draw:
  "i < length D \<Longrightarrow> draw l t r b st f D ! i =
     (if l \<le> i mod st \<and> i mod st < r \<and> t \<le> i div st \<and> i div st < b
      then f (i mod st) (i div st) else D ! i)"
  by (simp add: draw_def)

lemma nth_draw_pixel:
  assumes "x < st" "y * st + x < length D"
  shows "draw l t r b st f D ! (y * st + x) =
           (if l \<le> x \<and> x < r \<and> t \<le> y \<and> y < b then f x y else D ! (y * st + x))"
proof -
  have "(y * st + x) div st = y" "(y * st + x) mod st = x"
    using assms(1) by (rule index_div, rule index_mod)
  with assms(2) show ?thesis by (simp only: nth_draw)
qed

lemma draw_empty_x [simp]: "r \<le> l \<Longrightarrow> draw l t r b st f D = D"
  by (rule nth_equalityI) (auto simp: nth_draw)

lemma draw_empty_y [simp]: "b \<le> t \<Longrightarrow> draw l t r b st f D = D"
  by (rule nth_equalityI) (auto simp: nth_draw)

lemma draw_step_x:
  assumes "l \<le> k" "k < st"
  shows "(draw l y k (Suc y) st f D)[y * st + k := f k y] = draw l y (Suc k) (Suc y) st f D"
proof (rule nth_equalityI)
  fix i assume "i < length ((draw l y k (Suc y) st f D)[y * st + k := f k y])"
  then have i: "i < length D" by simp
  have eq: "i = y * st + k \<longleftrightarrow> i div st = y \<and> i mod st = k"
    using assms(2) by (metis div_mult_mod_eq index_div index_mod)
  show "(draw l y k (Suc y) st f D)[y * st + k := f k y] ! i = draw l y (Suc k) (Suc y) st f D ! i"
  proof (cases "i = y * st + k")
    case True
    with i assms show ?thesis by (simp add: nth_draw)
  next
    case False
    with eq have "\<not> (i div st = y \<and> i mod st = k)" by simp
    with i False show ?thesis by (auto simp: nth_draw less_Suc_eq)
  qed
qed simp

lemma draw_step_y:
  assumes "t \<le> y"
  shows "draw l y r (Suc y) st f (draw l t r y st f D) = draw l t r (Suc y) st f D"
  using assms by (intro nth_equalityI) (auto simp: nth_draw less_Suc_eq)

lemma draw_window_on_frame:
  assumes "r \<le> w" "b \<le> h"
  shows "draw l t r b st f (draw 0 0 w h st g D)
       = draw 0 0 w h st (\<lambda>x y. if l \<le> x \<and> x < r \<and> t \<le> y \<and> y < b then f x y else g x y) D"
  using assms by (intro nth_equalityI) (auto simp: nth_draw)

lemma draw_cong:
  assumes "\<And>x y. l \<le> x \<Longrightarrow> x < r \<Longrightarrow> t \<le> y \<Longrightarrow> y < b \<Longrightarrow> f x y = g x y"
  shows "draw l t r b st f D = draw l t r b st g D"
  using assms by (intro nth_equalityI) (auto simp: nth_draw)

lemma splice_row_draw:
  assumes w: "w \<le> ds" "0 < ds" and D: "k * ds + w \<le> length D" and S: "k * ss + w \<le> length S"
    and f: "\<And>x y. f x y = S ! (y * ss + x)"
  shows "splice (k * ds) (take w (drop (k * ss) S)) (draw 0 0 w k ds f D) = draw 0 0 w (Suc k) ds f D"
proof (rule nth_equalityI)
  have len: "length (take w (drop (k * ss) S)) = w" using S by simp
  then show l: "length (splice (k * ds) (take w (drop (k * ss) S)) (draw 0 0 w k ds f D))
      = length (draw 0 0 w (Suc k) ds f D)" using D by simp
  fix i assume "i < length (splice (k * ds) (take w (drop (k * ss) S)) (draw 0 0 w k ds f D))"
  then have i: "i < length D" using l by simp
  have row: "(k * ds \<le> i \<and> i < k * ds + w) \<longleftrightarrow> (i div ds = k \<and> i mod ds < w)"
    using w by (rule index_in_row)
  have "i - k * ds = i mod ds" if "i div ds = k"
    using that by (metis minus_div_mult_eq_mod)
  then show "splice (k * ds) (take w (drop (k * ss) S)) (draw 0 0 w k ds f D) ! i
      = draw 0 0 w (Suc k) ds f D ! i"
    using i D S row len by (auto simp: nth_splice nth_draw f less_Suc_eq)
qed

section \<open>Word arithmetic\<close>

lemma unat_u32_of_nat: "n < 2 ^ 32 \<Longrightarrow> unat (of_nat n :: u32) = n"
  by (simp add: unat_of_nat take_bit_nat_eq_self)

lemma unat_ucast_widen: "unat (ucast (v :: u32) :: u64) = unat v"
proof -
  have "unat v < 2 ^ 32" using unsigned_less [of v] by simp
  then show ?thesis by (simp add: unsigned_ucast_eq take_bit_nat_eq_self)
qed

text \<open>The row offset \<open>row * stride\<close> is computed in 32 bits; it is exact while it fits.\<close>

lemma unat_row_offset:
  assumes "y * unat st < 2 ^ 32" "0 < unat st"
  shows "unat (of_nat y * st :: u32) = y * unat st"
proof -
  have "y * 1 \<le> y * unat st" using assms(2) by (intro mult_le_mono2) simp
  with assms(1) have "y < 2 ^ 32" by linarith
  then have "unat (of_nat y :: u32) = y" by (rule unat_u32_of_nat)
  with assms(1) show ?thesis by (simp add: unat_word_ariths)
qed

lemma uint_row_offset:
  assumes "y < h" "h * unat st < 2 ^ 32" "0 < unat st"
  shows "uint (of_nat y * st :: u32) = int (y * unat st)"
proof -
  have "y * unat st \<le> h * unat st" using assms(1) by (intro mult_le_mono1) simp
  with assms(2) have "y * unat st < 2 ^ 32" by linarith
  then have "unat (of_nat y * st :: u32) = y * unat st" using assms(3) by (rule unat_row_offset)
  then show ?thesis by (metis uint_nat)
qed

lemma sint_nonneg_uint:
  assumes "0 \<le> sint (w :: 'a::len word)"
  shows "sint w = uint w"
proof -
  have "sint w < 2 ^ (LENGTH('a) - 1)" by (rule sint_lt)
  also have "\<dots> \<le> (2::int) ^ LENGTH('a)" by (rule power_increasing) simp_all
  finally have "take_bit LENGTH('a) (sint w) = sint w"
    using assms by (rule take_bit_int_eq_self [rotated])
  then show ?thesis by (metis uint_sint)
qed

lemma sint_small:
  assumes "uint (w :: 'a::len word) < 2 ^ (LENGTH('a) - 1)"
  shows "sint w = uint w"
proof -
  have "- (2 ^ (LENGTH('a) - Suc 0)) \<le> uint w"
    by (rule order_trans [of _ 0]) simp_all
  with assms have "signed_take_bit (LENGTH('a) - Suc 0) (uint w) = uint w"
    by (intro signed_take_bit_int_eq_self) simp_all
  then show ?thesis by (metis sint_uint)
qed

lemma sint_add_fits:
  fixes a b :: "'a::len word"
  assumes "- (2 ^ (LENGTH('a) - 1)) \<le> sint a + sint b" "sint a + sint b < 2 ^ (LENGTH('a) - 1)"
  shows "sint (a + b) = sint a + sint b"
  using assms by (simp add: signed_take_bit_int_eq_self sint_word_ariths)

lemma sint_sub_fits:
  fixes a b :: "'a::len word"
  assumes "- (2 ^ (LENGTH('a) - 1)) \<le> sint a - sint b" "sint a - sint b < 2 ^ (LENGTH('a) - 1)"
  shows "sint (a - b) = sint a - sint b"
  using assms by (simp add: signed_take_bit_int_eq_self sint_word_ariths)

lemma sint_widen: "sint (scast (w :: s32) :: s64) = sint w"
  by (rule sint_up_scast) (simp add: is_up)

lemma sint_narrow:
  assumes "0 \<le> sint (v :: s64)" "sint v < 2 ^ 31"
  shows "sint (ucast v :: s32) = sint v"
proof -
  have v: "sint v = uint v" using assms(1) by (rule sint_nonneg_uint)
  with assms(2) have "uint (ucast v :: s32) = uint v"
    by (simp add: unsigned_ucast_eq take_bit_int_eq_self)
  with v assms(2) show ?thesis using sint_small [of "ucast v :: s32"] by simp
qed

section \<open>Region-of-interest windows\<close>

text \<open>
  The mathematical window of a requested region inside a frame, one axis at a time: the
  origin is moved into the frame and the extent is cut at its far edge.  A region with an
  empty extent stands for the whole frame.  The kernel clamp and the user-space reference
  are both compared with it.
\<close>

definition win_lo :: "int \<Rightarrow> int \<Rightarrow> int" where
  "win_lo f p = max 0 (min f p)"

definition win_hi :: "int \<Rightarrow> int \<Rightarrow> int \<Rightarrow> int" where
  "win_hi f p n = min f (win_lo f p + n)"

definition roi_window :: "nat \<Rightarrow> nat \<Rightarrow> int \<times> int \<times> int \<times> int \<Rightarrow> nat \<times> nat \<times> nat \<times> nat" where
  "roi_window w h roi = (case roi of (rl, rt, rw, rh) \<Rightarrow>
     if rw \<le> 0 \<or> rh \<le> 0 then (0, 0, w, h)
     else (nat (win_lo (int w) rl), nat (win_lo (int h) rt),
           nat (win_hi (int w) rl rw), nat (win_hi (int h) rt rh)))"

lemma win_bounds:
  "0 \<le> f \<Longrightarrow> 0 \<le> n \<Longrightarrow>
   0 \<le> win_lo f p \<and> win_lo f p \<le> f \<and> win_hi f p n \<le> f \<and> win_lo f p \<le> win_hi f p n"
  by (auto simp: win_lo_def win_hi_def)

lemma roi_window_bounds:
  assumes "roi_window w h roi = (l, t, r, b)"
  shows "l \<le> r" "r \<le> w" "t \<le> b" "b \<le> h"
proof -
  obtain rl rt rw rh where roi: "roi = (rl, rt, rw, rh)" by (metis prod_cases4)
  have "l \<le> r \<and> r \<le> w \<and> t \<le> b \<and> b \<le> h"
  proof (cases "rw \<le> 0 \<or> rh \<le> 0")
    case True
    with assms roi show ?thesis by (auto simp: roi_window_def)
  next
    case False
    with assms roi win_bounds [of "int w" rw rl] win_bounds [of "int h" rh rt]
    show ?thesis by (auto simp: roi_window_def nat_le_iff intro: nat_mono)
  qed
  then show "l \<le> r" "r \<le> w" "t \<le> b" "b \<le> h" by simp_all
qed

text \<open>The kernel's clamp of one axis, in 32-bit words with a 64-bit sum.\<close>

lemma clamp_axis:
  fixes f p n :: s32
  assumes f: "0 \<le> sint f" and n: "0 < sint n"
  defines "lo \<equiv> clamp_s p 0 f"
  defines "hi \<equiv> ucast (clamp_s ((scast lo :: s64) + scast n) (scast lo) (scast f)) :: s32"
  shows "sint lo = win_lo (sint f) (sint p)" and "sint hi = win_hi (sint f) (sint p) (sint n)"
    and "sint (hi - lo) = sint hi - sint lo"
proof -
  show lo: "sint lo = win_lo (sint f) (sint p)"
    unfolding lo_def win_lo_def using f sint_clamp_s [of 0 f p] by simp
  have b: "0 \<le> sint lo" "sint lo \<le> sint f" "sint f < 2 ^ 31" "sint n < 2 ^ 31"
    using lo win_bounds [OF f order_less_imp_le [OF n]] sint_lt [of f] sint_lt [of n] by simp_all
  let ?s = "(scast lo :: s64) + scast n" and ?c = "clamp_s ((scast lo :: s64) + scast n) (scast lo) (scast f)"
  have s: "sint ?s = sint lo + sint n"
    using sint_add_fits [of "scast lo :: s64" "scast n"] b n by (simp add: sint_widen)
  have c: "sint ?c = min (sint f) (sint lo + sint n)"
    using b n sint_clamp_s [of "scast lo" "scast f" ?s] s by (simp add: sint_widen)
  have "0 \<le> sint ?c" "sint ?c < 2 ^ 31" using c b n by simp_all
  then have "sint hi = sint ?c" unfolding hi_def by (rule sint_narrow)
  then show hi: "sint hi = win_hi (sint f) (sint p) (sint n)"
    using c lo by (simp add: win_hi_def)
  show "sint (hi - lo) = sint hi - sint lo"
    using b c n \<open>sint hi = sint ?c\<close> by (intro sint_sub_fits) simp_all
qed

end
