(* ===== verification/Vpipe_Types.thy ===== *)
theory Vpipe_Types
  imports Vpipe_Prelude
begin

text \<open>
  The structures and constants that the parts of the driver share: the user-visible
  interface (kmod/vpipe.h), the driver-internal structures (kmod/vpipe-internal.h) and the
  source-backend descriptors (kmod/vpipe-source.h).  Each struct is a record whose fields
  carry a short prefix naming the struct; enum constants and macros are abbreviations.
\<close>

section \<open>kmod/vpipe.h\<close>

abbreviation (input) VPIPE_META_VERSION :: u16 where "VPIPE_META_VERSION \<equiv> 2"

abbreviation (input) VPIPE_META_F_OVERRUN :: u32 where "VPIPE_META_F_OVERRUN \<equiv> 1"
abbreviation (input) VPIPE_META_F_HW_TS :: u32 where "VPIPE_META_F_HW_TS \<equiv> 2"
abbreviation (input) VPIPE_META_F_DROPPED :: u32 where "VPIPE_META_F_DROPPED \<equiv> 4"

abbreviation (input) VPIPE_ALGO_NONE :: u32 where "VPIPE_ALGO_NONE \<equiv> 0"
abbreviation (input) VPIPE_ALGO_THRESHOLD :: u32 where "VPIPE_ALGO_THRESHOLD \<equiv> 1"

abbreviation (input) V4L2_CID_USER_BASE :: u32 where "V4L2_CID_USER_BASE \<equiv> 0x00980900"
abbreviation (input) VPIPE_CID_BASE :: u32 where "VPIPE_CID_BASE \<equiv> V4L2_CID_USER_BASE + 0x1000"
abbreviation (input) VPIPE_CID_SRC_SEQUENCE :: u32 where "VPIPE_CID_SRC_SEQUENCE \<equiv> VPIPE_CID_BASE + 0"
abbreviation (input) VPIPE_CID_ALGO :: u32 where "VPIPE_CID_ALGO \<equiv> VPIPE_CID_BASE + 1"
abbreviation (input) VPIPE_CID_ROI_LEFT :: u32 where "VPIPE_CID_ROI_LEFT \<equiv> VPIPE_CID_BASE + 2"
abbreviation (input) VPIPE_CID_ROI_TOP :: u32 where "VPIPE_CID_ROI_TOP \<equiv> VPIPE_CID_BASE + 3"
abbreviation (input) VPIPE_CID_ROI_WIDTH :: u32 where "VPIPE_CID_ROI_WIDTH \<equiv> VPIPE_CID_BASE + 4"
abbreviation (input) VPIPE_CID_ROI_HEIGHT :: u32 where "VPIPE_CID_ROI_HEIGHT \<equiv> VPIPE_CID_BASE + 5"
abbreviation (input) VPIPE_CID_THRESHOLD :: u32 where "VPIPE_CID_THRESHOLD \<equiv> VPIPE_CID_BASE + 6"

record vpipe_meta_entry =
  me_version :: u16
  me_entry_size :: u16
  me_flags :: u32
  me_seq :: u64
  me_src_v4l2_sequence :: u32
  me_buffer_index :: u32
  me_source_timestamp_ns :: u64
  me_qbuf_timestamp_ns :: u64
  me_capture_done_ns :: u64
  me_dqbuf_timestamp_ns :: u64
  me_bytesused :: u32
  me_crc32 :: u32
  me_algo_id :: u32
  me_algo_status :: u32
  me_roi_left :: s32
  me_roi_top :: s32
  me_roi_width :: s32
  me_roi_height :: s32
  me_algo_value0 :: u64
  me_algo_value1 :: u64
  me_source_backend :: u32
  me_buffer_type :: u32
  me_queue_depth :: u32
  me_cpu_id :: u32

text \<open>The entry of all-zero bytes, as \<open>= {0}\<close> and static storage initialise it.\<close>

definition zero_meta_entry :: vpipe_meta_entry where
  "zero_meta_entry = \<lparr>me_version = 0, me_entry_size = 0, me_flags = 0, me_seq = 0,
     me_src_v4l2_sequence = 0, me_buffer_index = 0, me_source_timestamp_ns = 0,
     me_qbuf_timestamp_ns = 0, me_capture_done_ns = 0, me_dqbuf_timestamp_ns = 0,
     me_bytesused = 0, me_crc32 = 0, me_algo_id = 0, me_algo_status = 0, me_roi_left = 0,
     me_roi_top = 0, me_roi_width = 0, me_roi_height = 0, me_algo_value0 = 0,
     me_algo_value1 = 0, me_source_backend = 0, me_buffer_type = 0, me_queue_depth = 0,
     me_cpu_id = 0\<rparr>"

text \<open>
  \<open>sizeof(struct vpipe_meta_entry)\<close>: two 2-byte, fifteen 4-byte and seven 8-byte fields,
  laid out without padding.
\<close>

abbreviation (input) sizeof_meta_entry :: nat where "sizeof_meta_entry \<equiv> 120"

record vpipe_meta_info =
  mi_version :: u16
  mi_entry_size :: u16
  mi_ring_entries :: u32
  mi_flags :: u32
  mi_reserved :: "u32 list"

record vpipe_meta_stats =
  ms_published :: u64
  ms_dropped :: u64
  ms_reserved :: "u32 list"

section \<open>kmod/vpipe-internal.h\<close>

abbreviation (input) VPIPE_DEFAULT_WIDTH :: u32 where "VPIPE_DEFAULT_WIDTH \<equiv> 640"
abbreviation (input) VPIPE_DEFAULT_HEIGHT :: u32 where "VPIPE_DEFAULT_HEIGHT \<equiv> 480"
abbreviation (input) VPIPE_DEFAULT_THRESHOLD :: u32 where "VPIPE_DEFAULT_THRESHOLD \<equiv> 127"

record vpipe_roi =
  roi_left :: s32
  roi_top :: s32
  roi_width :: s32
  roi_height :: s32

record vpipe_q_data =
  q_width :: u32
  q_height :: u32
  q_bytesperline :: u32
  q_sizeimage :: u32
  q_pixelformat :: u32

record vpipe_job_desc =
  j_src :: ptr
  j_dst :: ptr
  j_width :: u32
  j_height :: u32
  j_src_stride :: u32
  j_dst_stride :: u32

record vpipe_cv_result =
  cv_algo_status :: u32
  cv_value0 :: u64
  cv_value1 :: u64
  cv_roi :: vpipe_roi

section \<open>kmod/vpipe-source.h\<close>

abbreviation (input) VPIPE_BACKEND_NONE :: u32 where "VPIPE_BACKEND_NONE \<equiv> 0"
abbreviation (input) VPIPE_BACKEND_FIXTURE :: u32 where "VPIPE_BACKEND_FIXTURE \<equiv> 1"
abbreviation (input) VPIPE_BACKEND_SYNTHETIC :: u32 where "VPIPE_BACKEND_SYNTHETIC \<equiv> 2"
abbreviation (input) VPIPE_BACKEND_VCAM_DERIVED :: u32 where "VPIPE_BACKEND_VCAM_DERIVED \<equiv> 3"
abbreviation (input) VPIPE_BACKEND_MAX :: u32 where "VPIPE_BACKEND_MAX \<equiv> 4"

abbreviation (input) VPIPE_FRAME_FLAG_DROPPED :: u32 where "VPIPE_FRAME_FLAG_DROPPED \<equiv> 1"

record vpipe_frame_desc =
  fd_source_timestamp_ns :: u64
  fd_sequence :: u32
  fd_backend_id :: u32
  fd_byteused :: u32
  fd_flags :: u32
  fd_width :: u32
  fd_height :: u32
  fd_stride :: u32

definition zero_frame_desc :: vpipe_frame_desc where
  "zero_frame_desc = \<lparr>fd_source_timestamp_ns = 0, fd_sequence = 0, fd_backend_id = 0,
     fd_byteused = 0, fd_flags = 0, fd_width = 0, fd_height = 0, fd_stride = 0\<rparr>"

lemma zero_frame_desc_fields [simp]:
  "fd_source_timestamp_ns zero_frame_desc = 0" "fd_flags zero_frame_desc = 0" "fd_byteused zero_frame_desc = 0"
  by (simp_all add: zero_frame_desc_def)

text \<open>
  \<open>struct vpipe_buffer\<close>: the driver's fields, after the fields of the embedded vb2 buffer
  that the driver reads or writes (index, memory type, the kernel mapping and size of plane
  0, its payload, and the timestamp, field, flags and sequence handed to user space).
\<close>

record vpipe_buffer =
  vb_index :: u32
  vb_memory :: u32
  vb_vaddr :: "ptr option"
  vb_plane_size :: nat
  vb_payload :: nat
  vb_timestamp :: u64
  vb_field :: u32
  vb_flags :: u32
  vb_sequence :: u32
  b_src_sequence :: u32
  b_algo_id :: u32
  b_threshold :: u32
  b_roi :: vpipe_roi
  b_src_desc :: vpipe_frame_desc
  b_qbuf_ns :: u64
  b_meta_pending :: vpipe_meta_entry

text \<open>
  \<open>struct vpipe_ctx\<close>, the state of one open device file: the two queue formats, the
  controls and the address of its source.  The embedded framework handles (file handle,
  control handler, m2m context, device) are not fields: what the framework keeps for them is
  a parameter of the operations that use it.
\<close>

record vpipe_ctx =
  c_out_q :: vpipe_q_data
  c_cap_q :: vpipe_q_data
  c_src_sequence :: u32
  c_algo_id :: u32
  c_threshold :: u32
  c_roi :: vpipe_roi
  c_src :: "nat option"

end
