(* ===== verification/M2m_Format.thy ===== *)
theory M2m_Format
  imports Vpipe_Types
begin

text \<open>
  Formats, buffers' sizes and controls of the mem2mem device (the first half of
  kmod/vpipe-m2m.c): format negotiation, the vb2 size callbacks and the control handler with
  its seven control descriptions.
\<close>

section \<open>Formats\<close>

text \<open>The two single-planar queues of the device.\<close>

datatype buf_type = V4L2_BUF_TYPE_VIDEO_CAPTURE | V4L2_BUF_TYPE_VIDEO_OUTPUT

definition V4L2_TYPE_IS_OUTPUT :: "buf_type \<Rightarrow> bool" where
  "V4L2_TYPE_IS_OUTPUT t = (t = V4L2_BUF_TYPE_VIDEO_OUTPUT)"

lemma type_is_output_simps [simp]:
  "V4L2_TYPE_IS_OUTPUT V4L2_BUF_TYPE_VIDEO_OUTPUT" "\<not> V4L2_TYPE_IS_OUTPUT V4L2_BUF_TYPE_VIDEO_CAPTURE"
  by (simp_all add: V4L2_TYPE_IS_OUTPUT_def)

abbreviation (input) V4L2_PIX_FMT_GREY :: u32 where "V4L2_PIX_FMT_GREY \<equiv> 0x59455247"
abbreviation (input) V4L2_FIELD_NONE :: u32 where "V4L2_FIELD_NONE \<equiv> 1"
abbreviation (input) V4L2_COLORSPACE_SRGB :: u32 where "V4L2_COLORSPACE_SRGB \<equiv> 8"
abbreviation (input) V4L2_YCBCR_ENC_DEFAULT :: u32 where "V4L2_YCBCR_ENC_DEFAULT \<equiv> 0"
abbreviation (input) V4L2_QUANTIZATION_FULL_RANGE :: u32 where "V4L2_QUANTIZATION_FULL_RANGE \<equiv> 1"
abbreviation (input) V4L2_XFER_FUNC_DEFAULT :: u32 where "V4L2_XFER_FUNC_DEFAULT \<equiv> 0"

record v4l2_pix_format =
  pf_width :: u32
  pf_height :: u32
  pf_pixelformat :: u32
  pf_field :: u32
  pf_bytesperline :: u32
  pf_sizeimage :: u32
  pf_colorspace :: u32
  pf_ycbcr_enc :: u32
  pf_quantization :: u32
  pf_xfer_func :: u32

definition vpipe_get_q_data :: "vpipe_ctx \<Rightarrow> buf_type \<Rightarrow> vpipe_q_data" where
  "vpipe_get_q_data ctx type = (if V4L2_TYPE_IS_OUTPUT type then c_out_q ctx else c_cap_q ctx)"

definition vpipe_fill_pix_format :: "v4l2_pix_format \<Rightarrow> u32 \<Rightarrow> u32 \<Rightarrow> v4l2_pix_format" where
  "vpipe_fill_pix_format pix width height =
     (let w = clamp_u32 width 1 4096; h = clamp_u32 height 1 4096
      in pix\<lparr>pf_width := w, pf_height := h, pf_pixelformat := V4L2_PIX_FMT_GREY, pf_field := V4L2_FIELD_NONE,
             pf_bytesperline := w, pf_sizeimage := w * h, pf_colorspace := V4L2_COLORSPACE_SRGB,
             pf_ycbcr_enc := V4L2_YCBCR_ENC_DEFAULT, pf_quantization := V4L2_QUANTIZATION_FULL_RANGE,
             pf_xfer_func := V4L2_XFER_FUNC_DEFAULT\<rparr>)"

text \<open>\<open>vpipe_querycap\<close>: the identification strings and the capability bits.\<close>

record v4l2_capability =
  cap_driver :: string
  cap_card :: string
  cap_bus_info :: string
  cap_device_caps :: u32
  cap_capabilities :: u32

abbreviation (input) V4L2_CAP_VIDEO_M2M :: u32 where "V4L2_CAP_VIDEO_M2M \<equiv> 0x00008000"
abbreviation (input) V4L2_CAP_STREAMING :: u32 where "V4L2_CAP_STREAMING \<equiv> 0x04000000"
abbreviation (input) V4L2_CAP_DEVICE_CAPS :: u32 where "V4L2_CAP_DEVICE_CAPS \<equiv> 0x80000000"

definition vpipe_querycap :: "v4l2_capability \<Rightarrow> v4l2_capability" where
  "vpipe_querycap cap =
     (let device_caps = or V4L2_CAP_VIDEO_M2M V4L2_CAP_STREAMING
      in cap\<lparr>cap_driver := ''vpipe'', cap_card := ''vpipe mem2mem'', cap_bus_info := ''platform:vpipe'',
             cap_device_caps := device_caps, cap_capabilities := or device_caps V4L2_CAP_DEVICE_CAPS\<rparr>)"

text \<open>\<open>vpipe_enum_fmt\<close>: index 0 is the only format.\<close>

definition vpipe_enum_fmt :: "u32 \<Rightarrow> u32 result" where
  "vpipe_enum_fmt index = (if index \<noteq> 0 then Inl EINVAL else Inr V4L2_PIX_FMT_GREY)"

definition vpipe_g_fmt :: "vpipe_ctx \<Rightarrow> buf_type \<Rightarrow> v4l2_pix_format \<Rightarrow> v4l2_pix_format" where
  "vpipe_g_fmt ctx type pix =
     (let q_data = vpipe_get_q_data ctx type in vpipe_fill_pix_format pix (q_width q_data) (q_height q_data))"

definition vpipe_try_fmt :: "v4l2_pix_format \<Rightarrow> v4l2_pix_format" where
  "vpipe_try_fmt pix =
     (let pix = (if pf_pixelformat pix \<noteq> V4L2_PIX_FMT_GREY then pix\<lparr>pf_pixelformat := V4L2_PIX_FMT_GREY\<rparr> else pix)
      in vpipe_fill_pix_format pix (pf_width pix) (pf_height pix))"

text \<open>\<open>busy\<close>: what \<open>vb2_is_busy\<close> says of a queue, that is whether buffers are allocated.\<close>

definition vpipe_s_fmt ::
    "(buf_type \<Rightarrow> bool) \<Rightarrow> buf_type \<Rightarrow> v4l2_pix_format \<Rightarrow> vpipe_ctx \<Rightarrow> v4l2_pix_format result \<times> vpipe_ctx" where
  "vpipe_s_fmt busy type pix ctx =
     (if busy type then (Inl EBUSY, ctx)
      else let pix = vpipe_try_fmt pix;
               q_data = \<lparr>q_width = pf_width pix, q_height = pf_height pix, q_bytesperline = pf_bytesperline pix,
                         q_sizeimage = pf_sizeimage pix, q_pixelformat = pf_pixelformat pix\<rparr>;
               ctx = (if V4L2_TYPE_IS_OUTPUT type then ctx\<lparr>c_out_q := q_data\<rparr> else ctx\<lparr>c_cap_q := q_data\<rparr>)
           in (Inr pix, if V4L2_TYPE_IS_OUTPUT type then ctx\<lparr>c_cap_q := q_data\<rparr> else ctx\<lparr>c_out_q := q_data\<rparr>))"

section \<open>Buffer sizes\<close>

text \<open>
  \<open>vpipe_queue_setup\<close>: the requested number of buffers, the number of planes and the size of
  plane 0 come in and go out.
\<close>

definition vpipe_queue_setup ::
    "vpipe_ctx \<Rightarrow> buf_type \<Rightarrow> u32 \<Rightarrow> u32 \<Rightarrow> u32 \<Rightarrow> (u32 \<times> u32 \<times> u32) result" where
  "vpipe_queue_setup ctx type nbufs nplanes size0 =
     (let q_data = vpipe_get_q_data ctx type;
          nbufs' = (if nbufs < 2 then 2 else nbufs)
      in if nplanes \<noteq> 0
         then if size0 < q_sizeimage q_data then Inl EINVAL else Inr (nbufs', nplanes, size0)
         else Inr (nbufs', 1, q_sizeimage q_data))"

definition vpipe_buf_prepare :: "vpipe_ctx \<Rightarrow> buf_type \<Rightarrow> vpipe_buffer \<Rightarrow> unit result \<times> vpipe_buffer" where
  "vpipe_buf_prepare ctx type vb =
     (let q_data = vpipe_get_q_data ctx type
      in if vb_plane_size vb < unat (q_sizeimage q_data) then (Inl EINVAL, vb)
         else (Inr (), vb\<lparr>vb_payload := unat (q_sizeimage q_data)\<rparr>))"

section \<open>Controls\<close>

definition vpipe_s_ctrl :: "u32 \<Rightarrow> s32 \<Rightarrow> vpipe_ctx \<Rightarrow> unit result \<times> vpipe_ctx" where
  "vpipe_s_ctrl cid val ctx =
     (if cid = VPIPE_CID_SRC_SEQUENCE then (Inr (), ctx\<lparr>c_src_sequence := val\<rparr>)
      else if cid = VPIPE_CID_ALGO then (Inr (), ctx\<lparr>c_algo_id := val\<rparr>)
      else if cid = VPIPE_CID_ROI_LEFT then (Inr (), ctx\<lparr>c_roi := (c_roi ctx)\<lparr>roi_left := val\<rparr>\<rparr>)
      else if cid = VPIPE_CID_ROI_TOP then (Inr (), ctx\<lparr>c_roi := (c_roi ctx)\<lparr>roi_top := val\<rparr>\<rparr>)
      else if cid = VPIPE_CID_ROI_WIDTH then (Inr (), ctx\<lparr>c_roi := (c_roi ctx)\<lparr>roi_width := val\<rparr>\<rparr>)
      else if cid = VPIPE_CID_ROI_HEIGHT then (Inr (), ctx\<lparr>c_roi := (c_roi ctx)\<lparr>roi_height := val\<rparr>\<rparr>)
      else if cid = VPIPE_CID_THRESHOLD then (Inr (), ctx\<lparr>c_threshold := val\<rparr>)
      else (Inl EINVAL, ctx))"

text \<open>The range and default of a control; the menu control has step 0.\<close>

record v4l2_ctrl_config =
  cc_id :: u32
  cc_name :: string
  cc_min :: int
  cc_max :: int
  cc_step :: int
  cc_def :: int

definition vpipe_ctrl_src_sequence :: v4l2_ctrl_config where
  "vpipe_ctrl_src_sequence = \<lparr>cc_id = VPIPE_CID_SRC_SEQUENCE, cc_name = ''Source V4L2 Sequence'',
     cc_min = 0, cc_max = 2147483647, cc_step = 1, cc_def = 0\<rparr>"

definition vpipe_ctrl_algo :: v4l2_ctrl_config where
  "vpipe_ctrl_algo = \<lparr>cc_id = VPIPE_CID_ALGO, cc_name = ''Algorithm'',
     cc_min = uint VPIPE_ALGO_NONE, cc_max = uint VPIPE_ALGO_THRESHOLD, cc_step = 0, cc_def = uint VPIPE_ALGO_NONE\<rparr>"

definition vpipe_ctrl_roi_left :: v4l2_ctrl_config where
  "vpipe_ctrl_roi_left = \<lparr>cc_id = VPIPE_CID_ROI_LEFT, cc_name = ''ROI Left'',
     cc_min = 0, cc_max = 4096, cc_step = 1, cc_def = 0\<rparr>"

definition vpipe_ctrl_roi_top :: v4l2_ctrl_config where
  "vpipe_ctrl_roi_top = \<lparr>cc_id = VPIPE_CID_ROI_TOP, cc_name = ''ROI Top'',
     cc_min = 0, cc_max = 4096, cc_step = 1, cc_def = 0\<rparr>"

definition vpipe_ctrl_roi_width :: v4l2_ctrl_config where
  "vpipe_ctrl_roi_width = \<lparr>cc_id = VPIPE_CID_ROI_WIDTH, cc_name = ''ROI Width'',
     cc_min = 0, cc_max = 4096, cc_step = 1, cc_def = uint VPIPE_DEFAULT_WIDTH\<rparr>"

definition vpipe_ctrl_roi_height :: v4l2_ctrl_config where
  "vpipe_ctrl_roi_height = \<lparr>cc_id = VPIPE_CID_ROI_HEIGHT, cc_name = ''ROI Height'',
     cc_min = 0, cc_max = 4096, cc_step = 1, cc_def = uint VPIPE_DEFAULT_HEIGHT\<rparr>"

definition vpipe_ctrl_threshold :: v4l2_ctrl_config where
  "vpipe_ctrl_threshold = \<lparr>cc_id = VPIPE_CID_THRESHOLD, cc_name = ''Threshold'',
     cc_min = 0, cc_max = 255, cc_step = 1, cc_def = uint VPIPE_DEFAULT_THRESHOLD\<rparr>"

definition vpipe_ctrls :: "v4l2_ctrl_config list" where
  "vpipe_ctrls = [vpipe_ctrl_src_sequence, vpipe_ctrl_algo, vpipe_ctrl_roi_left, vpipe_ctrl_roi_top,
     vpipe_ctrl_roi_width, vpipe_ctrl_roi_height, vpipe_ctrl_threshold]"

section \<open>Well-formed formats\<close>

definition q_ok :: "vpipe_q_data \<Rightarrow> bool" where
  "q_ok q \<longleftrightarrow> 1 \<le> unat (q_width q) \<and> unat (q_width q) \<le> 4096 \<and> 1 \<le> unat (q_height q) \<and> unat (q_height q) \<le> 4096 \<and>
     q_bytesperline q = q_width q \<and> unat (q_sizeimage q) = unat (q_height q) * unat (q_width q) \<and>
     q_pixelformat q = V4L2_PIX_FMT_GREY"

text \<open>Both queues carry the same well-formed format.\<close>

definition fmt_ok :: "vpipe_ctx \<Rightarrow> bool" where
  "fmt_ok ctx \<longleftrightarrow> q_ok (c_out_q ctx) \<and> c_cap_q ctx = c_out_q ctx"

lemma q_ok_bounds:
  assumes "q_ok q"
  shows "unat (q_height q) * unat (q_width q) \<le> 4096 * 4096" "0 < unat (q_sizeimage q)"
  using assms mult_le_mono [of "unat (q_height q)" 4096 "unat (q_width q)" 4096] by (auto simp: q_ok_def)

lemma unat_clamp_dim: "unat (clamp_u32 n 1 4096) = max 1 (min 4096 (unat n))"
  by (auto simp: clamp_u32_def word_le_nat_alt max_def min_def)

lemma fill_pix_format_dims:
  "unat (pf_width (vpipe_fill_pix_format pix w h)) = max 1 (min 4096 (unat w))"
  "unat (pf_height (vpipe_fill_pix_format pix w h)) = max 1 (min 4096 (unat h))"
  "unat (pf_sizeimage (vpipe_fill_pix_format pix w h)) = max 1 (min 4096 (unat h)) * max 1 (min 4096 (unat w))"
proof -
  let ?w = "max 1 (min 4096 (unat w))" and ?h = "max 1 (min 4096 (unat h))"
  have "?h * ?w \<le> 4096 * 4096" by (intro mult_le_mono) auto
  then show "unat (pf_sizeimage (vpipe_fill_pix_format pix w h)) = ?h * ?w"
    by (simp add: vpipe_fill_pix_format_def Let_def unat_word_ariths unat_clamp_dim mult.commute)
qed (simp_all add: vpipe_fill_pix_format_def Let_def unat_clamp_dim)

lemma clamp_dim_idem: "clamp_u32 (clamp_u32 n 1 4096) 1 4096 = clamp_u32 n 1 4096"
  by (simp add: word_unat_eq_iff unat_clamp_dim)

lemma fill_pix_format_idem:
  "vpipe_fill_pix_format p (pf_width (vpipe_fill_pix_format q w h)) (pf_height (vpipe_fill_pix_format q w h)) =
   vpipe_fill_pix_format p w h"
  by (simp add: vpipe_fill_pix_format_def Let_def clamp_dim_idem)

lemma fill_pix_format_overwrites: "vpipe_fill_pix_format p w h = vpipe_fill_pix_format q w h"
  by (simp add: vpipe_fill_pix_format_def Let_def)

text \<open>
  C17.  Format negotiation.  On a busy queue \<open>VIDIOC_S_FMT\<close> is refused and nothing changes;
  otherwise, whatever was asked for, both queues get the same well-formed 8-bit format whose
  sides are the requested ones cut to 1..4096, its stride is its width and its image size is
  the exact product; the answer is what \<open>VIDIOC_G_FMT\<close> reports afterwards on either queue,
  and asking for it again changes nothing.
\<close>

theorem s_fmt_negotiates:
  "vpipe_s_fmt busy type pix ctx =
     (if busy type then (Inl EBUSY, ctx)
      else (Inr (vpipe_try_fmt pix), snd (vpipe_s_fmt (\<lambda>_. False) type pix ctx))) \<and>
   (let p = vpipe_try_fmt pix; ctx' = snd (vpipe_s_fmt (\<lambda>_. False) type pix ctx) in
      fmt_ok ctx' \<and> unat (q_width (c_out_q ctx')) = max 1 (min 4096 (unat (pf_width pix))) \<and>
      unat (q_height (c_out_q ctx')) = max 1 (min 4096 (unat (pf_height pix))) \<and>
      vpipe_g_fmt ctx' t pix' = p \<and> vpipe_try_fmt p = p)"
proof -
  let ?p = "vpipe_fill_pix_format pix (pf_width pix) (pf_height pix)"
  have try_fmt: "vpipe_try_fmt q = vpipe_fill_pix_format q (pf_width q) (pf_height q)" for q
    by (simp add: vpipe_try_fmt_def Let_def fill_pix_format_overwrites [of "q\<lparr>pf_pixelformat := V4L2_PIX_FMT_GREY\<rparr>" _ _ q])
  have grey: "pf_pixelformat ?p = V4L2_PIX_FMT_GREY" "pf_bytesperline ?p = pf_width ?p"
    by (simp_all add: vpipe_fill_pix_format_def Let_def)
  show ?thesis
    by (cases type) (auto simp: vpipe_s_fmt_def Let_def try_fmt fmt_ok_def q_ok_def fill_pix_format_dims grey
        vpipe_g_fmt_def vpipe_get_q_data_def fill_pix_format_idem fill_pix_format_overwrites [of pix' _ _ pix]
        fill_pix_format_overwrites [of ?p _ _ pix]
        V4L2_TYPE_IS_OUTPUT_def)
qed

text \<open>
  A buffer sized by \<open>vpipe_queue_setup\<close> passes \<open>vpipe_buf_prepare\<close> under the same format, and
  its payload is one image.
\<close>

lemma queue_setup_prepare:
  assumes "vpipe_queue_setup ctx type nbufs nplanes size0 = Inr (n, planes, sz)" "vb_plane_size vb = unat sz"
  shows "2 \<le> n \<and> vpipe_buf_prepare ctx type vb = (Inr (), vb\<lparr>vb_payload := unat (q_sizeimage (vpipe_get_q_data ctx type))\<rparr>)"
  using assms
  by (auto simp: vpipe_queue_setup_def vpipe_buf_prepare_def Let_def word_less_nat_alt word_le_nat_alt not_less split: if_splits)

section \<open>Control values\<close>

text \<open>The value the context holds for a control.\<close>

definition ctrl_value :: "u32 \<Rightarrow> vpipe_ctx \<Rightarrow> s32" where
  "ctrl_value cid ctx =
     (if cid = VPIPE_CID_SRC_SEQUENCE then c_src_sequence ctx else if cid = VPIPE_CID_ALGO then c_algo_id ctx
      else if cid = VPIPE_CID_ROI_LEFT then roi_left (c_roi ctx) else if cid = VPIPE_CID_ROI_TOP then roi_top (c_roi ctx)
      else if cid = VPIPE_CID_ROI_WIDTH then roi_width (c_roi ctx)
      else if cid = VPIPE_CID_ROI_HEIGHT then roi_height (c_roi ctx) else c_threshold ctx)"

definition ctrl_ok :: "vpipe_ctx \<Rightarrow> bool" where
  "ctrl_ok ctx \<longleftrightarrow> (\<forall>cfg\<in>set vpipe_ctrls. cc_min cfg \<le> sint (ctrl_value (cc_id cfg) ctx) \<and>
     sint (ctrl_value (cc_id cfg) ctx) \<le> cc_max cfg)"

lemmas ctrl_defs = vpipe_ctrl_src_sequence_def vpipe_ctrl_algo_def vpipe_ctrl_roi_left_def vpipe_ctrl_roi_top_def
  vpipe_ctrl_roi_width_def vpipe_ctrl_roi_height_def vpipe_ctrl_threshold_def

lemma ctrl_ids: "map cc_id vpipe_ctrls = [VPIPE_CID_SRC_SEQUENCE, VPIPE_CID_ALGO, VPIPE_CID_ROI_LEFT,
    VPIPE_CID_ROI_TOP, VPIPE_CID_ROI_WIDTH, VPIPE_CID_ROI_HEIGHT, VPIPE_CID_THRESHOLD]"
  by (simp add: vpipe_ctrls_def ctrl_defs)

lemma ctrl_ids_inj: "inj_on cc_id (set vpipe_ctrls)"
proof -
  have "distinct (map cc_id vpipe_ctrls)" unfolding ctrl_ids by simp
  then show ?thesis by (simp add: distinct_map)
qed

lemma ctrl_id_cases:
  assumes "cfg \<in> set vpipe_ctrls"
  shows "cc_id cfg \<in> set (map cc_id vpipe_ctrls)"
  using assms by simp

lemma s_ctrl_value:
  assumes "cfg \<in> set vpipe_ctrls" "cfg' \<in> set vpipe_ctrls"
  shows "ctrl_value (cc_id cfg') (snd (vpipe_s_ctrl (cc_id cfg) val ctx)) =
    (if cc_id cfg' = cc_id cfg then val else ctrl_value (cc_id cfg') ctx)"
proof -
  have "ctrl_value j (snd (vpipe_s_ctrl i val ctx)) = (if j = i then val else ctrl_value j ctx)"
    if "i \<in> set (map cc_id vpipe_ctrls)" "j \<in> set (map cc_id vpipe_ctrls)" for i j
    using that unfolding ctrl_ids by (auto simp: vpipe_s_ctrl_def ctrl_value_def)
  then show ?thesis using assms by simp
qed

lemma s_ctrl_ok: "cfg \<in> set vpipe_ctrls \<Longrightarrow> fst (vpipe_s_ctrl (cc_id cfg) val ctx) = Inr ()"
  using ctrl_id_cases [of cfg] unfolding ctrl_ids by (auto simp: vpipe_s_ctrl_def)

lemma s_ctrl_frame:
  "c_out_q (snd (vpipe_s_ctrl cid val ctx)) = c_out_q ctx" "c_cap_q (snd (vpipe_s_ctrl cid val ctx)) = c_cap_q ctx"
  "c_src (snd (vpipe_s_ctrl cid val ctx)) = c_src ctx"
  by (simp_all add: vpipe_s_ctrl_def)

text \<open>
Setting a control.  Every one of the seven controls accepts a value in its declared
  range, reads back as that value, leaves the six others, both formats and the source
  untouched, and keeps every control within its declared range.
\<close>

theorem s_ctrl_roundtrip:
  assumes cfg: "cfg \<in> set vpipe_ctrls" and range: "cc_min cfg \<le> sint val" "sint val \<le> cc_max cfg" and ok: "ctrl_ok ctx"
  shows "\<exists>ctx'. vpipe_s_ctrl (cc_id cfg) val ctx = (Inr (), ctx') \<and> ctrl_ok ctx' \<and>
    ctrl_value (cc_id cfg) ctx' = val \<and>
    (\<forall>cfg'\<in>set vpipe_ctrls. cfg' \<noteq> cfg \<longrightarrow> ctrl_value (cc_id cfg') ctx' = ctrl_value (cc_id cfg') ctx) \<and>
    c_out_q ctx' = c_out_q ctx \<and> c_cap_q ctx' = c_cap_q ctx \<and> c_src ctx' = c_src ctx"
proof -
  let ?ctx = "snd (vpipe_s_ctrl (cc_id cfg) val ctx)"
  have ids: "cc_id cfg' = cc_id cfg \<longleftrightarrow> cfg' = cfg" if "cfg' \<in> set vpipe_ctrls" for cfg'
    using that cfg ctrl_ids_inj by (auto dest: inj_onD)
  have "ctrl_ok ?ctx" using ok range by (auto simp: ctrl_ok_def s_ctrl_value [OF cfg] ids)
  moreover have "vpipe_s_ctrl (cc_id cfg) val ctx = (Inr (), ?ctx)" using s_ctrl_ok [OF cfg] by (simp add: prod_eq_iff)
  ultimately show ?thesis using s_ctrl_value [OF cfg] cfg by (auto simp: ids s_ctrl_frame)
qed

definition default_ctx :: vpipe_ctx where
  "default_ctx = (let q = \<lparr>q_width = 640, q_height = 480, q_bytesperline = 640, q_sizeimage = 307200,
       q_pixelformat = V4L2_PIX_FMT_GREY\<rparr>
     in \<lparr>c_out_q = q, c_cap_q = q, c_src_sequence = 0, c_algo_id = 0, c_threshold = 127,
       c_roi = \<lparr>roi_left = 0, roi_top = 0, roi_width = 640, roi_height = 480\<rparr>, c_src = None\<rparr>)"

lemma default_ctx_ok: "fmt_ok default_ctx" "ctrl_ok default_ctx"
  by (simp_all add: default_ctx_def Let_def fmt_ok_def q_ok_def ctrl_ok_def vpipe_ctrls_def ctrl_defs ctrl_value_def)

theorem s_ctrl_roundtrip_witness:
  "\<exists>ctx'. vpipe_s_ctrl VPIPE_CID_THRESHOLD 200 default_ctx = (Inr (), ctx') \<and> ctrl_ok ctx' \<and>
    ctrl_value VPIPE_CID_THRESHOLD ctx' = 200 \<and> ctrl_value VPIPE_CID_ROI_WIDTH ctx' = 640"
proof -
  have m: "vpipe_ctrl_threshold \<in> set vpipe_ctrls" "vpipe_ctrl_roi_width \<in> set vpipe_ctrls"
    by (simp_all add: vpipe_ctrls_def)
  from s_ctrl_roundtrip [OF m(1) _ _ default_ctx_ok(2), of 200] obtain ctx' where
    r: "vpipe_s_ctrl (cc_id vpipe_ctrl_threshold) 200 default_ctx = (Inr (), ctx')" "ctrl_ok ctx'"
    "ctrl_value (cc_id vpipe_ctrl_threshold) ctx' = 200"
    "\<forall>cfg'\<in>set vpipe_ctrls. cfg' \<noteq> vpipe_ctrl_threshold \<longrightarrow> ctrl_value (cc_id cfg') ctx' = ctrl_value (cc_id cfg') default_ctx"
    by (auto simp: vpipe_ctrl_threshold_def)
  moreover have "vpipe_ctrl_roi_width \<noteq> vpipe_ctrl_threshold" by (simp add: ctrl_defs)
  ultimately have "ctrl_value (cc_id vpipe_ctrl_roi_width) ctx' = ctrl_value (cc_id vpipe_ctrl_roi_width) default_ctx"
    using m(2) by blast
  moreover have "cc_id vpipe_ctrl_roi_width = VPIPE_CID_ROI_WIDTH" "cc_id vpipe_ctrl_threshold = VPIPE_CID_THRESHOLD"
    "ctrl_value VPIPE_CID_ROI_WIDTH default_ctx = 640"
    by (simp_all add: ctrl_defs ctrl_value_def default_ctx_def Let_def)
  ultimately show ?thesis using r by simp
qed

end
