(* ===== verification/Tiny_Cv.thy ===== *)
theory Tiny_Cv
  imports Vpipe_Types
begin

text \<open>
  The image step of the driver (kmod/vpipe-cv.c): the region-of-interest clamp, the
  row-by-row frame copy, the threshold loop with its white and black counters, and the
  dispatcher \<open>vpipe_cv_process\<close>.  The lemmas give the exact picture left in the
  destination, the exact counters, and that no access leaves the source or destination
  block.
\<close>

unbundle bit_operations_syntax

section \<open>Definitions\<close>

definition vpipe_clamp_roi :: "vpipe_job_desc \<Rightarrow> vpipe_roi option \<Rightarrow> vpipe_roi" where
  "vpipe_clamp_roi job roi =
     (let fw = j_width job; fh = j_height job
      in case roi of
           None \<Rightarrow> \<lparr>roi_left = 0, roi_top = 0, roi_width = fw, roi_height = fh\<rparr>
         | Some r \<Rightarrow>
             if roi_width r \<le>s 0 \<or> roi_height r \<le>s 0
             then \<lparr>roi_left = 0, roi_top = 0, roi_width = fw, roi_height = fh\<rparr>
             else let left = clamp_s (roi_left r) 0 fw;
                      top = clamp_s (roi_top r) 0 fh;
                      right = ucast (clamp_s ((scast left :: s64) + scast (roi_width r))
                                       (scast left) (scast fw)) :: s32;
                      bottom = ucast (clamp_s ((scast top :: s64) + scast (roi_height r))
                                       (scast top) (scast fh)) :: s32
                  in \<lparr>roi_left = left, roi_top = top,
                      roi_width = right - left, roi_height = bottom - top\<rparr>)"

definition vpipe_copy_frame :: "vpipe_job_desc \<Rightarrow> mem \<Rightarrow> mem option" where
  "vpipe_copy_frame job m =
     foreach (\<lambda>row m. memcpy m
         (ptr_add (j_dst job) (uint (of_nat row * j_dst_stride job)))
         (ptr_add (j_src job) (uint (of_nat row * j_src_stride job)))
         (unat (j_width job)))
       [0..<unat (j_height job)] m"

definition threshold_pixel :: "u32 \<Rightarrow> u8 \<Rightarrow> u8" where
  "threshold_pixel threshold px = (if threshold < ucast px then 255 else 0)"

definition vpipe_threshold_frame ::
    "vpipe_job_desc \<Rightarrow> u32 \<Rightarrow> vpipe_roi \<Rightarrow> vpipe_cv_result \<Rightarrow> mem \<Rightarrow> (vpipe_cv_result \<times> mem) option" where
  "vpipe_threshold_frame job threshold roi result m = do {
     m \<leftarrow> vpipe_copy_frame job m;
     (m, white, black) \<leftarrow>
       foreach (\<lambda>y s.
           let dst_row = ptr_add (j_dst job) (uint (word_of_int y * j_dst_stride job));
               src_row = ptr_add (j_src job) (uint (word_of_int y * j_src_stride job))
           in foreach (\<lambda>x (m, white, black). do {
                  px \<leftarrow> load m (ptr_add src_row x);
                  let pixel = threshold_pixel threshold px;
                  m \<leftarrow> store m (ptr_add dst_row x) pixel;
                  Some (if pixel \<noteq> 0 then (m, white + 1, black) else (m, white, black + 1)) })
                [sint (roi_left roi)..sint (roi_left roi + roi_width roi) - 1] s)
         [sint (roi_top roi)..sint (roi_top roi + roi_height roi) - 1] (m, 0::u64, 0::u64);
     Some (result\<lparr>cv_algo_status := 0, cv_value0 := white, cv_value1 := black\<rparr>, m) }"

definition vpipe_cv_process ::
    "vpipe_job_desc \<Rightarrow> u32 \<Rightarrow> u32 \<Rightarrow> vpipe_roi option \<Rightarrow> mem \<Rightarrow> (vpipe_cv_result result \<times> mem) option" where
  "vpipe_cv_process job algo_id threshold roi m =
     (let clamped = vpipe_clamp_roi job roi;
          result = \<lparr>cv_algo_status = 0, cv_value0 = 0, cv_value1 = 0, cv_roi = clamped\<rparr>
      in if algo_id = VPIPE_ALGO_NONE then do {
             m \<leftarrow> vpipe_copy_frame job m;
             Some (Inr result, m) }
         else if algo_id = VPIPE_ALGO_THRESHOLD then do {
             (result, m) \<leftarrow> vpipe_threshold_frame job threshold clamped result m;
             Some (Inr result, m) }
         else Some (Inl EINVAL, m))"

section \<open>The region clamp\<close>

definition roi_ints :: "vpipe_roi option \<Rightarrow> int \<times> int \<times> int \<times> int" where
  "roi_ints roi = (case roi of None \<Rightarrow> (0, 0, 0, 0)
     | Some r \<Rightarrow> (sint (roi_left r), sint (roi_top r), sint (roi_width r), sint (roi_height r)))"

lemma vpipe_clamp_roi_window:
  assumes dims: "uint (j_width job) < 2 ^ 31" "uint (j_height job) < 2 ^ 31"
    and win: "roi_window (unat (j_width job)) (unat (j_height job)) (roi_ints roi) = (l, t, r, b)"
  defines "c \<equiv> vpipe_clamp_roi job roi"
  shows "sint (roi_left c) = int l \<and> sint (roi_left c + roi_width c) = int r
       \<and> sint (roi_top c) = int t \<and> sint (roi_top c + roi_height c) = int b
       \<and> sint (roi_width c) = int r - int l \<and> sint (roi_height c) = int b - int t"
proof -
  have s: "sint (j_width job) = uint (j_width job)" "sint (j_height job) = uint (j_height job)"
    using dims by (simp_all add: sint_small)
  show ?thesis
  proof (cases "roi = None \<or> (\<exists>q. roi = Some q \<and> (roi_width q \<le>s 0 \<or> roi_height q \<le>s 0))")
    case True
    then have "(l, t, r, b) = (0, 0, unat (j_width job), unat (j_height job))"
      using win by (auto simp: roi_window_def roi_ints_def word_sle_eq)
    moreover have "c = \<lparr>roi_left = 0, roi_top = 0, roi_width = j_width job, roi_height = j_height job\<rparr>"
      using True by (auto simp: c_def vpipe_clamp_roi_def Let_def split: option.split)
    ultimately show ?thesis using s by simp
  next
    case False
    then obtain q where q: "roi = Some q" "0 < sint (roi_width q)" "0 < sint (roi_height q)"
      by (auto simp: word_sle_eq not_le)
    have nn: "0 \<le> sint (j_width job)" "0 \<le> sint (j_height job)" using s by simp_all
    note x = clamp_axis [OF nn(1) q(2), of "roi_left q"]
      and y = clamp_axis [OF nn(2) q(3), of "roi_top q"]
    have "int l = win_lo (sint (j_width job)) (sint (roi_left q))"
      "int r = win_hi (sint (j_width job)) (sint (roi_left q)) (sint (roi_width q))"
      "int t = win_lo (sint (j_height job)) (sint (roi_top q))"
      "int b = win_hi (sint (j_height job)) (sint (roi_top q)) (sint (roi_height q))"
      using win q s win_bounds [of "sint (j_width job)" "sint (roi_width q)" "sint (roi_left q)"]
        win_bounds [of "sint (j_height job)" "sint (roi_height q)" "sint (roi_top q)"]
      by (auto simp: roi_window_def roi_ints_def)
    with x y q show ?thesis
      by (simp add: c_def vpipe_clamp_roi_def Let_def word_sle_eq)
  qed
qed

section \<open>Pictures and counters\<close>

text \<open>Number of pixels of a window that satisfy a predicate.\<close>

definition count_px :: "(nat \<Rightarrow> nat \<Rightarrow> bool) \<Rightarrow> nat \<Rightarrow> nat \<Rightarrow> nat \<Rightarrow> nat \<Rightarrow> nat" where
  "count_px P l t r b = (\<Sum>y = t..<b. \<Sum>x = l..<r. if P x y then 1 else 0)"

text \<open>
  A job whose rows lie inside its source and destination blocks, with the row offsets
  representable in 32 bits and the dimensions in 31.
\<close>

definition job_ok :: "mem \<Rightarrow> vpipe_job_desc \<Rightarrow> nat \<Rightarrow> nat \<Rightarrow> u8 list \<Rightarrow> u8 list \<Rightarrow> bool" where
  "job_ok m job sb db S D =
     (j_src job = (sb, 0) \<and> j_dst job = (db, 0) \<and> sb \<noteq> db \<and> m sb = Some S \<and> m db = Some D
    \<and> 0 < unat (j_width job)
    \<and> unat (j_width job) \<le> unat (j_src_stride job) \<and> unat (j_width job) \<le> unat (j_dst_stride job)
    \<and> unat (j_height job) * unat (j_src_stride job) \<le> length S
    \<and> unat (j_height job) * unat (j_dst_stride job) \<le> length D
    \<and> unat (j_height job) * unat (j_src_stride job) < 2 ^ 32
    \<and> unat (j_height job) * unat (j_dst_stride job) < 2 ^ 32
    \<and> uint (j_width job) < 2 ^ 31 \<and> uint (j_height job) < 2 ^ 31)"

lemma vpipe_copy_frame_draw:
  assumes ok: "job_ok m job sb db S D"
  shows "vpipe_copy_frame job m = Some (m(db \<mapsto> draw 0 0 (unat (j_width job)) (unat (j_height job))
           (unat (j_dst_stride job)) (\<lambda>x y. S ! (y * unat (j_src_stride job) + x)) D))"
proof -
  define w h ss ds where d: "w = unat (j_width job)" "h = unat (j_height job)"
    "ss = unat (j_src_stride job)" "ds = unat (j_dst_stride job)"
  define f where "f = (\<lambda>x y. S ! (y * ss + x))"
  let ?I = "\<lambda>k t. t = m(db \<mapsto> draw 0 0 w k ds f D)"
  have "\<exists>s'. vpipe_copy_frame job m = Some s' \<and> ?I h s'"
    unfolding vpipe_copy_frame_def d(2)[symmetric]
  proof (rule foreach_upt [where I = ?I])
    show "?I 0 m" using ok by (auto simp: job_ok_def)
  next
    fix k t assume k: "k < h" and t: "?I k t"
    have sk: "k * ss + w \<le> length S" and dk: "k * ds + w \<le> length D"
      using ok d k index_row_end [of k h w ss] index_row_end [of k h w ds] by (auto simp: job_ok_def)
    have off: "uint (of_nat k * j_dst_stride job) = int (k * ds)"
      "uint (of_nat k * j_src_stride job) = int (k * ss)"
      using ok k uint_row_offset [of k h] by (auto simp: job_ok_def d)
    have "memcpy t (db, int (k * ds)) (sb, int (k * ss)) w
          = Some (t(db \<mapsto> splice (k * ds) (take w (drop (k * ss) S)) (draw 0 0 w k ds f D)))"
      using t ok sk dk by (intro memcpy_Some) (auto simp: job_ok_def)
    moreover have "splice (k * ds) (take w (drop (k * ss) S)) (draw 0 0 w k ds f D)
          = draw 0 0 w (Suc k) ds f D"
      using ok sk dk by (intro splice_row_draw) (auto simp: job_ok_def d f_def)
    ultimately show "\<exists>t'. memcpy t (ptr_add (j_dst job) (uint (of_nat k * j_dst_stride job)))
        (ptr_add (j_src job) (uint (of_nat k * j_src_stride job))) (unat (j_width job)) = Some t' \<and> ?I (Suc k) t'"
      using t ok off by (auto simp: job_ok_def d)
  qed simp
  then show ?thesis by (simp add: d f_def)
qed

lemma count_px_step:
  assumes "t \<le> y"
  shows "count_px P l t r (Suc y) = count_px P l t r y + (\<Sum>x = l..<r. if P x y then 1 else 0)"
  using assms by (simp add: count_px_def)

lemma count_px_total: "count_px P l t r b + count_px (\<lambda>x y. \<not> P x y) l t r b = (b - t) * (r - l)"
proof -
  have "(\<Sum>x = l..<r. if P x y then 1 else 0) + (\<Sum>x = l..<r. if \<not> P x y then 1 else 0) = r - l" for y
  proof -
    have "(\<Sum>x = l..<r. (if P x y then 1 else 0) + (if \<not> P x y then 1 else 0)) = (\<Sum>x = l..<r. (1::nat))"
      by (rule sum.cong) auto
    then show ?thesis by (simp add: sum.distrib)
  qed
  then show ?thesis by (simp add: count_px_def flip: sum.distrib)
qed

lemma threshold_row:
  fixes m :: mem
  assumes S: "m sb = Some S" "sb \<noteq> db" and D: "m db = Some D"
    and rows: "y * ss + r \<le> length S" "y * ds + r \<le> length D" "r \<le> ds" and lr: "l \<le> r"
  shows "foreach (\<lambda>x (m, white, black). do {
            px \<leftarrow> load m (ptr_add (sb, int (y * ss)) x);
            let pixel = threshold_pixel th px;
            m \<leftarrow> store m (ptr_add (db, int (y * ds)) x) pixel;
            Some (if pixel \<noteq> 0 then (m, white + 1, black) else (m, white, black + 1)) })
          [int l..int r - 1] (m, white, black)
       = Some (m(db \<mapsto> draw l y r (Suc y) ds (\<lambda>x y. threshold_pixel th (S ! (y * ss + x))) D),
               white + of_nat (\<Sum>x = l..<r. if th < ucast (S ! (y * ss + x)) then 1 else 0) :: u64,
               black + of_nat (\<Sum>x = l..<r. if \<not> th < ucast (S ! (y * ss + x)) then 1 else 0) :: u64)"
    (is "foreach ?f _ _ = _")
proof -
  define f where "f = (\<lambda>x y. threshold_pixel th (S ! (y * ss + x)))"
  let ?W = "\<lambda>k. \<Sum>x = l..<k. if th < ucast (S ! (y * ss + x)) then 1 else (0::nat)"
    and ?B = "\<lambda>k. \<Sum>x = l..<k. if \<not> th < ucast (S ! (y * ss + x)) then 1 else (0::nat)"
  let ?I = "\<lambda>k s. s = (m(db \<mapsto> draw l y k (Suc y) ds f D), white + of_nat (?W k), black + of_nat (?B k))"
  have "\<exists>s'. foreach (\<lambda>k. ?f (int k)) [l..<r] (m, white, black) = Some s' \<and> ?I r s'"
  proof (rule foreach_upt [where I = ?I, OF lr])
    show "?I l (m, white, black)" using D by auto
  next
    fix k s assume k: "l \<le> k" "k < r" and s: "?I k s"
    have ld: "load (m(db \<mapsto> draw l y k (Suc y) ds f D)) (sb, int (y * ss + k)) = Some (S ! (y * ss + k))"
      using S rows k by (intro load_Some) auto
    have st: "store (m(db \<mapsto> draw l y k (Suc y) ds f D)) (db, int (y * ds + k)) (f k y)
        = Some (m(db \<mapsto> (draw l y k (Suc y) ds f D)[y * ds + k := f k y]))"
      using rows k by (subst store_Some [of _ _ "draw l y k (Suc y) ds f D"]) auto
    have dr: "(draw l y k (Suc y) ds f D)[y * ds + k := f k y] = draw l y (Suc k) (Suc y) ds f D"
      using k rows by (intro draw_step_x) auto
    show "\<exists>s'. ?f (int k) s = Some s' \<and> ?I (Suc k) s'"
      using s k ld st dr by (auto simp: f_def threshold_pixel_def Let_def)
  qed
  then show ?thesis by (simp add: upto_int_upt foreach_map f_def)
qed

lemma threshold_rows:
  fixes m :: mem and ss ds :: u32
  assumes S: "m sb = Some S" "sb \<noteq> db" and D: "m db = Some D"
    and st: "r \<le> unat ss" "r \<le> unat ds" "0 < unat ss" "0 < unat ds"
    and hs: "h * unat ss \<le> length S" "h * unat ds \<le> length D"
    and fit: "h * unat ss < 2 ^ 32" "h * unat ds < 2 ^ 32"
    and win: "l \<le> r" "t \<le> b" "b \<le> h"
  shows "foreach (\<lambda>y s.
           let dst_row = ptr_add (db, 0) (uint (word_of_int y * ds));
               src_row = ptr_add (sb, 0) (uint (word_of_int y * ss))
           in foreach (\<lambda>x (m, white, black). do {
                  px \<leftarrow> load m (ptr_add src_row x);
                  let pixel = threshold_pixel th px;
                  m \<leftarrow> store m (ptr_add dst_row x) pixel;
                  Some (if pixel \<noteq> 0 then (m, white + 1, black) else (m, white, black + 1)) })
                [int l..int r - 1] s)
         [int t..int b - 1] (m, 0::u64, 0::u64)
       = Some (m(db \<mapsto> draw l t r b (unat ds) (\<lambda>x y. threshold_pixel th (S ! (y * unat ss + x))) D),
               of_nat (count_px (\<lambda>x y. th < ucast (S ! (y * unat ss + x))) l t r b),
               of_nat (count_px (\<lambda>x y. \<not> th < ucast (S ! (y * unat ss + x))) l t r b))"
    (is "foreach ?F _ _ = _")
proof -
  define f where "f = (\<lambda>x y. threshold_pixel th (S ! (y * unat ss + x)))"
  let ?P = "\<lambda>x y. th < ucast (S ! (y * unat ss + x))"
  let ?I = "\<lambda>k s. s = (m(db \<mapsto> draw l t r k (unat ds) f D), of_nat (count_px ?P l t r k) :: u64,
     of_nat (count_px (\<lambda>x y. \<not> ?P x y) l t r k) :: u64)"
  have "\<exists>s'. foreach (\<lambda>k. ?F (int k)) [t..<b] (m, 0, 0) = Some s' \<and> ?I b s'"
  proof (rule foreach_upt [where I = ?I, OF win(2)])
    show "?I t (m, 0, 0)" using D by (auto simp: count_px_def)
  next
    fix k s assume k: "t \<le> k" "k < b" and s: "?I k s"
    have kh: "k < h" using k win by simp
    note off = uint_row_offset [OF kh fit(1) st(3)] uint_row_offset [OF kh fit(2) st(4)]
    have "foreach (\<lambda>x (m, white, black). do {
            px \<leftarrow> load m (ptr_add (sb, int (k * unat ss)) x);
            let pixel = threshold_pixel th px;
            m \<leftarrow> store m (ptr_add (db, int (k * unat ds)) x) pixel;
            Some (if pixel \<noteq> 0 then (m, white + 1, black) else (m, white, black + 1)) })
          [int l..int r - 1] (m(db \<mapsto> draw l t r k (unat ds) f D), of_nat (count_px ?P l t r k) :: u64,
              of_nat (count_px (\<lambda>x y. \<not> ?P x y) l t r k) :: u64)
        = Some ((m(db \<mapsto> draw l t r k (unat ds) f D))(db \<mapsto>
              draw l k r (Suc k) (unat ds) (\<lambda>x y. threshold_pixel th (S ! (y * unat ss + x)))
                (draw l t r k (unat ds) f D)),
            of_nat (count_px ?P l t r k) + of_nat (\<Sum>x = l..<r. if ?P x k then 1 else 0),
            of_nat (count_px (\<lambda>x y. \<not> ?P x y) l t r k) + of_nat (\<Sum>x = l..<r. if \<not> ?P x k then 1 else 0))"
      using S win st k hs index_row_end [of k h r "unat ss"] index_row_end [of k h r "unat ds"]
      by (intro threshold_row) auto
    then show "\<exists>s'. ?F (int k) s = Some s' \<and> ?I (Suc k) s'"
      using s k off draw_step_y [OF k(1), of l r "unat ds" f D]
      by (simp add: count_px_step f_def)
  qed
  then show ?thesis by (simp add: foreach_upto_int f_def)
qed

lemma vpipe_threshold_frame_draw:
  assumes ok: "job_ok m job sb db S D"
    and roi: "sint (roi_left roi) = int l" "sint (roi_left roi + roi_width roi) = int r"
      "sint (roi_top roi) = int t" "sint (roi_top roi + roi_height roi) = int b"
    and win: "l \<le> r" "r \<le> unat (j_width job)" "t \<le> b" "b \<le> unat (j_height job)"
  defines "px \<equiv> \<lambda>x y. S ! (y * unat (j_src_stride job) + x)" and "ds \<equiv> unat (j_dst_stride job)"
  shows "vpipe_threshold_frame job th roi res m =
     Some (res\<lparr>cv_algo_status := 0,
               cv_value0 := of_nat (count_px (\<lambda>x y. th < ucast (px x y)) l t r b),
               cv_value1 := of_nat (count_px (\<lambda>x y. \<not> th < ucast (px x y)) l t r b)\<rparr>,
           m(db \<mapsto> draw l t r b ds (\<lambda>x y. threshold_pixel th (px x y))
                     (draw 0 0 (unat (j_width job)) (unat (j_height job)) ds px D)))"
proof -
  let ?D = "draw 0 0 (unat (j_width job)) (unat (j_height job)) ds px D"
  have cp: "vpipe_copy_frame job m = Some (m(db \<mapsto> ?D))"
    using vpipe_copy_frame_draw [OF ok] by (simp add: px_def ds_def)
  note loops = threshold_rows [of "m(db \<mapsto> ?D)" sb S db ?D r "j_src_stride job" "j_dst_stride job"
      "unat (j_height job)" l t b th]
  show ?thesis
    unfolding vpipe_threshold_frame_def cp roi
    using loops ok win by (simp add: job_ok_def px_def ds_def)
qed

section \<open>Properties\<close>

lemma count_px_fits:
  assumes "r \<le> w" "b \<le> h" "h * w < 2 ^ 32"
  shows "unat (of_nat (count_px P l t r b) :: u64) = count_px P l t r b"
proof -
  have "count_px P l t r b \<le> (b - t) * (r - l)"
    using count_px_total [of P l t r b] by linarith
  also have "\<dots> \<le> h * w" using assms(1,2) by (intro mult_le_mono) auto
  also have "\<dots> < 2 ^ 64" using assms(3) by simp
  finally show ?thesis by (simp add: unat_of_nat take_bit_nat_eq_self)
qed

text \<open>
  The region clamp is exact for every 32-bit signed region: in a frame whose sides fit
  31 bits the clamped region is the mathematical window (origin moved into the frame, far
  edge cut at the frame, the whole frame for an empty extent), it lies inside the frame,
  and neither the sums nor the differences wrap.
\<close>

theorem vpipe_clamp_roi_exact:
  assumes "uint (j_width job) < 2 ^ 31" "uint (j_height job) < 2 ^ 31"
  shows "\<exists>l t r b. roi_window (unat (j_width job)) (unat (j_height job)) (roi_ints roi) = (l, t, r, b)
     \<and> l \<le> r \<and> r \<le> unat (j_width job) \<and> t \<le> b \<and> b \<le> unat (j_height job)
     \<and> sint (roi_left (vpipe_clamp_roi job roi)) = int l
     \<and> sint (roi_top (vpipe_clamp_roi job roi)) = int t
     \<and> sint (roi_width (vpipe_clamp_roi job roi)) = int r - int l
     \<and> sint (roi_height (vpipe_clamp_roi job roi)) = int b - int t"
proof -
  obtain l t r b where win:
    "roi_window (unat (j_width job)) (unat (j_height job)) (roi_ints roi) = (l, t, r, b)"
    by (metis prod_cases4)
  with vpipe_clamp_roi_window [OF assms win] roi_window_bounds [OF win] show ?thesis by blast
qed

text \<open>A 640 by 480 frame with a region that starts left of it and ends below it.\<close>

definition vga_job :: vpipe_job_desc where
  "vga_job = \<lparr>j_src = (0, 0), j_dst = (1, 0), j_width = 640, j_height = 480,
     j_src_stride = 640, j_dst_stride = 640\<rparr>"

theorem vpipe_clamp_roi_exact_witness:
  "\<exists>l t r b. roi_window (unat (j_width vga_job)) (unat (j_height vga_job))
       (roi_ints (Some \<lparr>roi_left = -5, roi_top = 470, roi_width = 2147483647, roi_height = 100\<rparr>)) = (l, t, r, b)
     \<and> (l, t, r, b) = (0, 470, 640, 480)
     \<and> sint (roi_width (vpipe_clamp_roi vga_job
         (Some \<lparr>roi_left = -5, roi_top = 470, roi_width = 2147483647, roi_height = 100\<rparr>))) = 640"
  using vpipe_clamp_roi_exact [of vga_job
      "Some \<lparr>roi_left = -5, roi_top = 470, roi_width = 2147483647, roi_height = 100\<rparr>"]
  by (auto simp: vga_job_def roi_window_def roi_ints_def win_lo_def win_hi_def)

text \<open>
  What a job leaves in the destination: the source picture, thresholded inside the window
  when the algorithm is the threshold.
\<close>

definition cv_pixel :: "u32 \<Rightarrow> u32 \<Rightarrow> nat \<times> nat \<times> nat \<times> nat \<Rightarrow> nat \<Rightarrow> u8 list \<Rightarrow> nat \<Rightarrow> nat \<Rightarrow> u8" where
  "cv_pixel algo th win ss S x y =
     (case win of (l, t, r, b) \<Rightarrow>
        if algo = VPIPE_ALGO_THRESHOLD \<and> l \<le> x \<and> x < r \<and> t \<le> y \<and> y < b
        then threshold_pixel th (S ! (y * ss + x)) else S ! (y * ss + x))"

definition cv_white :: "u32 \<Rightarrow> u32 \<Rightarrow> nat \<times> nat \<times> nat \<times> nat \<Rightarrow> nat \<Rightarrow> u8 list \<Rightarrow> nat" where
  "cv_white algo th win ss S = (case win of (l, t, r, b) \<Rightarrow>
     if algo = VPIPE_ALGO_THRESHOLD then count_px (\<lambda>x y. th < ucast (S ! (y * ss + x))) l t r b else 0)"

definition cv_area :: "u32 \<Rightarrow> nat \<times> nat \<times> nat \<times> nat \<Rightarrow> nat" where
  "cv_area algo win = (case win of (l, t, r, b) \<Rightarrow> if algo = VPIPE_ALGO_THRESHOLD then (b - t) * (r - l) else 0)"

lemma cv_process_picture:
  fixes roi :: "vpipe_roi option"
  assumes ok: "job_ok m job sb db S D" and algo: "algo = VPIPE_ALGO_NONE \<or> algo = VPIPE_ALGO_THRESHOLD"
  defines "win \<equiv> roi_window (unat (j_width job)) (unat (j_height job)) (roi_ints roi)"
    and "ss \<equiv> unat (j_src_stride job)"
  shows "\<exists>res. vpipe_cv_process job algo th roi m =
      Some (Inr res, m(db \<mapsto> draw 0 0 (unat (j_width job)) (unat (j_height job)) (unat (j_dst_stride job))
        (cv_pixel algo th win ss S) D))
    \<and> cv_algo_status res = 0 \<and> cv_roi res = vpipe_clamp_roi job roi
    \<and> unat (cv_value0 res) = cv_white algo th win ss S
    \<and> unat (cv_value0 res) + unat (cv_value1 res) = cv_area algo win"
proof -
  obtain l t r b where w: "win = (l, t, r, b)" by (cases win)
  then have win: "roi_window (unat (j_width job)) (unat (j_height job)) (roi_ints roi) = (l, t, r, b)"
    by (simp add: win_def)
  note bounds = roi_window_bounds [OF win]
  have clamp: "sint (roi_left (vpipe_clamp_roi job roi)) = int l"
    "sint (roi_left (vpipe_clamp_roi job roi) + roi_width (vpipe_clamp_roi job roi)) = int r"
    "sint (roi_top (vpipe_clamp_roi job roi)) = int t"
    "sint (roi_top (vpipe_clamp_roi job roi) + roi_height (vpipe_clamp_roi job roi)) = int b"
    using vpipe_clamp_roi_window [OF _ _ win] ok by (auto simp: job_ok_def)
  have area: "unat (j_height job) * unat (j_width job) < 2 ^ 32"
    using ok by (intro le_less_trans [OF mult_le_mono2
          [of "unat (j_width job)" "unat (j_src_stride job)" "unat (j_height job)"]])
      (simp_all add: job_ok_def)
  note fits = count_px_fits [OF bounds(2,4) area]
  show ?thesis
    using vpipe_threshold_frame_draw [OF ok clamp bounds] vpipe_copy_frame_draw [OF ok] bounds algo
    by (auto simp: w vpipe_cv_process_def Let_def draw_window_on_frame fits count_px_total
        cv_pixel_def [abs_def] cv_white_def cv_area_def ss_def)
qed

text \<open>
  C9.  The threshold step is correct and memory safe.  On a job whose rows lie inside its
  source and destination blocks it never faults, writes only the destination, leaves there
  the source picture with exactly the pixels of the window thresholded (255 above the
  threshold, 0 otherwise) and every byte outside the frame as it was, and counts the white
  and black pixels of the window exactly.
\<close>

theorem vpipe_cv_process_threshold:
  assumes ok: "job_ok m job sb db S D"
    and win: "roi_window (unat (j_width job)) (unat (j_height job)) (roi_ints roi) = (l, t, r, b)"
  shows "\<exists>res. vpipe_cv_process job VPIPE_ALGO_THRESHOLD th roi m =
      Some (Inr res, m(db \<mapsto> draw 0 0 (unat (j_width job)) (unat (j_height job)) (unat (j_dst_stride job))
        (\<lambda>x y. if l \<le> x \<and> x < r \<and> t \<le> y \<and> y < b
               then threshold_pixel th (S ! (y * unat (j_src_stride job) + x))
               else S ! (y * unat (j_src_stride job) + x)) D))
    \<and> cv_algo_status res = 0 \<and> cv_roi res = vpipe_clamp_roi job roi
    \<and> unat (cv_value0 res) = count_px (\<lambda>x y. th < ucast (S ! (y * unat (j_src_stride job) + x))) l t r b
    \<and> unat (cv_value0 res) + unat (cv_value1 res) = (b - t) * (r - l)"
  using cv_process_picture [OF ok, of VPIPE_ALGO_THRESHOLD th roi]
  by (simp add: win cv_pixel_def [abs_def] cv_white_def cv_area_def)

definition tiny_job :: vpipe_job_desc where
  "tiny_job = \<lparr>j_src = (0, 0), j_dst = (1, 0), j_width = 2, j_height = 2,
     j_src_stride = 3, j_dst_stride = 2\<rparr>"

definition tiny_mem :: mem where
  "tiny_mem = [0 \<mapsto> [10, 200, 77, 200, 10, 77], 1 \<mapsto> [1, 1, 1, 1, 9]]"

lemma tiny_job_ok: "job_ok tiny_mem tiny_job 0 1 [10, 200, 77, 200, 10, 77] [1, 1, 1, 1, 9]"
  by (simp add: job_ok_def tiny_job_def tiny_mem_def)

lemma tiny_count:
  "count_px (\<lambda>x y. 127 < (ucast ([10, 200, 77, 200, 10, 77 :: u8] ! (y * 3 + x)) :: u32)) (Suc 0) 0 2 2 = 1"
  by code_simp

theorem vpipe_cv_process_threshold_witness:
  "\<exists>res. vpipe_cv_process tiny_job VPIPE_ALGO_THRESHOLD 127
       (Some \<lparr>roi_left = 1, roi_top = 0, roi_width = 9, roi_height = 9\<rparr>) tiny_mem
     = Some (Inr res, tiny_mem(1 \<mapsto> [10, 255, 200, 0, 9])) \<and> unat (cv_value0 res) = 1"
  using vpipe_cv_process_threshold [OF tiny_job_ok,
      of "Some \<lparr>roi_left = 1, roi_top = 0, roi_width = 9, roi_height = 9\<rparr>" 1 0 2 2 127]
  by (auto simp: tiny_job_def roi_window_def roi_ints_def win_lo_def win_hi_def draw_def
      threshold_pixel_def tiny_count upt_rec)

text \<open>
  Without an algorithm the step is a pure copy: the frame is transferred row by row
  between the two strides, no byte outside the destination frame changes, and the counters
  stay zero.
\<close>

theorem vpipe_cv_process_none:
  assumes "job_ok m job sb db S D"
  shows "vpipe_cv_process job VPIPE_ALGO_NONE th roi m =
      Some (Inr \<lparr>cv_algo_status = 0, cv_value0 = 0, cv_value1 = 0, cv_roi = vpipe_clamp_roi job roi\<rparr>,
        m(db \<mapsto> draw 0 0 (unat (j_width job)) (unat (j_height job)) (unat (j_dst_stride job))
                (\<lambda>x y. S ! (y * unat (j_src_stride job) + x)) D))"
  using vpipe_copy_frame_draw [OF assms] by (simp add: vpipe_cv_process_def Let_def)

theorem vpipe_cv_process_none_witness:
  "vpipe_cv_process tiny_job VPIPE_ALGO_NONE 127 None tiny_mem =
     Some (Inr \<lparr>cv_algo_status = 0, cv_value0 = 0, cv_value1 = 0,
                cv_roi = \<lparr>roi_left = 0, roi_top = 0, roi_width = 2, roi_height = 2\<rparr>\<rparr>,
           tiny_mem(1 \<mapsto> [10, 200, 200, 10, 9]))"
  using vpipe_cv_process_none [OF tiny_job_ok, of 127 None]
  by (simp add: tiny_job_def vpipe_clamp_roi_def draw_def upt_rec)

text \<open>An unknown algorithm is refused before any byte is touched.\<close>

lemma vpipe_cv_process_unknown:
  "algo \<noteq> VPIPE_ALGO_NONE \<Longrightarrow> algo \<noteq> VPIPE_ALGO_THRESHOLD \<Longrightarrow>
   vpipe_cv_process job algo th roi m = Some (Inl EINVAL, m)"
  by (simp add: vpipe_cv_process_def Let_def)

end
