(* ===== verification/Meta_Ring.thy ===== *)
theory Meta_Ring
  imports Vpipe_Types
begin

text \<open>
  The metadata side channel (kmod/vpipe-meta.c): one global ring of 256 entries, a
  publisher that overwrites the oldest entry, and any number of open files, each with its
  own cursor into the stream of published entries.

  The state is \<open>struct vpipe_meta_dev\<close> and one \<open>struct vpipe_meta_file\<close> per open file.
  The abstract view is the list of all entries ever published: \<open>meta_inv\<close> relates the ring
  to it, publishing appends to it and reading returns the entry under the cursor.  The
  second half models \<open>read\<close> as the source runs it, in two steps (the locked section and the
  unlocked cursor advance), as a step relation over threads and files.
\<close>

unbundle bit_operations_syntax

section \<open>State and operations\<close>

abbreviation (input) VPIPE_META_RING_SIZE :: nat where "VPIPE_META_RING_SIZE \<equiv> 256"
abbreviation (input) VPIPE_META_RING_MASK :: u64 where "VPIPE_META_RING_MASK \<equiv> 255"

record vpipe_meta_dev =
  md_ring :: "vpipe_meta_entry list"
  md_head :: u64
  md_published :: u64
  md_dropped :: u64
  md_dying :: bool

record vpipe_meta_file =
  mf_tail :: u64

text \<open>Static storage: everything zero.\<close>

definition g_meta_init :: vpipe_meta_dev where
  "g_meta_init = \<lparr>md_ring = replicate VPIPE_META_RING_SIZE zero_meta_entry, md_head = 0,
     md_published = 0, md_dropped = 0, md_dying = False\<rparr>"

definition normalize_entry :: "vpipe_meta_entry \<Rightarrow> vpipe_meta_entry" where
  "normalize_entry e = e\<lparr>me_version := VPIPE_META_VERSION, me_entry_size := of_nat sizeof_meta_entry\<rparr>"

definition vpipe_meta_publish :: "vpipe_meta_entry \<Rightarrow> vpipe_meta_dev \<Rightarrow> vpipe_meta_dev" where
  "vpipe_meta_publish src g =
     (let head = md_head g;
          g = g\<lparr>md_head := head + 1\<rparr>;
          slot = unat (head AND VPIPE_META_RING_MASK);
          g = g\<lparr>md_ring := (md_ring g)[slot := normalize_entry src],
                md_published := md_published g + 1\<rparr>
      in if md_head g > of_nat VPIPE_META_RING_SIZE
         then g\<lparr>md_dropped := md_head g - of_nat VPIPE_META_RING_SIZE\<rparr>
         else g)"

text \<open>\<open>kz\<close>: whether \<open>kzalloc\<close> succeeds.\<close>

definition vpipe_meta_open :: "bool \<Rightarrow> vpipe_meta_dev \<Rightarrow> vpipe_meta_file result" where
  "vpipe_meta_open kz g = (if \<not> kz then Inl ENOMEM else Inr \<lparr>mf_tail = md_head g\<rparr>)"

definition vpipe_meta_release :: "nat \<Rightarrow> (nat \<rightharpoonup> vpipe_meta_file) \<Rightarrow> (nat \<rightharpoonup> vpipe_meta_file)" where
  "vpipe_meta_release i files = files(i := None)"

text \<open>
  The section of \<open>vpipe_meta_read\<close> under the spinlock: end of file when the device is
  dying, \<open>EAGAIN\<close> when the cursor is at the head, otherwise the entry under the cursor, the
  cursor first moved to the oldest live entry (and the entry marked) on overrun.
\<close>

definition vpipe_meta_read_section ::
    "vpipe_meta_dev \<Rightarrow> vpipe_meta_file \<Rightarrow> vpipe_meta_entry option result \<times> vpipe_meta_file" where
  "vpipe_meta_read_section g ctx =
     (if md_dying g then (Inr None, ctx)
      else let head = md_head g
      in if mf_tail ctx = head then (Inl EAGAIN, ctx)
      else let oldest = (if head > of_nat VPIPE_META_RING_SIZE then head - of_nat VPIPE_META_RING_SIZE else 0);
               overrun = mf_tail ctx < oldest;
               ctx = (if overrun then ctx\<lparr>mf_tail := oldest\<rparr> else ctx);
               entry = md_ring g ! unat (mf_tail ctx AND VPIPE_META_RING_MASK);
               entry = (if overrun then entry\<lparr>me_flags := me_flags entry OR VPIPE_META_F_OVERRUN\<rparr> else entry)
      in (Inr (Some entry), ctx))"

text \<open>What follows the unlock: copy out, then advance the cursor.\<close>

definition vpipe_meta_read_finish ::
    "bool \<Rightarrow> vpipe_meta_entry \<Rightarrow> vpipe_meta_file \<Rightarrow> vpipe_meta_entry option result \<times> vpipe_meta_file" where
  "vpipe_meta_read_finish copied entry ctx =
     (if \<not> copied then (Inl EFAULT, ctx)
      else (Inr (Some entry), ctx\<lparr>mf_tail := mf_tail ctx + 1\<rparr>))"

definition meta_readable :: "vpipe_meta_dev \<Rightarrow> vpipe_meta_file \<Rightarrow> bool" where
  "meta_readable g ctx = (md_dying g \<or> md_head g \<noteq> mf_tail ctx)"

text \<open>
  A whole \<open>read\<close> by one thread.  The environment supplies the byte count, the
  \<open>O_NONBLOCK\<close> flag, whether a signal interrupts the wait, and whether the copy to user
  space succeeds.  \<open>None\<close> is a call that is still waiting.
\<close>

definition vpipe_meta_read ::
    "nat \<Rightarrow> bool \<Rightarrow> bool \<Rightarrow> bool \<Rightarrow> vpipe_meta_dev \<Rightarrow> vpipe_meta_file
       \<Rightarrow> (vpipe_meta_entry option result \<times> vpipe_meta_file) option" where
  "vpipe_meta_read count nonblock signalled copied g ctx =
     (if count < sizeof_meta_entry then Some (Inl EINVAL, ctx)
      else if \<not> nonblock \<and> \<not> meta_readable g ctx
      then (if signalled then Some (Inl ERESTARTSYS, ctx) else None)
      else case vpipe_meta_read_section g ctx of
             (Inr (Some entry), ctx) \<Rightarrow> Some (vpipe_meta_read_finish copied entry ctx)
           | other \<Rightarrow> Some other)"

text \<open>The ioctl numbers are \<open>_IOR('p', nr, struct)\<close> with struct sizes 28 and 32.\<close>

abbreviation (input) VPIPE_META_IOC_QUERY :: u32 where "VPIPE_META_IOC_QUERY \<equiv> 0x801C7000"
abbreviation (input) VPIPE_META_IOC_GET_STATS :: u32 where "VPIPE_META_IOC_GET_STATS \<equiv> 0x80207001"

datatype meta_reply = Meta_Info vpipe_meta_info | Meta_Stats vpipe_meta_stats

definition vpipe_meta_ioctl :: "u32 \<Rightarrow> bool \<Rightarrow> vpipe_meta_dev \<Rightarrow> meta_reply result" where
  "vpipe_meta_ioctl cmd copied g =
     (if cmd = VPIPE_META_IOC_QUERY
      then if copied then Inr (Meta_Info \<lparr>mi_version = VPIPE_META_VERSION,
             mi_entry_size = of_nat sizeof_meta_entry, mi_ring_entries = of_nat VPIPE_META_RING_SIZE,
             mi_flags = 0, mi_reserved = [0, 0, 0, 0]\<rparr>) else Inl EFAULT
      else if cmd = VPIPE_META_IOC_GET_STATS
      then if copied then Inr (Meta_Stats \<lparr>ms_published = md_published g, ms_dropped = md_dropped g,
             ms_reserved = [0, 0, 0, 0]\<rparr>)
           else Inl EFAULT
      else Inl ENOTTY)"

abbreviation (input) EPOLLIN :: u32 where "EPOLLIN \<equiv> 0x001"
abbreviation (input) EPOLLHUP :: u32 where "EPOLLHUP \<equiv> 0x010"
abbreviation (input) EPOLLRDNORM :: u32 where "EPOLLRDNORM \<equiv> 0x040"

definition vpipe_meta_poll :: "vpipe_meta_dev \<Rightarrow> vpipe_meta_file \<Rightarrow> u32" where
  "vpipe_meta_poll g ctx =
     (if md_dying g then EPOLLHUP
      else if md_head g \<noteq> mf_tail ctx then EPOLLIN OR EPOLLRDNORM
      else 0)"

text \<open>\<open>registered\<close>: the result of \<open>misc_register\<close>.\<close>

definition vpipe_meta_init :: "unit result \<Rightarrow> vpipe_meta_dev \<Rightarrow> unit result \<times> vpipe_meta_dev" where
  "vpipe_meta_init registered g = (registered, g)"

definition vpipe_meta_exit :: "vpipe_meta_dev \<Rightarrow> vpipe_meta_dev" where
  "vpipe_meta_exit g = g\<lparr>md_dying := True\<rparr>"

section \<open>The log of published entries\<close>

text \<open>
  \<open>meta_inv g log\<close>: the device has published exactly the entries of \<open>log\<close>, and the ring
  holds the last 256 of them, entry number \<open>i\<close> in slot \<open>i mod 256\<close>.  The bound on the
  length says that the 64-bit head counter has not wrapped.
\<close>

definition meta_inv :: "vpipe_meta_dev \<Rightarrow> vpipe_meta_entry list \<Rightarrow> bool" where
  "meta_inv g log \<longleftrightarrow>
     length (md_ring g) = VPIPE_META_RING_SIZE \<and> length log < 2 ^ 64 \<and>
     md_head g = of_nat (length log) \<and> md_published g = of_nat (length log) \<and>
     md_dropped g = of_nat (length log - VPIPE_META_RING_SIZE) \<and>
     (\<forall>i<length log. length log - VPIPE_META_RING_SIZE \<le> i \<longrightarrow> md_ring g ! (i mod VPIPE_META_RING_SIZE) = log ! i)"

definition mark_overrun :: "bool \<Rightarrow> vpipe_meta_entry \<Rightarrow> vpipe_meta_entry" where
  "mark_overrun ov e = (if ov then e\<lparr>me_flags := me_flags e OR VPIPE_META_F_OVERRUN\<rparr> else e)"

lemma unat_and_ring_mask: "unat (x AND 255 :: u64) = unat x mod 256"
proof -
  have "x AND 255 = take_bit 8 x" by (simp add: take_bit_eq_mask mask_eq_exp_minus_1)
  then show ?thesis by (simp only: unsigned_take_bit_eq) (simp add: take_bit_eq_mod)
qed

lemma unat_u64_of_nat: "n < 2 ^ 64 \<Longrightarrow> unat (of_nat n :: u64) = n"
  by (simp add: unat_of_nat take_bit_nat_eq_self)

lemma mod_window_neq: "i < n \<Longrightarrow> n < i + k \<Longrightarrow> i mod k \<noteq> (n mod k :: nat)"
  by (metis add_less_cancel_left le_add_diff_inverse less_imp_le_nat mod_eq_dvd_iff_nat nat_dvd_not_less zero_less_diff)

lemma meta_inv_init: "meta_inv g_meta_init []"
  by (simp add: meta_inv_def g_meta_init_def)

lemma meta_inv_head: "meta_inv g log \<Longrightarrow> unat (md_head g) = length log"
  by (simp add: meta_inv_def unat_u64_of_nat)

lemma meta_inv_publish:
  assumes inv: "meta_inv g log" and room: "Suc (length log) < 2 ^ 64"
  shows "meta_inv (vpipe_meta_publish e g) (log @ [normalize_entry e])"
proof -
  define n where "n = length log"
  from inv have len: "length (md_ring g) = 256" and h: "md_head g = of_nat n"
    and p: "md_published g = of_nat n" and d: "md_dropped g = of_nat (n - 256)"
    and r: "\<And>i. i < n \<Longrightarrow> n - 256 \<le> i \<Longrightarrow> md_ring g ! (i mod 256) = log ! i"
    by (simp_all add: meta_inv_def n_def)
  have slot: "unat (md_head g AND 255) = n mod 256"
    using room by (simp only: unat_and_ring_mask h) (simp add: unat_u64_of_nat n_def)
  have full: "(md_head g + 1 > 256) = (Suc n > 256)"
  proof -
    have "md_head g + 1 = of_nat (Suc n)" by (simp add: h)
    moreover have "unat (of_nat (Suc n) :: u64) = Suc n"
      using room by (intro unat_u64_of_nat) (simp add: n_def)
    ultimately have "unat (md_head g + 1) = Suc n" by metis
    then show ?thesis by (simp add: word_less_nat_alt)
  qed
  have dr: "md_head g + 1 - 256 = of_nat (Suc n - 256)" if "Suc n > 256"
    using that by (simp add: h of_nat_diff)
  have ring: "(md_ring g)[n mod 256 := normalize_entry e] ! (i mod 256) = (log @ [normalize_entry e]) ! i"
    if "i < Suc n" "Suc n - 256 \<le> i" for i
  proof (cases "i = n")
    case False
    with that have "i < n" "n < i + 256" by simp_all
    moreover from this have "i mod 256 \<noteq> n mod 256" by (rule mod_window_neq)
    moreover have "n - 256 \<le> i" using \<open>n < i + 256\<close> by simp
    ultimately 
show ?thesis using r [of i] by (simp add: nth_append n_def)
  qed (simp add: len n_def nth_append)
  show ?thesis
    using len h p d ring full dr room slot
    by (auto simp: meta_inv_def vpipe_meta_publish_def Let_def n_def)
qed

lemma read_section_spec:
  assumes inv: "meta_inv g log" and alive: "\<not> md_dying g" and le: "unat (mf_tail f) \<le> length log"
  shows "vpipe_meta_read_section g f =
    (let n = length log; t = unat (mf_tail f); t' = max t (n - 256) in
     if t = n then (Inl EAGAIN, f)
     else (Inr (Some (mark_overrun (t < n - 256) (log ! t'))), \<lparr>mf_tail = of_nat t'\<rparr>))"
proof -
  define n where "n = length log"
  define t where "t = unat (mf_tail f)"
  define oldest where "oldest = (if md_head g > 256 then md_head g - 256 else 0)"
  define ctx where "ctx = (if mf_tail f < oldest then f\<lparr>mf_tail := oldest\<rparr> else f)"
  from inv have n64: "n < 2 ^ 64" and h: "unat (md_head g) = n"
    and r: "\<And>i. i < n \<Longrightarrow> n - 256 \<le> i \<Longrightarrow> md_ring g ! (i mod 256) = log ! i"
    by (simp_all add: meta_inv_head n_def) (simp_all add: meta_inv_def)
  have old: "unat oldest = n - 256"
    using h by (auto simp: oldest_def word_less_nat_alt unat_sub word_le_nat_alt)
  have eq: "(mf_tail f = md_head g) = (t = n)"
    by (simp add: word_unat_eq_iff h t_def)
  have ov: "(mf_tail f < oldest) = (t < n - 256)" by (simp add: word_less_nat_alt old t_def)
  have cur: "unat (mf_tail ctx) = max t (n - 256)" by (auto simp: ctx_def ov old t_def)
  have tail: "ctx = \<lparr>mf_tail = of_nat (max t (n - 256))\<rparr>"
    by (cases ctx) (simp flip: cur)
  have entry: "md_ring g ! unat (mf_tail ctx AND 255) = log ! max t (n - 256)" if "t \<noteq> n"
    using that le r [of "max t (n - 256)"] by (simp add: unat_and_ring_mask cur t_def n_def)
  have "vpipe_meta_read_section g f =
      (if t = n then (Inl EAGAIN, f)
       else (Inr (Some (mark_overrun (mf_tail f < oldest) (md_ring g ! unat (mf_tail ctx AND 255)))), ctx))"
    using alive by (simp add: vpipe_meta_read_section_def Let_def eq oldest_def ctx_def mark_overrun_def)
  then show ?thesis by (simp add: entry ov Let_def flip: n_def t_def) (simp add: tail)
qed

section \<open>Readers of a bounded log\<close>

text \<open>
  A reader that waits for entries: \<open>collect rd n gs f\<close> takes up to \<open>n\<close> entries while it
  observes the channel states \<open>gs\<close> one after the other, waiting where there is none.
\<close>

fun collect :: "('g \<Rightarrow> 'f \<Rightarrow> ('e \<times> 'f) option) \<Rightarrow> nat \<Rightarrow> 'g list \<Rightarrow> 'f \<Rightarrow> 'e list \<times> 'f" where
  "collect rd 0 gs f = ([], f)"
| "collect rd (Suc n) [] f = ([], f)"
| "collect rd (Suc n) (g # gs) f =
     (case rd g f of None \<Rightarrow> collect rd (Suc n) gs f
      | Some (e, f') \<Rightarrow> (let (es, f'') = collect rd n gs f' in (e # es, f'')))"

text \<open>
  The entries of \<open>L\<close> at the positions \<open>is\<close>, each marked exactly when positions were skipped
  before it, and the predicate that the positions increase from \<open>p\<close> on.
\<close>

fun gap_stream :: "(bool \<Rightarrow> 'e \<Rightarrow> 'e) \<Rightarrow> 'e list \<Rightarrow> nat \<Rightarrow> nat list \<Rightarrow> 'e list" where
  "gap_stream mark L p [] = []"
| "gap_stream mark L p (i # is) = mark (p < i) (L ! i) # gap_stream mark L (Suc i) is"

fun ascending :: "nat \<Rightarrow> nat list \<Rightarrow> bool" where
  "ascending p [] = True"
| "ascending p (i # is) = (p \<le> i \<and> ascending (Suc i) is)"

lemma ascending_upt: "ascending p [p..<q]"
proof (induction "q - p" arbitrary: p)
  case (Suc k)
  then show ?case by (simp add: upt_rec)
qed simp

lemma gap_stream_upt: "q \<le> length L \<Longrightarrow> (\<And>e. mark False e = e) \<Longrightarrow>
    gap_stream mark L p [p..<q] = take (q - p) (drop p L)"
proof (induction "q - p" arbitrary: p)
  case (Suc k)
  then have "p < q" and "q - p = Suc (q - Suc p)" by simp_all
  with Suc show ?case by (simp add: upt_rec [of p] Cons_nth_drop_Suc [symmetric])
qed simp

locale log_channel =
  fixes publish :: "'e \<Rightarrow> 'g \<Rightarrow> 'g"
    and rd :: "'g \<Rightarrow> 'f \<Rightarrow> ('e \<times> 'f) option"
    and rep :: "'g \<Rightarrow> 'e list \<Rightarrow> bool"
    and stamp :: "'e \<Rightarrow> 'e"
    and mark :: "bool \<Rightarrow> 'e \<Rightarrow> 'e"
    and pos :: "'f \<Rightarrow> nat"
    and cap bound :: nat
  assumes publish_rep: "rep g L \<Longrightarrow> Suc (length L) < bound \<Longrightarrow> rep (publish e g) (L @ [stamp e])"
    and rd_empty: "rep g L \<Longrightarrow> pos f = length L \<Longrightarrow> rd g f = None"
    and rd_next: "rep g L \<Longrightarrow> pos f < length L \<Longrightarrow> i = max (pos f) (length L - cap) \<Longrightarrow>
      \<exists>f'. rd g f = Some (mark (pos f < i) (L ! i), f') \<and> pos f' = Suc i"
    and mark_False: "mark False e = e"
    and cap_pos: "0 < cap"
begin

lemma publish_list:
  "rep g L \<Longrightarrow> length L + length es < bound \<Longrightarrow> rep (fold publish es g) (L @ map stamp es)"
proof (induction es arbitrary: g L)
  case (Cons e es)
  from Cons.IH [OF publish_rep [of g L e]] Cons.prems show ?case by simp
qed simp

lemma collect_stream:
  "list_all2 (\<lambda>g k. k \<le> length L \<and> rep g (take k L)) gs ks \<Longrightarrow> sorted ks \<Longrightarrow> \<forall>k\<in>set ks. pos f \<le> k \<Longrightarrow>
   \<exists>is. ascending (pos f) is \<and> set is \<subseteq> {..<length L} \<and> length is \<le> n \<and>
     fst (collect rd n gs f) = gap_stream mark L (pos f) is"
proof (induction gs arbitrary: n f ks)
  case Nil
  then show ?case by (cases n) (auto intro: exI [of _ "[]"])
next
  case (Cons g gs)
  from Cons.prems obtain k ks' where ks: "ks = k # ks'" "k \<le> length L" "rep g (take k L)"
    and rest: "list_all2 (\<lambda>g k. k \<le> length L \<and> rep g (take k L)) gs ks'" "sorted ks'" "\<forall>j\<in>set ks'. k \<le> j"
    and le: "pos f \<le> k"
    by (cases ks) auto
  show ?case
  proof (cases n)
    case 0
    then show ?thesis by (auto intro: exI [of _ "[]"])
  next
    case (Suc m)
    show ?thesis
    proof (cases "pos f = k")
      case True
      then have "rd g f = None" using rd_empty ks by simp
      moreover have "\<forall>j\<in>set ks'. pos f \<le> j" using True rest by simp
      ultimately show ?thesis using Cons.IH [OF rest(1,2), of f n] Suc by simp
    next
      case False
      define i where "i = max (pos f) (k - cap)"
      have ik: "pos f \<le> i" "i < k" using False le cap_pos by (auto simp: i_def)
      obtain f' where rd: "rd g f = Some (mark (pos f < i) (L ! i), f')" and f': "pos f' = Suc i"
        using rd_next [OF ks(3), of f i] False le ks ik by (auto simp: i_def)
      have "\<forall>j\<in>set ks'. pos f' \<le> j" using rest f' ik by auto
      from Cons.IH [OF rest(1,2) this, of m] obtain "is" where asc: "ascending (Suc i) is"
        "set is \<subseteq> {..<length L}" "length is \<le> m" "fst (collect rd m gs f') = gap_stream mark L (Suc i) is"
        by (auto simp: f')
      then show ?thesis using rd ik ks Suc
        by (intro exI [of _ "i # is"]) (auto split: prod.splits)
    qed
  qed
qed

lemma collect_all:
  assumes "rep g L" "pos f \<le> length L" "length L \<le> pos f + cap"
  shows "fst (collect rd n (replicate n g) f) = take n (drop (pos f) L)"
  using assms
proof (induction n arbitrary: f)
  case (Suc n)
  show ?case
  proof (cases "pos f = length L")
    case True
    have "collect rd m (replicate j g) f = ([], f)" for m j
      using rd_empty [OF Suc.prems(1) True] by (induction j arbitrary: m) (case_tac [!] m, auto)
    from this [of "Suc n" "Suc n"] True show ?thesis by simp
  next
    case False
    then have lt: "pos f < length L" and i: "pos f = max (pos f) (length L - cap)" using Suc.prems by auto
    from rd_next [OF Suc.prems(1) lt i] obtain f' where
      "rd g f = Some (L ! pos f, f')" "pos f' = Suc (pos f)" by (auto simp: mark_False)
    with Suc.IH [of f'] Suc.prems lt show ?thesis
      by (simp add: split_beta Cons_nth_drop_Suc [symmetric])
  qed
qed simp

end

section \<open>The driver's ring as such a channel\<close>

text \<open>A successful blocking read of a full entry with a writable buffer.\<close>

definition meta_next :: "vpipe_meta_dev \<Rightarrow> vpipe_meta_file \<Rightarrow> (vpipe_meta_entry \<times> vpipe_meta_file) option" where
  "meta_next g f =
     (case vpipe_meta_read sizeof_meta_entry False False True g f of
        Some (Inr (Some e), f') \<Rightarrow> Some (e, f')
      | _ \<Rightarrow> None)"

lemma meta_next_next:
  assumes inv: "meta_inv g L" and alive: "\<not> md_dying g" and lt: "unat (mf_tail f) < length L"
    and i: "i = max (unat (mf_tail f)) (length L - 256)"
  shows "\<exists>f'. meta_next g f = Some (mark_overrun (unat (mf_tail f) < i) (L ! i), f') \<and>
    unat (mf_tail f') = Suc i"
proof -
  have len: "length L < 2 ^ 64" using inv by (simp add: meta_inv_def)
  have "i < length L" using lt i by auto
  then have "unat (of_nat i + 1 :: u64) = Suc i"
    using len unat_u64_of_nat [of "Suc i"] by (simp add: add.commute)
  moreover have "meta_readable g f"
    using lt meta_inv_head [OF inv] by (auto simp: meta_readable_def)
  moreover have "(unat (mf_tail f) < length L - 256) = (unat (mf_tail f) < i)" using i by auto
  ultimately show ?thesis
    using read_section_spec [OF inv alive, of f] lt i
    by (simp add: meta_next_def vpipe_meta_read_def vpipe_meta_read_finish_def Let_def)
qed

lemma meta_next_empty:
  assumes "meta_inv g L" "\<not> md_dying g" "unat (mf_tail f) = length L"
  shows "meta_next g f = None"
  using assms meta_inv_head [OF assms(1)]
  by (simp add: meta_next_def vpipe_meta_read_def meta_readable_def word_unat_eq_iff)

lemma publish_dying [simp]: "md_dying (vpipe_meta_publish e g) = md_dying g"
  by (simp add: vpipe_meta_publish_def Let_def)

lemma mark_overrun_False [simp]: "mark_overrun False e = e"
  by (simp add: mark_overrun_def)

interpretation meta: log_channel vpipe_meta_publish meta_next "\<lambda>g L. meta_inv g L \<and> \<not> md_dying g"
  normalize_entry mark_overrun "\<lambda>f. unat (mf_tail f)" 256 "2 ^ 64"
  by unfold_locales
    (use meta_inv_publish meta_next_empty meta_next_next in \<open>simp_all, blast\<close>)

text \<open>
  The loop of user/vpipe-meta-drain.c: \<open>frames\<close> blocking reads, one CSV row per entry; it
  stops at end of file and fails at the first error.  \<open>gs\<close> are the device states the
  process observes; running out of them leaves it waiting.
\<close>

datatype drain_exit = Drained | Drain_Waiting | Drain_Failed errno

fun meta_drain_loop ::
    "nat \<Rightarrow> vpipe_meta_dev list \<Rightarrow> vpipe_meta_file \<Rightarrow> vpipe_meta_entry list \<times> drain_exit" where
  "meta_drain_loop 0 gs f = ([], Drained)"
| "meta_drain_loop (Suc n) [] f = ([], Drain_Waiting)"
| "meta_drain_loop (Suc n) (g # gs) f =
     (case vpipe_meta_read sizeof_meta_entry False False True g f of
        None \<Rightarrow> meta_drain_loop (Suc n) gs f
      | Some (Inl err, _) \<Rightarrow> ([], Drain_Failed err)
      | Some (Inr None, _) \<Rightarrow> ([], Drained)
      | Some (Inr (Some e), f') \<Rightarrow> (let (es, x) = meta_drain_loop n gs f' in (e # es, x)))"

lemma meta_drain_collect:
  assumes "\<forall>g\<in>set gs. \<not> md_dying g"
  shows "fst (meta_drain_loop n gs f) = fst (collect meta_next n gs f) \<and>
    snd (meta_drain_loop n gs f) = (if length (fst (collect meta_next n gs f)) = n then Drained else Drain_Waiting)"
  using assms
  by (induction n gs f rule: meta_drain_loop.induct)
    (auto simp: meta_next_def vpipe_meta_read_def vpipe_meta_read_section_def meta_readable_def
      vpipe_meta_read_finish_def Let_def split_beta)

section \<open>Properties of publishing and reading\<close>

lemma g_meta_init_alive [simp]: "\<not> md_dying g_meta_init"
  by (simp add: g_meta_init_def)

lemma fold_publish_inv:
  "length es < 2 ^ 64 \<Longrightarrow> meta_inv (fold vpipe_meta_publish es g_meta_init) (map normalize_entry es) \<and>
     \<not> md_dying (fold vpipe_meta_publish es g_meta_init)"
  using meta.publish_list [of g_meta_init "[]" es] by (simp add: meta_inv_init)

lemma one_published:
  "meta_inv (vpipe_meta_publish e g_meta_init) [normalize_entry e]"
  "\<not> md_dying (vpipe_meta_publish e g_meta_init)"
  using fold_publish_inv [of "[e]"] by simp_all

text \<open>
  C8.  Publishing any list of fewer than \<open>2 ^ 64\<close> entries on the freshly loaded module
  leaves the ring holding the last 256 of them in order, each stamped with the current
  version and size, and \<open>VPIPE_META_IOC_GET_STATS\<close> then reports exactly how many were
  published and how many have been overwritten.
\<close>

theorem meta_publish_log:
  assumes "length es < 2 ^ 64"
  defines "g \<equiv> fold vpipe_meta_publish es g_meta_init"
  shows "meta_inv g (map normalize_entry es) \<and>
    vpipe_meta_ioctl VPIPE_META_IOC_GET_STATS True g =
      Inr (Meta_Stats \<lparr>ms_published = of_nat (length es), ms_dropped = of_nat (length es - 256),
        ms_reserved = [0, 0, 0, 0]\<rparr>)"
  using fold_publish_inv [of es] assms by (auto simp: vpipe_meta_ioctl_def meta_inv_def)

theorem meta_publish_log_witness:
  "vpipe_meta_ioctl VPIPE_META_IOC_GET_STATS True
      (fold vpipe_meta_publish (replicate 300 zero_meta_entry) g_meta_init) =
    Inr (Meta_Stats \<lparr>ms_published = 300, ms_dropped = 44, ms_reserved = [0, 0, 0, 0]\<rparr>)"
  using meta_publish_log [of "replicate 300 zero_meta_entry"] by simp

text \<open>
  C14.  Every branch of \<open>read\<close> against the log: a short buffer is \<open>EINVAL\<close>; a dying device
  is end of file; at the head a non-blocking read is \<open>EAGAIN\<close> and a blocking one waits, or
  ends with \<open>ERESTARTSYS\<close> on a signal; otherwise the reader gets the entry under its cursor,
  or the oldest live entry with the overrun flag when that one was overwritten, and the
  cursor moves past it only if the copy to user space succeeded.
\<close>

theorem meta_read_branches:
  assumes inv: "meta_inv g L" and le: "unat (mf_tail f) \<le> length L"
  shows "vpipe_meta_read count nonblock signalled copied g f =
    (let i = max (unat (mf_tail f)) (length L - 256) in
     if count < 120 then Some (Inl EINVAL, f)
     else if md_dying g then Some (Inr None, f)
     else if unat (mf_tail f) = length L then
       (if nonblock then Some (Inl EAGAIN, f)
        else if signalled then Some (Inl ERESTARTSYS, f) else None)
     else if copied
     then Some (Inr (Some (mark_overrun (unat (mf_tail f) < length L - 256) (L ! i))), \<lparr>mf_tail = of_nat (Suc i)\<rparr>)
     else Some (Inl EFAULT, \<lparr>mf_tail = of_nat i\<rparr>))"
proof -
  have "(md_head g = mf_tail f) = (unat (mf_tail f) = length L)"
    using meta_inv_head [OF inv] by (auto simp: word_unat_eq_iff)
  then show ?thesis
    using read_section_spec [OF inv _ le]
    by (cases "md_dying g")
      (auto simp: vpipe_meta_read_def meta_readable_def vpipe_meta_read_finish_def Let_def
        vpipe_meta_read_section_def [of g] add.commute)
qed

theorem meta_read_branches_witness:
  "vpipe_meta_read 120 False False True (vpipe_meta_publish zero_meta_entry g_meta_init) \<lparr>mf_tail = 0\<rparr> =
     Some (Inr (Some (normalize_entry zero_meta_entry)), \<lparr>mf_tail = 1\<rparr>)"
  using meta_read_branches [OF one_published(1) [of zero_meta_entry], of "\<lparr>mf_tail = 0\<rparr>" 120 False False True]
  by (simp add: one_published Let_def)

text \<open>
  C23.  What \<open>vpipe-meta-drain\<close> writes is never silently wrong: while the device goes through
  any sequence of states that publish the prefixes of a log \<open>L\<close>, the rows are entries of \<open>L\<close>
  at strictly increasing positions starting at or after the cursor (so none is repeated or
  reordered), and a row carries the overrun mark exactly where positions were skipped.
\<close>

theorem meta_drain_stream:
  assumes states: "list_all2 (\<lambda>g k. k \<le> length L \<and> meta_inv g (take k L) \<and> \<not> md_dying g) gs ks"
    and order: "sorted ks" "\<forall>k\<in>set ks. unat (mf_tail f) \<le> k"
  shows "\<exists>is. ascending (unat (mf_tail f)) is \<and> set is \<subseteq> {..<length L} \<and> length is \<le> n \<and>
    meta_drain_loop n gs f =
      (gap_stream mark_overrun L (unat (mf_tail f)) is, if length is = n then Drained else Drain_Waiting)"
proof -
  have alive: "\<forall>g\<in>set gs. \<not> md_dying g"
    using states by (auto simp: list_all2_conv_all_nth in_set_conv_nth)
  have len: "length (gap_stream mark_overrun L p is) = length is" for p "is"
    by (induction "is" arbitrary: p) simp_all
  from meta.collect_stream [OF states order, of n] meta_drain_collect [OF alive, of n f]
  show ?thesis by (auto simp: prod_eq_iff len)
qed

theorem meta_drain_stream_witness:
  "\<exists>is. ascending 0 is \<and> set is \<subseteq> {..<Suc 0} \<and> length is \<le> 1 \<and>
    meta_drain_loop 1 [vpipe_meta_publish zero_meta_entry g_meta_init] \<lparr>mf_tail = 0\<rparr> =
      (gap_stream mark_overrun [normalize_entry zero_meta_entry] 0 is,
       if length is = 1 then Drained else Drain_Waiting)"
  using meta_drain_stream [of "[normalize_entry zero_meta_entry]"
      "[vpipe_meta_publish zero_meta_entry g_meta_init]" "[1]" "\<lparr>mf_tail = 0\<rparr>" 1]
  by (simp add: one_published del: meta_drain_loop.simps One_nat_def split del: if_split)

text \<open>
  C24.  Nothing is lost for a reader that is at most 256 entries behind: whatever was
  published before, a file opened now, followed by at most 256 publications, lets
  \<open>vpipe-meta-drain\<close> write exactly those entries, in order and unmarked, and then finish.
\<close>

theorem meta_drain_complete:
  assumes "length old + length new < 2 ^ 64" and "length new \<le> 256"
  defines "g0 \<equiv> fold vpipe_meta_publish old g_meta_init"
  defines "g \<equiv> fold vpipe_meta_publish new g0"
  assumes "vpipe_meta_open True g0 = Inr f"
  shows "meta_drain_loop (length new) (replicate (length new) g) f = (map normalize_entry new, Drained)"
proof -
  let ?L = "map normalize_entry (old @ new)"
  have inv: "meta_inv g ?L \<and> \<not> md_dying g" and inv0: "meta_inv g0 (map normalize_entry old)"
    using fold_publish_inv [of "old @ new"] fold_publish_inv [of old] assms(1) by (simp_all add: g_def g0_def)
  have pos: "unat (mf_tail f) = length old"
    using assms(5) meta_inv_head [OF inv0] by (auto simp: vpipe_meta_open_def)
  have "fst (collect meta_next (length new) (replicate (length new) g) f) = map normalize_entry new"
    using meta.collect_all [OF inv, of f "length new"] assms(2) by (simp add: pos)
  then show ?thesis
    using meta_drain_collect [of "replicate (length new) g" "length new" f] inv
    by (auto simp: prod_eq_iff)
qed

theorem meta_drain_complete_witness:
  "meta_drain_loop 1 [vpipe_meta_publish zero_meta_entry g_meta_init] \<lparr>mf_tail = 0\<rparr> =
     ([normalize_entry zero_meta_entry], Drained)"
  using meta_drain_complete [of "[]" "[zero_meta_entry]" "\<lparr>mf_tail = 0\<rparr>"]
  by (simp add: vpipe_meta_open_def g_meta_init_def)

text \<open>
  \<open>poll\<close> tells the truth about \<open>read\<close>: it reports nothing exactly when a blocking read
  would wait, readable exactly when such a read delivers an entry, and hang-up exactly when
  it reports end of file.
\<close>

theorem meta_poll_read:
  "(vpipe_meta_poll g f = 0) = (vpipe_meta_read 120 False False True g f = None) \<and>
   (vpipe_meta_poll g f = 0x041) = (\<exists>e f'. vpipe_meta_read 120 False False True g f = Some (Inr (Some e), f')) \<and>
   (vpipe_meta_poll g f = EPOLLHUP) = (vpipe_meta_read 120 False False True g f = Some (Inr None, f))"
  by (auto simp: vpipe_meta_poll_def vpipe_meta_read_def meta_readable_def vpipe_meta_read_section_def
      vpipe_meta_read_finish_def Let_def)

end
