(* ===== verification/Source_Core.thy ===== *)
theory Source_Core
  imports Vpipe_Types
begin

text \<open>
  The source abstraction (kmod/vpipe-source.c and .h): a registry of backends and the
  generic entry points that dispatch to a backend's operation table.

  An operation table is a record of optional functions, \<open>None\<close> being a NULL pointer.  A
  source refers to its table by an address of type \<open>'o\<close>, which \<open>tbl\<close> dereferences, and owns
  its private data of type \<open>'p\<close>.  \<open>'w\<close> is the kernel memory the backends work on and \<open>'e\<close>
  what the kernel answers during a call (allocations, clock, module parameters).  A backend
  operation that returns \<open>None\<close> has faulted.
\<close>

section \<open>State and operations\<close>

record ('o, 'p) vpipe_source =
  s_backend_id :: u32
  s_ops :: "'o option"
  s_priv :: "'p option"
  s_seq :: u32
  s_name :: "string option"

type_synonym ('o, 'p, 'e, 'w) start_op =
  "'e \<Rightarrow> ('o, 'p) vpipe_source \<Rightarrow> vpipe_ctx option \<Rightarrow> 'w \<Rightarrow> (unit result \<times> ('o, 'p) vpipe_source \<times> 'w) option"
type_synonym ('o, 'p, 'w) stop_op = "('o, 'p) vpipe_source \<Rightarrow> 'w \<Rightarrow> (('o, 'p) vpipe_source \<times> 'w) option"
type_synonym ('o, 'p, 'e) reset_op = "'e \<Rightarrow> ('o, 'p) vpipe_source \<Rightarrow> unit result \<times> ('o, 'p) vpipe_source"
type_synonym ('o, 'p, 'w) next_frame_op =
  "('o, 'p) vpipe_source \<Rightarrow> vpipe_buffer \<Rightarrow> vpipe_frame_desc \<Rightarrow> 'w \<Rightarrow>
     (unit result \<times> ('o, 'p) vpipe_source \<times> vpipe_frame_desc \<times> 'w) option"
type_synonym ('o, 'p, 'e, 'w) export_op =
  "'e \<Rightarrow> ('o, 'p) vpipe_source \<Rightarrow> vpipe_buffer option \<Rightarrow> 'w \<Rightarrow> (int result \<times> 'w) option"

record ('o, 'p, 'e, 'w) vpipe_source_ops =
  op_start :: "('o, 'p, 'e, 'w) start_op option"
  op_stop :: "('o, 'p, 'w) stop_op option"
  op_reset :: "('o, 'p, 'e) reset_op option"
  op_next_frame :: "('o, 'p, 'w) next_frame_op option"
  op_export_dmabuf :: "('o, 'p, 'e, 'w) export_op option"

type_synonym ('o, 'p, 'e, 'w) ops_table = "'o \<Rightarrow> ('o, 'p, 'e, 'w) vpipe_source_ops"

text \<open>The registry: the two static arrays of length \<open>VPIPE_BACKEND_MAX\<close>.\<close>

record 'o registry =
  vpipe_backend_ops :: "'o option list"
  vpipe_backend_name :: "string option list"

definition registry_init :: "'o registry" where
  "registry_init = \<lparr>vpipe_backend_ops = replicate 4 None, vpipe_backend_name = replicate 4 None\<rparr>"

definition vpipe_backend_id_valid :: "u32 \<Rightarrow> bool" where
  "vpipe_backend_id_valid bid = (bid > VPIPE_BACKEND_NONE \<and> bid < VPIPE_BACKEND_MAX)"

definition vpipe_source_register ::
    "('o, 'p, 'e, 'w) ops_table \<Rightarrow> u32 \<Rightarrow> 'o option \<Rightarrow> string option \<Rightarrow> 'o registry \<Rightarrow> unit result \<times> 'o registry" where
  "vpipe_source_register tbl bid ops name r =
     (if ops = None \<or> op_next_frame (tbl (the ops)) = None then (Inl EINVAL, r)
      else if \<not> vpipe_backend_id_valid bid then (Inl EINVAL, r)
      else if vpipe_backend_ops r ! unat bid \<noteq> None then (Inl EBUSY, r)
      else (Inr (), r\<lparr>vpipe_backend_ops := (vpipe_backend_ops r)[unat bid := ops],
              vpipe_backend_name := (vpipe_backend_name r)
                [unat bid := Some (case name of Some n \<Rightarrow> n | None \<Rightarrow> ''unnamed'')]\<rparr>))"

text \<open>\<open>kz\<close>: whether \<open>kzalloc\<close> succeeds.  The new structure is returned by value.\<close>

definition vpipe_source_create :: "bool \<Rightarrow> u32 \<Rightarrow> 'o registry \<Rightarrow> ('o, 'p) vpipe_source result" where
  "vpipe_source_create kz bid r =
     (if \<not> vpipe_backend_id_valid bid then Inl EINVAL
      else if vpipe_backend_ops r ! unat bid = None then Inl ENODEV
      else if \<not> kz then Inl ENOMEM
      else Inr \<lparr>s_backend_id = bid, s_ops = vpipe_backend_ops r ! unat bid, s_priv = None, s_seq = 0,
                s_name = vpipe_backend_name r ! unat bid\<rparr>)"

text \<open>
  \<open>vpipe_source_destroy\<close>: the backend is stopped and the structure freed, so only the memory
  it leaves behind is returned.
\<close>

definition vpipe_source_destroy ::
    "('o, 'p, 'e, 'w) ops_table \<Rightarrow> ('o, 'p) vpipe_source option \<Rightarrow> 'w \<Rightarrow> 'w option" where
  "vpipe_source_destroy tbl src w =
     (case src of None \<Rightarrow> Some w
      | Some s \<Rightarrow>
         (case s_ops s of None \<Rightarrow> Some w
          | Some ops \<Rightarrow>
             (case op_stop (tbl ops) of None \<Rightarrow> Some w
              | Some stop \<Rightarrow> map_option snd (stop s w))))"

definition vpipe_source_start ::
    "('o, 'p, 'e, 'w) ops_table \<Rightarrow> 'e \<Rightarrow> ('o, 'p) vpipe_source option \<Rightarrow> vpipe_ctx option \<Rightarrow> 'w \<Rightarrow>
       (unit result \<times> ('o, 'p) vpipe_source option \<times> 'w) option" where
  "vpipe_source_start tbl env src ctx w =
     (case src of None \<Rightarrow> Some (Inl EINVAL, None, w)
      | Some s \<Rightarrow>
         (case s_ops s of None \<Rightarrow> Some (Inl EINVAL, Some s, w)
          | Some ops \<Rightarrow>
             (case op_start (tbl ops) of None \<Rightarrow> Some (Inr (), Some s, w)
              | Some start \<Rightarrow> do { (r, s', w') \<leftarrow> start env s ctx w; Some (r, Some s', w') })))"

definition vpipe_source_stop ::
    "('o, 'p, 'e, 'w) ops_table \<Rightarrow> ('o, 'p) vpipe_source option \<Rightarrow> 'w \<Rightarrow> (('o, 'p) vpipe_source option \<times> 'w) option" where
  "vpipe_source_stop tbl src w =
     (case src of None \<Rightarrow> Some (None, w)
      | Some s \<Rightarrow>
         (case s_ops s of None \<Rightarrow> Some (Some s, w)
          | Some ops \<Rightarrow>
             (case op_stop (tbl ops) of None \<Rightarrow> Some (Some s, w)
              | Some stop \<Rightarrow> do { (s', w') \<leftarrow> stop s w; Some (Some s', w') })))"

definition vpipe_source_reset ::
    "('o, 'p, 'e, 'w) ops_table \<Rightarrow> 'e \<Rightarrow> ('o, 'p) vpipe_source option \<Rightarrow> unit result \<times> ('o, 'p) vpipe_source option" where
  "vpipe_source_reset tbl env src =
     (case src of None \<Rightarrow> (Inl EINVAL, None)
      | Some s \<Rightarrow>
         (case s_ops s of None \<Rightarrow> (Inl EINVAL, Some s)
          | Some ops \<Rightarrow>
             (let s = s\<lparr>s_seq := 0\<rparr>
              in case op_reset (tbl ops) of None \<Rightarrow> (Inr (), Some s)
                 | Some reset \<Rightarrow> map_prod id Some (reset env s))))"

text \<open>\<open>now\<close>: what \<open>ktime_get_ns\<close> returns if the backend left the timestamp zero.\<close>

definition vpipe_source_next_frame ::
    "('o, 'p, 'e, 'w) ops_table \<Rightarrow> u64 \<Rightarrow> ('o, 'p) vpipe_source option \<Rightarrow> vpipe_buffer option \<Rightarrow> vpipe_frame_desc option \<Rightarrow> 'w \<Rightarrow>
       (unit result \<times> ('o, 'p) vpipe_source option \<times> vpipe_frame_desc option \<times> 'w) option" where
  "vpipe_source_next_frame tbl now src buf desc w =
     (case (src, buf, desc) of
        (Some s, Some b, Some d) \<Rightarrow>
          (case Option.bind (s_ops s) (\<lambda>ops. op_next_frame (tbl ops)) of
             None \<Rightarrow> Some (Inl EINVAL, src, desc, w)
           | Some next_frame \<Rightarrow> do {
               let d = zero_frame_desc\<lparr>fd_width := fd_width d, fd_height := fd_height d, fd_stride := fd_stride d\<rparr>;
               (ret, s, d, w) \<leftarrow> next_frame s b d w;
               Some (case ret of
                 Inl e \<Rightarrow> (Inl e, Some s, Some d, w)
               | Inr _ \<Rightarrow>
                  (let d = (if fd_source_timestamp_ns d = 0 then d\<lparr>fd_source_timestamp_ns := now\<rparr> else d);
                       d = d\<lparr>fd_backend_id := s_backend_id s, fd_sequence := s_seq s\<rparr>
                   in (Inr (), Some (s\<lparr>s_seq := s_seq s + 1\<rparr>), Some d, w))) })
      | _ \<Rightarrow> Some (Inl EINVAL, src, desc, w))"

definition vpipe_source_export_dmabuf ::
    "('o, 'p, 'e, 'w) ops_table \<Rightarrow> 'e \<Rightarrow> ('o, 'p) vpipe_source option \<Rightarrow> vpipe_buffer option \<Rightarrow> 'w \<Rightarrow> (int result \<times> 'w) option" where
  "vpipe_source_export_dmabuf tbl env src buf w =
     (case src of None \<Rightarrow> Some (Inl EINVAL, w)
      | Some s \<Rightarrow>
         (case s_ops s of None \<Rightarrow> Some (Inl EINVAL, w)
          | Some ops \<Rightarrow>
             (case op_export_dmabuf (tbl ops) of None \<Rightarrow> Some (Inl EOPNOTSUPP, w)
              | Some export \<Rightarrow> export env s buf w)))"

section \<open>What a backend promises and what the core makes of it\<close>

text \<open>
  A run of frame requests (clock, buffer, descriptor with geometry hints) against one
  source, with the outcome of each.  As in the queueing code, an error does not end the run.
\<close>

fun pull_frames ::
    "('o, 'p, 'e, 'w) ops_table \<Rightarrow> (u64 \<times> vpipe_buffer \<times> vpipe_frame_desc) list \<Rightarrow> ('o, 'p) vpipe_source \<Rightarrow> 'w \<Rightarrow>
       ((unit result \<times> vpipe_frame_desc) list \<times> ('o, 'p) vpipe_source \<times> 'w) option" where
  "pull_frames tbl [] s w = Some ([], s, w)"
| "pull_frames tbl ((now, b, d) # reqs) s w =
     (case vpipe_source_next_frame tbl now (Some s) (Some b) (Some d) w of
        Some (r, Some s', Some d', w') \<Rightarrow>
          do { (rest, s'', w'') \<leftarrow> pull_frames tbl reqs s' w'; Some ((r, d') # rest, s'', w'') }
      | _ \<Rightarrow> None)"

definition same_geometry :: "vpipe_frame_desc \<Rightarrow> vpipe_frame_desc \<Rightarrow> bool" where
  "same_geometry d d' \<longleftrightarrow> fd_width d = fd_width d' \<and> fd_height d = fd_height d' \<and> fd_stride d = fd_stride d'"

text \<open>
  The contract of a backend's \<open>next_frame\<close>: on a ready source and a buffer that fits it
  succeeds without a fault, leaves the core's fields of the source and the geometry hints
  alone, and keeps source and memory fit for further requests.
\<close>

locale frame_producer =
  fixes next_frame :: "('o, 'p, 'w) next_frame_op"
    and ready :: "('o, 'p) vpipe_source \<Rightarrow> 'w \<Rightarrow> bool"
    and fits :: "('o, 'p) vpipe_source \<Rightarrow> vpipe_buffer \<Rightarrow> vpipe_frame_desc \<Rightarrow> 'w \<Rightarrow> bool"
  assumes produces: "ready s w \<Longrightarrow> fits s b d w \<Longrightarrow>
      \<exists>s' d' w'. next_frame s b d w = Some (Inr (), s', d', w') \<and>
        s_backend_id s' = s_backend_id s \<and> s_seq s' = s_seq s \<and> s_ops s' = s_ops s \<and>
        same_geometry d' d \<and> ready s' w' \<and> (\<forall>b d. fits s b d w \<longrightarrow> fits s' b d w')"
    and ready_seq: "ready (s\<lparr>s_seq := n\<rparr>) w = ready s w"
    and fits_seq: "fits (s\<lparr>s_seq := n\<rparr>) b d w = fits s b d w"
    and fits_geometry: "same_geometry d d' \<Longrightarrow> fits s b d w = fits s b d' w"
begin

lemma next_frame_stamps:
  assumes "s_ops s = Some ops" "op_next_frame (tbl ops) = Some next_frame" "ready s w" "fits s b d w"
  shows "\<exists>s' d' w'. vpipe_source_next_frame tbl now (Some s) (Some b) (Some d) w =
      Some (Inr (), Some s', Some d', w') \<and>
    fd_sequence d' = s_seq s \<and> fd_backend_id d' = s_backend_id s \<and> same_geometry d' d \<and>
    s_seq s' = s_seq s + 1 \<and> s_backend_id s' = s_backend_id s \<and> s_ops s' = Some ops \<and>
    ready s' w' \<and> (\<forall>b d. fits s b d w \<longrightarrow> fits s' b d w')"
proof -
  let ?d = "zero_frame_desc\<lparr>fd_width := fd_width d, fd_height := fd_height d, fd_stride := fd_stride d\<rparr>"
  have g: "same_geometry d ?d" by (simp add: same_geometry_def)
  then have "fits s b ?d w" using assms(4) fits_geometry by blast
  from produces [OF assms(3) this] obtain s' d' w' where
    "next_frame s b ?d w = Some (Inr (), s', d', w')" "s_backend_id s' = s_backend_id s" "s_seq s' = s_seq s"
    "s_ops s' = s_ops s" "same_geometry d' ?d" "ready s' w'" "\<forall>b d. fits s b d w \<longrightarrow> fits s' b d w'"
    by blast
  then show ?thesis using assms(1,2) g
    by (auto simp: vpipe_source_next_frame_def Let_def ready_seq fits_seq same_geometry_def)
qed

lemma pull_frames_stamps:
  assumes "s_ops s = Some ops" "op_next_frame (tbl ops) = Some next_frame" "ready s w"
    "\<forall>(now, b, d)\<in>set reqs. fits s b d w"
  shows "\<exists>out s' w'. pull_frames tbl reqs s w = Some (out, s', w') \<and> length out = length reqs \<and>
    s_seq s' = s_seq s + of_nat (length reqs) \<and> ready s' w' \<and>
    (\<forall>i<length reqs. fst (out ! i) = Inr () \<and> fd_sequence (snd (out ! i)) = s_seq s + of_nat i \<and>
      fd_backend_id (snd (out ! i)) = s_backend_id s \<and> same_geometry (snd (out ! i)) (snd (snd (reqs ! i))))"
  using assms
proof (induction reqs arbitrary: s w)
  case (Cons q reqs)
  obtain now b d where q: "q = (now, b, d)" by (cases q)
  then have "fits s b d w" using Cons.prems by simp
  from next_frame_stamps [of s ops tbl w b d now, OF Cons.prems(1-3) this] obtain s1 d1 w1 where
    step: "vpipe_source_next_frame tbl now (Some s) (Some b) (Some d) w = Some (Inr (), Some s1, Some d1, w1)"
    and st: "fd_sequence d1 = s_seq s" "fd_backend_id d1 = s_backend_id s" "same_geometry d1 d"
      "s_seq s1 = s_seq s + 1" "s_backend_id s1 = s_backend_id s"
    and nxt: "s_ops s1 = Some ops" "ready s1 w1" "\<forall>b d. fits s b d w \<longrightarrow> fits s1 b d w1"
    by blast
  have "\<forall>(now, b, d)\<in>set reqs. fits s1 b d w1" using Cons.prems(4) nxt(3) by auto
  from Cons.IH [OF nxt(1) Cons.prems(2) nxt(2) this] obtain out s' w' where
    "pull_frames tbl reqs s1 w1 = Some (out, s', w')" "length out = length reqs"
    "s_seq s' = s_seq s1 + of_nat (length reqs)" "ready s' w'"
    "\<forall>i<length reqs. fst (out ! i) = Inr () \<and> fd_sequence (snd (out ! i)) = s_seq s1 + of_nat i \<and>
      fd_backend_id (snd (out ! i)) = s_backend_id s1 \<and> same_geometry (snd (out ! i)) (snd (snd (reqs ! i)))"
    by blast
  then show ?case using step st q
    by (auto simp: nth_Cons' less_Suc_eq_0_disj add.assoc split: if_splits)
qed simp

end

text \<open>A failed request does not consume a sequence number, whatever the backend does.\<close>

lemma next_frame_error_keeps_seq:
  assumes "vpipe_source_next_frame tbl now (Some s) b d w = Some (Inl e, s', d', w')"
    and "\<And>ops nf b d e s1 d1 w1. s_ops s = Some ops \<Longrightarrow> op_next_frame (tbl ops) = Some nf \<Longrightarrow>
      nf s b d w = Some (Inl e, s1, d1, w1) \<Longrightarrow> s_seq s1 = s_seq s"
  shows "map_option s_seq s' = Some (s_seq s)"
  using assms
  by (auto simp: vpipe_source_next_frame_def Let_def split: option.splits sum.splits bind_splits prod.splits)

end
