(* ===== verification/Gradient.thy ===== *)
theory Gradient
  imports Vpipe_Types
begin

text \<open>
  The test picture that the in-kernel producers draw and the user-space tools draw and
  verify: pixel \<open>(x, y)\<close> of a frame with offset \<open>k\<close> is the low byte of \<open>x + y + k\<close>.  The
  routines themselves are in the theories of their files; here are the pixel, the loop that
  all of them share, and how to recognise the picture from its first byte.
\<close>

unbundle bit_operations_syntax

text \<open>The expression \<open>(u8) ((x + y + offset) & 0xFF)\<close> in 32-bit arithmetic.\<close>

definition gradient_byte :: "u32 \<Rightarrow> u32 \<Rightarrow> u32 \<Rightarrow> u8" where
  "gradient_byte x y offset = ucast ((x + y + offset) AND 0xFF)"

lemma ucast_and_mask8: "(ucast (v AND 255 :: u32) :: u8) = ucast v"
proof -
  have "v AND 255 = take_bit 8 v" by (simp add: take_bit_eq_mask mask_eq_exp_minus_1)
  then show ?thesis
    by (simp add: word_unat_eq_iff unsigned_ucast_eq unsigned_take_bit_eq)
qed

lemma ucast_add_u8: "(ucast (v + w :: u32) :: u8) = ucast v + ucast w"
proof -
  have cancel: "x mod 4294967296 mod 256 = x mod (256::int)" for x by (simp add: mod_mod_cancel)
  have "(a + b) mod 4294967296 mod 256 = (a mod 4294967296 + b mod 4294967296) mod (256::int)" for a b
    by (metis cancel mod_add_eq)
  then show ?thesis by transfer (simp add: take_bit_eq_mod)
qed

lemma ucast_of_nat_u8: "(ucast (of_nat n :: u32) :: u8) = of_nat n"
  by transfer (simp add: take_bit_eq_mod mod_mod_cancel)

lemma gradient_byte_u8: "gradient_byte (of_nat x) (of_nat y) off = ucast off + of_nat (x + y)"
  by (simp add: gradient_byte_def ucast_and_mask8 ucast_add_u8 ucast_of_nat_u8 algebra_simps)

text \<open>The picture with base byte \<open>k\<close>.\<close>

definition gradient :: "u8 \<Rightarrow> nat \<Rightarrow> nat \<Rightarrow> u8" where
  "gradient k x y = k + of_nat (x + y)"

text \<open>A nested loop that stores \<open>f x y\<close> at \<open>row[x]\<close> draws \<open>f\<close>.\<close>

lemma fill_row:
  fixes m :: mem
  assumes "m b = Some D" "y * st + w \<le> length D" "w \<le> st"
  shows "foreach (\<lambda>x m. store m (b, int (y * st) + int x) (f x y)) [0..<w] m
    = Some (m(b \<mapsto> draw 0 y w (Suc y) st f D))"
proof -
  let ?I = "\<lambda>k t. t = m(b \<mapsto> draw 0 y k (Suc y) st f D)"
  have "\<exists>s. foreach (\<lambda>x m. store m (b, int (y * st) + int x) (f x y)) [0..<w] m = Some s \<and> ?I w s"
  proof (rule foreach_upt [where I = ?I])
    fix k t assume k: "k < w" and t: "?I k t"
    have "store t (b, int (y * st + k)) (f k y) = Some (t(b \<mapsto> (draw 0 y k (Suc y) st f D)[y * st + k := f k y]))"
      using t k assms by (intro store_Some) auto
    moreover have "(draw 0 y k (Suc y) st f D)[y * st + k := f k y] = draw 0 y (Suc k) (Suc y) st f D"
      using k assms by (intro draw_step_x) auto
    ultimately show "\<exists>t'. store t (b, int (y * st) + int k) (f k y) = Some t' \<and> ?I (Suc k) t'"
      using t by simp
  qed (use assms in auto)
  then show ?thesis by blast
qed

lemma fill_rows:
  fixes m :: mem
  assumes D: "m b = Some D" "h * st \<le> length D" and w: "w \<le> st"
    and off: "\<And>y. y < h \<Longrightarrow> off y = int (y * st)"
  shows "foreach (\<lambda>y. foreach (\<lambda>x m. store m (b, off y + int x) (f x y)) [0..<w]) [0..<h] m
    = Some (m(b \<mapsto> draw 0 0 w h st f D))"
proof -
  let ?I = "\<lambda>k t. t = m(b \<mapsto> draw 0 0 w k st f D)"
  have "\<exists>s. foreach (\<lambda>y. foreach (\<lambda>x m. store m (b, off y + int x) (f x y)) [0..<w]) [0..<h] m = Some s \<and> ?I h s"
  proof (rule foreach_upt [where I = ?I])
    fix k t assume k: "k < h" and t: "?I k t"
    have "foreach (\<lambda>x m. store m (b, int (k * st) + int x) (f x k)) [0..<w] t =
        Some (t(b \<mapsto> draw 0 k w (Suc k) st f (draw 0 0 w k st f D)))"
      using t k w D index_row_end [of k h w st] by (intro fill_row) auto
    then show "\<exists>t'. foreach (\<lambda>x m. store m (b, off k + int x) (f x k)) [0..<w] t = Some t' \<and> ?I (Suc k) t'"
      using t off [OF k] draw_step_y [of 0 k 0 w st f D] by simp
  qed (use D in auto)
  then show ?thesis by blast
qed

end
