(* ===== verification/Backend_State.thy ===== *)
theory Backend_State
  imports Source_Core Gradient
begin

text \<open>
  What the three source backends share: their private structures, the kernel memory they
  work on, and the answers they get from the kernel.  \<open>void *priv\<close> is a sum of the private
  structures, the address of an operation table is the name of the table.
\<close>

text \<open>\<open>struct vpipe_synthetic_priv\<close> (kmod/vpipe-synthetic.c).\<close>

record vpipe_synthetic_priv =
  sy_pattern_offset :: u32
  sy_frames_produced :: u32
  sy_drop_every_n :: u32

text \<open>
  \<open>struct vcam_fb\<close> and \<open>struct vpipe_vcam_priv\<close> (kmod/vpipe-vcam.c).  The framebuffer is
  reference counted and shared with the exported DMA-BUFs, so it lives in the heap below
  and is referred to by address; \<open>fb_vaddr\<close> is the block of its pixels.
\<close>

record vcam_fb =
  fb_refcount :: nat
  fb_vaddr :: nat
  fb_size :: u64

record vpipe_vcam_priv =
  vc_fb :: "nat option"
  vc_pattern_offset :: u32
  vc_frames_produced :: u32
  vc_drop_every_n :: u32
  vc_base_ts_ns :: u64
  vc_frame_interval_ns :: u64

datatype source_priv = Synthetic_Priv vpipe_synthetic_priv | Vcam_Priv vpipe_vcam_priv

datatype backend_ops = Fixture_Ops | Synthetic_Ops | Vcam_Ops

type_synonym source = "(backend_ops, source_priv) vpipe_source"

text \<open>
  The memory: byte blocks, framebuffers by address, and the live DMA-BUF objects with the
  framebuffer each refers to.
\<close>

record kworld =
  kw_mem :: mem
  kw_fbs :: "nat \<rightharpoonup> vcam_fb"
  kw_dmabufs :: "nat \<rightharpoonup> nat"

text \<open>
  The kernel's answers during one call: whether \<open>kzalloc\<close> of the private structure
  succeeds, the address of a new framebuffer structure and of its pixels, the clock, the
  results of \<open>dma_buf_export\<close> and \<open>dma_buf_fd\<close>, and the module parameters.
\<close>

record kenv =
  ke_priv :: bool
  ke_fb :: "nat option"
  ke_vmalloc :: "nat option"
  ke_now :: u64
  ke_export :: "nat result"
  ke_fd :: "int result"
  ke_synthetic_drop_every :: u32
  ke_vcam_fps :: u32
  ke_vcam_drop_every :: u32

type_synonym backend_table = "(backend_ops, source_priv, kenv, kworld) ops_table"

text \<open>A frame of geometry \<open>d\<close> lies inside the block of plane 0 of \<open>b\<close>.\<close>

definition plane_fits :: "vpipe_buffer \<Rightarrow> vpipe_frame_desc \<Rightarrow> mem \<Rightarrow> bool" where
  "plane_fits b d m \<longleftrightarrow>
     0 < unat (fd_width d) \<and> 0 < unat (fd_height d) \<and> unat (fd_width d) \<le> unat (fd_stride d) \<and>
     unat (fd_height d) * unat (fd_stride d) < 2 ^ 32 \<and>
     (\<exists>blk xs. vb_vaddr b = Some (blk, 0) \<and> m blk = Some xs \<and>
        unat (fd_height d) * unat (fd_stride d) \<le> length xs)"

lemma plane_fits_update:
  assumes "plane_fits b d m" "m blk = Some xs" "length ys = length xs"
  shows "plane_fits b d (m(blk \<mapsto> ys))"
  using assms by (auto simp: plane_fits_def)

text \<open>The drop rule of both producers: with period \<open>p\<close>, counter value \<open>n\<close> is dropped.\<close>

definition dropped :: "nat \<Rightarrow> nat \<Rightarrow> bool" where
  "dropped p n = (p \<noteq> 0 \<and> n mod p = 0)"

lemma dropped_word: "(p \<noteq> 0 \<and> n mod p = (0 :: u32)) = dropped (unat p) (unat n)"
  by (simp add: dropped_def unat_eq_0 flip: unat_mod)

end
