(* ===== verification/Synthetic_Source.thy ===== *)
theory Synthetic_Source
  imports Backend_State
begin

text \<open>
  The synthetic backend (kmod/vpipe-synthetic.c): a deterministic gradient written straight
  into the queued buffer, with an optional drop of every N-th frame.
\<close>

unbundle bit_operations_syntax

section \<open>Operations\<close>

definition synthetic_fill_gradient :: "ptr \<Rightarrow> u32 \<Rightarrow> u32 \<Rightarrow> u32 \<Rightarrow> u32 \<Rightarrow> mem \<Rightarrow> mem option" where
  "synthetic_fill_gradient dst width height stride offset m =
     foreach (\<lambda>y. let row = ptr_add dst (uint (of_nat y * stride))
                  in foreach (\<lambda>x m. store m (ptr_add row (int x)) (gradient_byte (of_nat x) (of_nat y) offset))
                       [0..<unat width])
       [0..<unat height] m"

definition synthetic_start :: "(backend_ops, source_priv, kenv, kworld) start_op" where
  "synthetic_start env src ctx w =
     (if \<not> ke_priv env then Some (Inl ENOMEM, src, w)
      else Some (Inr (), src\<lparr>s_priv := Some (Synthetic_Priv
        \<lparr>sy_pattern_offset = 0, sy_frames_produced = 0, sy_drop_every_n = ke_synthetic_drop_every env\<rparr>)\<rparr>, w))"

definition synthetic_stop :: "(backend_ops, source_priv, kworld) stop_op" where
  "synthetic_stop src w = Some (src\<lparr>s_priv := None\<rparr>, w)"

definition synthetic_reset :: "(backend_ops, source_priv, kenv) reset_op" where
  "synthetic_reset env src =
     (case s_priv src of
        Some (Synthetic_Priv p) \<Rightarrow>
          (Inr (), src\<lparr>s_priv := Some (Synthetic_Priv (p\<lparr>sy_pattern_offset := 0, sy_frames_produced := 0\<rparr>))\<rparr>)
      | _ \<Rightarrow> (Inr (), src))"

text \<open>A private structure of another backend would be read as garbage: a fault.\<close>

definition synthetic_next_frame :: "(backend_ops, source_priv, kworld) next_frame_op" where
  "synthetic_next_frame src buf desc w =
     (case s_priv src of
        None \<Rightarrow> Some (Inl EINVAL, src, desc, w)
      | Some (Vcam_Priv _) \<Rightarrow> None
      | Some (Synthetic_Priv p) \<Rightarrow>
         if fd_width desc = 0 \<or> fd_height desc = 0 \<or> fd_stride desc = 0 then Some (Inl EINVAL, src, desc, w)
         else case vb_vaddr buf of
           None \<Rightarrow> Some (Inl EFAULT, src, desc, w)
         | Some vaddr \<Rightarrow>
            (let p = p\<lparr>sy_frames_produced := sy_frames_produced p + 1\<rparr>
             in if sy_drop_every_n p \<noteq> 0 \<and> sy_frames_produced p mod sy_drop_every_n p = 0
                then Some (Inr (), src\<lparr>s_priv := Some (Synthetic_Priv p)\<rparr>,
                       desc\<lparr>fd_flags := fd_flags desc OR VPIPE_FRAME_FLAG_DROPPED\<rparr>, w)
                else do {
                  m \<leftarrow> synthetic_fill_gradient vaddr (fd_width desc) (fd_height desc) (fd_stride desc)
                         (sy_pattern_offset p) (kw_mem w);
                  Some (Inr (), src\<lparr>s_priv := Some (Synthetic_Priv (p\<lparr>sy_pattern_offset := sy_pattern_offset p + 1\<rparr>))\<rparr>,
                    desc, w\<lparr>kw_mem := m\<rparr>) }))"

definition synthetic_ops :: "(backend_ops, source_priv, kenv, kworld) vpipe_source_ops" where
  "synthetic_ops = \<lparr>op_start = Some synthetic_start, op_stop = Some synthetic_stop,
     op_reset = Some synthetic_reset, op_next_frame = Some synthetic_next_frame,
     op_export_dmabuf = None\<rparr>"

definition vpipe_source_synthetic_register ::
    "backend_table \<Rightarrow> backend_ops registry \<Rightarrow> unit result \<times> backend_ops registry" where
  "vpipe_source_synthetic_register tbl r =
     vpipe_source_register tbl VPIPE_BACKEND_SYNTHETIC (Some Synthetic_Ops) (Some ''synthetic'') r"

section \<open>The picture and the drop schedule\<close>

lemma synthetic_fill_gradient_draw:
  assumes "m b = Some D" "unat height * unat stride \<le> length D" "unat width \<le> unat stride" "0 < unat stride"
    "unat height * unat stride < 2 ^ 32"
  shows "synthetic_fill_gradient (b, 0) width height stride off m =
    Some (m(b \<mapsto> draw 0 0 (unat width) (unat height) (unat stride) (gradient (ucast off)) D))"
proof -
  have "gradient_byte (of_nat x) (of_nat y) off = gradient (ucast off) x y" for x y
    by (simp add: gradient_def gradient_byte_u8)
  then show ?thesis
    using fill_rows [of m b D "unat height" "unat stride" "unat width" "\<lambda>y. uint (of_nat y * stride)"
        "gradient (ucast off)"] assms
    by (simp add: synthetic_fill_gradient_def uint_row_offset [of _ "unat height"])
qed

lemma synthetic_next_frame_ok:
  assumes p: "s_priv src = Some (Synthetic_Priv p)" and fit: "plane_fits buf desc (kw_mem w)"
    and v: "vb_vaddr buf = Some (blk, 0)" "kw_mem w blk = Some xs"
  defines "p' \<equiv> p\<lparr>sy_frames_produced := sy_frames_produced p + 1\<rparr>"
  shows "synthetic_next_frame src buf desc w =
    (if dropped (unat (sy_drop_every_n p)) (unat (sy_frames_produced p + 1))
     then Some (Inr (), src\<lparr>s_priv := Some (Synthetic_Priv p')\<rparr>,
            desc\<lparr>fd_flags := fd_flags desc OR VPIPE_FRAME_FLAG_DROPPED\<rparr>, w)
     else Some (Inr (), src\<lparr>s_priv := Some (Synthetic_Priv (p'\<lparr>sy_pattern_offset := sy_pattern_offset p + 1\<rparr>))\<rparr>,
            desc, w\<lparr>kw_mem := (kw_mem w)(blk \<mapsto>
              draw 0 0 (unat (fd_width desc)) (unat (fd_height desc)) (unat (fd_stride desc))
                (gradient (ucast (sy_pattern_offset p))) xs)\<rparr>))"
proof -
  have nz: "fd_width desc \<noteq> 0" "fd_height desc \<noteq> 0" "fd_stride desc \<noteq> 0"
    using fit by (auto simp: plane_fits_def)
  have "(sy_drop_every_n p \<noteq> 0 \<and> (sy_frames_produced p + 1) mod sy_drop_every_n p = 0) =
      dropped (unat (sy_drop_every_n p)) (unat (sy_frames_produced p + 1))"
    by (simp add: dropped_def unat_eq_0 flip: unat_mod)
  moreover have "synthetic_fill_gradient (blk, 0) (fd_width desc) (fd_height desc) (fd_stride desc)
      (sy_pattern_offset p) (kw_mem w) =
    Some ((kw_mem w)(blk \<mapsto> draw 0 0 (unat (fd_width desc)) (unat (fd_height desc)) (unat (fd_stride desc))
      (gradient (ucast (sy_pattern_offset p))) xs))"
    using fit v by (intro synthetic_fill_gradient_draw) (auto simp: plane_fits_def)
  ultimately show ?thesis
    using p v nz by (simp add: synthetic_next_frame_def Let_def p'_def)
qed

interpretation synthetic: frame_producer synthetic_next_frame
  "\<lambda>s w. \<exists>p. s_priv s = Some (Synthetic_Priv p)" "\<lambda>s b d w. plane_fits b d (kw_mem w)"
proof unfold_locales
  fix s :: source and w :: kworld and b d
  assume "\<exists>p. s_priv s = Some (Synthetic_Priv p)" and fit: "plane_fits b d (kw_mem w)"
  then obtain p where p: "s_priv s = Some (Synthetic_Priv p)" by blast
  from fit obtain blk xs where v: "vb_vaddr b = Some (blk, 0)" "kw_mem w blk = Some xs"
    by (auto simp: plane_fits_def)
  show "\<exists>s' d' w'. synthetic_next_frame s b d w = Some (Inr (), s', d', w') \<and>
      s_backend_id s' = s_backend_id s \<and> s_seq s' = s_seq s \<and> s_ops s' = s_ops s \<and> same_geometry d' d \<and>
      (\<exists>p. s_priv s' = Some (Synthetic_Priv p)) \<and>
      (\<forall>b d. plane_fits b d (kw_mem w) \<longrightarrow> plane_fits b d (kw_mem w'))"
    using synthetic_next_frame_ok [OF p fit v] plane_fits_update [of _ _ "kw_mem w" blk xs] v
    by (simp add: same_geometry_def)
qed (simp_all add: plane_fits_def same_geometry_def)

text \<open>Frames drawn among the first \<open>n\<close> requests, for drop period \<open>p\<close>.\<close>

definition drawn :: "nat \<Rightarrow> nat \<Rightarrow> nat" where
  "drawn p n = n - n div p"

lemma drawn_Suc: "drawn p (Suc n) = (if dropped p (Suc n) then drawn p n else Suc (drawn p n))"
proof -
  have "n div p \<le> n" by simp
  then show ?thesis by (auto simp: drawn_def dropped_def div_Suc Suc_diff_le)
qed

definition synthetic_at :: "u32 \<Rightarrow> nat \<Rightarrow> vpipe_synthetic_priv" where
  "synthetic_at period n = \<lparr>sy_pattern_offset = of_nat (drawn (unat period) n), sy_frames_produced = of_nat n,
     sy_drop_every_n = period\<rparr>"

lemma synthetic_start_at: "ke_priv env \<Longrightarrow> synthetic_start env s ctx w =
    Some (Inr (), s\<lparr>s_priv := Some (Synthetic_Priv (synthetic_at (ke_synthetic_drop_every env) 0))\<rparr>, w)"
  by (simp add: synthetic_start_def synthetic_at_def drawn_def)

lemma synthetic_step:
  assumes "s_ops s = Some ops" "op_next_frame (tbl ops) = Some synthetic_next_frame"
    and p: "s_priv s = Some (Synthetic_Priv (synthetic_at period n))" and n: "Suc n < 2 ^ 32"
    and fit: "plane_fits b d (kw_mem w)" and v: "vb_vaddr b = Some (blk, 0)" "kw_mem w blk = Some xs"
  defines "dr \<equiv> dropped (unat period) (Suc n)"
  shows "\<exists>s' d' w'. vpipe_source_next_frame tbl now (Some s) (Some b) (Some d) w = Some (Inr (), Some s', Some d', w')
    \<and> s_ops s' = Some ops \<and> s_priv s' = Some (Synthetic_Priv (synthetic_at period (Suc n)))
    \<and> fd_flags d' = (if dr then VPIPE_FRAME_FLAG_DROPPED else 0)
    \<and> w' = (if dr then w else w\<lparr>kw_mem := (kw_mem w)(blk \<mapsto>
        draw 0 0 (unat (fd_width d)) (unat (fd_height d)) (unat (fd_stride d))
          (gradient (of_nat (drawn (unat period) n))) xs)\<rparr>)"
proof -
  let ?d = "zero_frame_desc\<lparr>fd_width := fd_width d, fd_height := fd_height d, fd_stride := fd_stride d\<rparr>"
  have fit': "plane_fits b ?d (kw_mem w)" using fit by (simp add: plane_fits_def)
  have "unat (sy_frames_produced (synthetic_at period n) + 1) = Suc n"
    using n unat_u32_of_nat [of "Suc n"] by (simp add: synthetic_at_def add.commute)
  then have nf: "synthetic_next_frame s b ?d w =
      Some (Inr (), s\<lparr>s_priv := Some (Synthetic_Priv (synthetic_at period (Suc n)))\<rparr>,
        (if dr then ?d\<lparr>fd_flags := VPIPE_FRAME_FLAG_DROPPED\<rparr> else ?d),
        if dr then w else w\<lparr>kw_mem := (kw_mem w)(blk \<mapsto>
          draw 0 0 (unat (fd_width d)) (unat (fd_height d)) (unat (fd_stride d))
            (gradient (of_nat (drawn (unat period) n))) xs)\<rparr>)"
    using synthetic_next_frame_ok [OF p fit' v]
    by (auto simp: dr_def synthetic_at_def drawn_Suc ucast_of_nat_u8)
  show ?thesis using assms(1,2)
    by (auto simp: vpipe_source_next_frame_def Let_def nf)
qed

text \<open>The block of plane 0 of a buffer, and a run of requests into distinct blocks.\<close>

definition plane_block :: "vpipe_buffer \<Rightarrow> nat" where
  "plane_block b = fst (the (vb_vaddr b))"

definition request_block :: "u64 \<times> vpipe_buffer \<times> vpipe_frame_desc \<Rightarrow> nat" where
  "request_block q = plane_block (fst (snd q))"

text \<open>
  The \<open>k\<close>-th request after a start (from 1): it succeeds, is flagged exactly when the
  schedule drops it, and otherwise its block holds the gradient whose base is the number of
  frames drawn before.
\<close>

definition frame_outcome ::
    "u32 \<Rightarrow> nat \<Rightarrow> mem \<Rightarrow> mem \<Rightarrow> u64 \<times> vpipe_buffer \<times> vpipe_frame_desc \<Rightarrow> unit result \<times> vpipe_frame_desc \<Rightarrow> bool" where
  "frame_outcome period k m m' q out =
     (let d = snd (snd q); a = request_block q; dr = dropped (unat period) k in
      fst out = Inr () \<and> fd_flags (snd out) = (if dr then VPIPE_FRAME_FLAG_DROPPED else 0) \<and>
      m' a = (if dr then m a
              else map_option (draw 0 0 (unat (fd_width d)) (unat (fd_height d)) (unat (fd_stride d))
                (gradient (of_nat (drawn (unat period) (k - 1))))) (m a)))"

lemma frame_outcome_other:
  "frame_outcome period k m m' q out \<Longrightarrow> m0 (request_block q) = m (request_block q) \<Longrightarrow>
   frame_outcome period k m0 m' q out"
  by (simp add: frame_outcome_def Let_def)

lemma synthetic_run:
  assumes "s_ops s = Some ops" "op_next_frame (tbl ops) = Some synthetic_next_frame"
    "s_priv s = Some (Synthetic_Priv (synthetic_at period n))" "n + length reqs < 2 ^ 32"
    "\<forall>(now, b, d)\<in>set reqs. plane_fits b d (kw_mem w)" "distinct (map request_block reqs)"
  shows "\<exists>out s' w'. pull_frames tbl reqs s w = Some (out, s', w') \<and>
    s_priv s' = Some (Synthetic_Priv (synthetic_at period (n + length reqs))) \<and>
    (\<forall>a. a \<notin> request_block ` set reqs \<longrightarrow> kw_mem w' a = kw_mem w a) \<and>
    (\<forall>i<length reqs. frame_outcome period (n + Suc i) (kw_mem w) (kw_mem w') (reqs ! i) (out ! i))"
  using assms
proof (induction reqs arbitrary: s w n)
  case (Cons q reqs)
  obtain now b d where q: "q = (now, b, d)" by (cases q)
  have fit: "plane_fits b d (kw_mem w)" using Cons.prems(5) q by simp
  then obtain blk xs where v: "vb_vaddr b = Some (blk, 0)" "kw_mem w blk = Some xs"
    by (auto simp: plane_fits_def)
  have blk: "request_block q = blk" by (simp add: request_block_def plane_block_def v q)
  have n: "Suc n < 2 ^ 32" using Cons.prems(4) by simp
  from synthetic_step [of s ops tbl, OF Cons.prems(1-3) n fit v, of now] obtain s1 d1 w1 where
    step: "vpipe_source_next_frame tbl now (Some s) (Some b) (Some d) w = Some (Inr (), Some s1, Some d1, w1)"
    and s1: "s_ops s1 = Some ops" "s_priv s1 = Some (Synthetic_Priv (synthetic_at period (Suc n)))"
    and d1: "fd_flags d1 = (if dropped (unat period) (Suc n) then VPIPE_FRAME_FLAG_DROPPED else 0)"
    and w1: "w1 = (if dropped (unat period) (Suc n) then w else w\<lparr>kw_mem := (kw_mem w)(blk \<mapsto>
        draw 0 0 (unat (fd_width d)) (unat (fd_height d)) (unat (fd_stride d))
          (gradient (of_nat (drawn (unat period) n))) xs)\<rparr>)"
    by blast
  have fits: "\<forall>(now, b, d)\<in>set reqs. plane_fits b d (kw_mem w1)"
    using Cons.prems(5) w1 plane_fits_update [of _ _ "kw_mem w" blk xs] v by auto
  have same: "kw_mem w1 a = kw_mem w a" if "a \<noteq> blk" for a using w1 that by auto
  have "Suc n + length reqs < 2 ^ 32" "distinct (map request_block reqs)" using Cons.prems(4,6) by simp_all
  from Cons.IH [OF s1(1) Cons.prems(2) s1(2) this(1) fits this(2)] obtain out s' w' where
    ih: "pull_frames tbl reqs s1 w1 = Some (out, s', w')"
      "s_priv s' = Some (Synthetic_Priv (synthetic_at period (Suc n + length reqs)))"
      "\<And>a. a \<notin> request_block ` set reqs \<Longrightarrow> kw_mem w' a = kw_mem w1 a"
      "\<And>i. i < length reqs \<Longrightarrow> frame_outcome period (Suc n + Suc i) (kw_mem w1) (kw_mem w') (reqs ! i) (out ! i)"
    by blast
  have notin: "blk \<notin> request_block ` set reqs" using Cons.prems(6) blk by auto
  have "frame_outcome period (Suc n) (kw_mem w) (kw_mem w') q (Inr (), d1)"
    using d1 w1 v ih(3) [OF notin] by (simp add: frame_outcome_def Let_def blk) (simp add: q)
  moreover have "frame_outcome period (Suc n + Suc i) (kw_mem w) (kw_mem w') (reqs ! i) (out ! i)"
    if "i < length reqs" for i
  proof (rule frame_outcome_other [OF ih(4) [OF that]])
    have "request_block (reqs ! i) \<noteq> blk" using notin nth_mem [OF that] by auto
    then show "kw_mem w (request_block (reqs ! i)) = kw_mem w1 (request_block (reqs ! i))" by (simp add: same)
  qed
  ultimately have "\<forall>i<length (q # reqs).
      frame_outcome period (n + Suc i) (kw_mem w) (kw_mem w') ((q # reqs) ! i) (((Inr (), d1) # out) ! i)"
    by (auto simp: less_Suc_eq_0_disj)
  moreover have "\<forall>a. a \<notin> request_block ` set (q # reqs) \<longrightarrow> kw_mem w' a = kw_mem w a"
    using ih(3) same blk by auto
  moreover have "pull_frames tbl (q # reqs) s w = Some ((Inr (), d1) # out, s', w')"
    using step ih(1) by (simp add: q)
  ultimately show ?case using ih(2) by (intro exI conjI) auto
qed simp

end
