(* ===== verification/Vcam_Source.thy ===== *)
theory Vcam_Source
  imports Backend_State
begin

text \<open>
  The vcam-derived backend (kmod/vpipe-vcam.c): a producer that draws into its own reference
  counted framebuffer, copies it into the queued buffer, and exports the framebuffer as a
  DMA-BUF.  The framebuffer structures live in the heap \<open>kw_fbs\<close>, their pixels in \<open>kw_mem\<close>,
  and an access or release through a stale address is a fault.
\<close>

unbundle bit_operations_syntax

section \<open>The framebuffer\<close>

abbreviation (input) PAGE_SIZE :: nat where "PAGE_SIZE \<equiv> 4096"

definition PAGE_ALIGN :: "u64 \<Rightarrow> u64" where
  "PAGE_ALIGN n = (n + of_nat (PAGE_SIZE - 1)) AND NOT (of_nat (PAGE_SIZE - 1))"

definition vcam_fb_release :: "nat \<Rightarrow> kworld \<Rightarrow> kworld option" where
  "vcam_fb_release a w = do {
     fb \<leftarrow> kw_fbs w a;
     _ \<leftarrow> kw_mem w (fb_vaddr fb);
     Some (w\<lparr>kw_mem := (kw_mem w)(fb_vaddr fb := None), kw_fbs := (kw_fbs w)(a := None)\<rparr>) }"

text \<open>\<open>kref_get\<close> and \<open>kref_put\<close> on the structure at address \<open>a\<close>.\<close>

definition kref_get :: "nat \<Rightarrow> kworld \<Rightarrow> kworld option" where
  "kref_get a w = do {
     fb \<leftarrow> kw_fbs w a;
     Some (w\<lparr>kw_fbs := (kw_fbs w)(a \<mapsto> fb\<lparr>fb_refcount := fb_refcount fb + 1\<rparr>)\<rparr>) }"

definition kref_put :: "nat \<Rightarrow> kworld \<Rightarrow> kworld option" where
  "kref_put a w = do {
     fb \<leftarrow> kw_fbs w a;
     if fb_refcount fb = 0 then None
     else if fb_refcount fb = 1 then vcam_fb_release a w
     else Some (w\<lparr>kw_fbs := (kw_fbs w)(a \<mapsto> fb\<lparr>fb_refcount := fb_refcount fb - 1\<rparr>)\<rparr>) }"

definition vcam_fb_alloc :: "kenv \<Rightarrow> u64 \<Rightarrow> kworld \<Rightarrow> nat option \<times> kworld" where
  "vcam_fb_alloc env bytes w =
     (case ke_fb env of None \<Rightarrow> (None, w)
      | Some a \<Rightarrow>
         (let size = PAGE_ALIGN bytes
          in case ke_vmalloc env of None \<Rightarrow> (None, w)
             | Some blk \<Rightarrow>
                (Some a, w\<lparr>kw_mem := (kw_mem w)(blk \<mapsto> replicate (unat size) 0),
                   kw_fbs := (kw_fbs w)(a \<mapsto> \<lparr>fb_refcount = 1, fb_vaddr = blk, fb_size = size\<rparr>)\<rparr>)))"

definition vcam_fill_gradient :: "ptr \<Rightarrow> u32 \<Rightarrow> u32 \<Rightarrow> u32 \<Rightarrow> u32 \<Rightarrow> mem \<Rightarrow> mem option" where
  "vcam_fill_gradient dst width height stride offset m = do {
     m \<leftarrow> foreach (\<lambda>y. let row = ptr_add dst (uint (of_nat y * stride))
                  in foreach (\<lambda>x m. store m (ptr_add row (int x)) (gradient_byte (of_nat x) (of_nat y) offset))
                       [0..<unat width])
            [0..<unat height] m;
     store m dst (ucast (offset AND 0xFF)) }"

section \<open>DMA-BUF operations\<close>

text \<open>
  \<open>vcam_dmabuf_map\<close> builds a scatter list of the framebuffer's pages.  The kernel answers
  whether \<open>kzalloc\<close> succeeds, the error of \<open>sg_alloc_table\<close> and \<open>dma_map_sgtable\<close> if any, and
  the page behind each address.  The ledger counts live \<open>sg_table\<close> structures and tables.
\<close>

type_synonym sg_ledger = "nat \<times> nat"

fun sg_fill :: "(ptr \<Rightarrow> nat option) \<Rightarrow> nat \<Rightarrow> nat list \<Rightarrow> nat list option" where
  "sg_fill vmalloc_to_page blk [] = Some []"
| "sg_fill vmalloc_to_page blk (i # is) = do {
     page \<leftarrow> vmalloc_to_page (blk, int (i * PAGE_SIZE));
     rest \<leftarrow> sg_fill vmalloc_to_page blk is;
     Some (page # rest) }"

definition vcam_dmabuf_map ::
    "bool \<Rightarrow> errno option \<Rightarrow> (ptr \<Rightarrow> nat option) \<Rightarrow> errno option \<Rightarrow> vcam_fb \<Rightarrow> sg_ledger \<Rightarrow> nat list result \<times> sg_ledger" where
  "vcam_dmabuf_map kz sg_err vmalloc_to_page dma_err fb led =
     (let npages = ucast (drop_bit 12 (fb_size fb)) :: u32
      in if \<not> kz then (Inl ENOMEM, led)
      else let led = apfst Suc led
      in case sg_err of Some e \<Rightarrow> (Inl e, apfst (\<lambda>n. n - 1) led)
      | None \<Rightarrow>
         (let led = apsnd Suc led; free = map_prod (\<lambda>n. n - 1) (\<lambda>n. n - 1)
          in case sg_fill vmalloc_to_page (fb_vaddr fb) [0..<unat npages] of
               None \<Rightarrow> (Inl EFAULT, free led)
             | Some pages \<Rightarrow>
                (case dma_err of Some e \<Rightarrow> (Inl e, free led) | None \<Rightarrow> (Inr pages, led))))"

definition vcam_dmabuf_unmap :: "sg_ledger \<Rightarrow> sg_ledger" where
  "vcam_dmabuf_unmap led = map_prod (\<lambda>n. n - 1) (\<lambda>n. n - 1) led"

definition vcam_dmabuf_begin_cpu :: "unit result" where
  "vcam_dmabuf_begin_cpu = Inr ()"

definition vcam_dmabuf_end_cpu :: "unit result" where
  "vcam_dmabuf_end_cpu = Inr ()"

text \<open>\<open>remap\<close>: what \<open>remap_vmalloc_range\<close> returns for a mapping of the block at a page offset.\<close>

definition vcam_dmabuf_mmap :: "(nat \<Rightarrow> u64 \<Rightarrow> unit result) \<Rightarrow> vcam_fb \<Rightarrow> u64 \<Rightarrow> u64 \<Rightarrow> u64 \<Rightarrow> unit result" where
  "vcam_dmabuf_mmap remap fb vm_start vm_end vm_pgoff =
     (if vm_end - vm_start > fb_size fb then Inl EINVAL
      else remap (fb_vaddr fb) vm_pgoff)"

definition vcam_dmabuf_vmap :: "vcam_fb \<Rightarrow> unit result \<times> ptr option" where
  "vcam_dmabuf_vmap fb = (Inr (), Some (fb_vaddr fb, 0))"

definition vcam_dmabuf_vunmap :: "ptr option" where
  "vcam_dmabuf_vunmap = None"

text \<open>The last reference to the DMA-BUF object \<open>d\<close> goes away.\<close>

definition vcam_dmabuf_release :: "nat \<Rightarrow> kworld \<Rightarrow> kworld option" where
  "vcam_dmabuf_release d w = do {
     a \<leftarrow> kw_dmabufs w d;
     kref_put a (w\<lparr>kw_dmabufs := (kw_dmabufs w)(d := None)\<rparr>) }"

section \<open>Source operations\<close>

abbreviation (input) NSEC_PER_SEC :: u64 where "NSEC_PER_SEC \<equiv> 1000000000"

definition vcam_start :: "(backend_ops, source_priv, kenv, kworld) start_op" where
  "vcam_start env src ctx w =
     (case ctx of None \<Rightarrow> Some (Inl EINVAL, src, w)
      | Some c \<Rightarrow>
         if q_sizeimage (c_out_q c) = 0 then Some (Inl EINVAL, src, w)
         else if \<not> ke_priv env then Some (Inl ENOMEM, src, w)
         else case vcam_fb_alloc env (ucast (q_sizeimage (c_out_q c))) w of
           (None, w) \<Rightarrow> Some (Inl ENOMEM, src, w)
         | (Some a, w) \<Rightarrow>
             Some (Inr (), src\<lparr>s_priv := Some (Vcam_Priv \<lparr>vc_fb = Some a, vc_pattern_offset = 0,
               vc_frames_produced = 0, vc_drop_every_n = ke_vcam_drop_every env, vc_base_ts_ns = ke_now env,
               vc_frame_interval_ns = (if ke_vcam_fps env \<noteq> 0 then NSEC_PER_SEC div ucast (ke_vcam_fps env) else 0)\<rparr>)\<rparr>, w))"

text \<open>A private structure of another backend would be read as garbage: a fault.\<close>

definition vcam_stop :: "(backend_ops, source_priv, kworld) stop_op" where
  "vcam_stop src w =
     (case s_priv src of
        None \<Rightarrow> Some (src, w)
      | Some (Synthetic_Priv _) \<Rightarrow> None
      | Some (Vcam_Priv p) \<Rightarrow> do {
          w \<leftarrow> (case vc_fb p of Some a \<Rightarrow> kref_put a w | None \<Rightarrow> Some w);
          Some (src\<lparr>s_priv := None\<rparr>, w) })"

definition vcam_reset :: "(backend_ops, source_priv, kenv) reset_op" where
  "vcam_reset env src =
     (case s_priv src of
        Some (Vcam_Priv p) \<Rightarrow>
          (Inr (), src\<lparr>s_priv := Some (Vcam_Priv (p\<lparr>vc_pattern_offset := 0, vc_frames_produced := 0,
             vc_base_ts_ns := ke_now env\<rparr>))\<rparr>)
      | _ \<Rightarrow> (Inr (), src))"

definition vcam_next_frame :: "(backend_ops, source_priv, kworld) next_frame_op" where
  "vcam_next_frame src buf desc w =
     (case s_priv src of
        None \<Rightarrow> Some (Inl EINVAL, src, desc, w)
      | Some (Synthetic_Priv _) \<Rightarrow> None
      | Some (Vcam_Priv p) \<Rightarrow>
         (case vc_fb p of None \<Rightarrow> Some (Inl EINVAL, src, desc, w)
          | Some a \<Rightarrow>
             if fd_width desc = 0 \<or> fd_height desc = 0 \<or> fd_stride desc = 0 then Some (Inl EINVAL, src, desc, w)
             else do {
               fb \<leftarrow> kw_fbs w a;
               let frame_bytes = (ucast (fd_stride desc) * ucast (fd_height desc) :: u64);
               if frame_bytes > fb_size fb then Some (Inl EINVAL, src, desc, w)
               else case vb_vaddr buf of
                 None \<Rightarrow> Some (Inl EFAULT, src, desc, w)
               | Some dst \<Rightarrow>
                  (let desc = desc\<lparr>fd_source_timestamp_ns :=
                         vc_base_ts_ns p + ucast (vc_frames_produced p) * vc_frame_interval_ns p\<rparr>
                   in if vc_drop_every_n p \<noteq> 0 \<and> vc_frames_produced p mod vc_drop_every_n p = 0
                      then Some (Inr (),
                             src\<lparr>s_priv := Some (Vcam_Priv (p\<lparr>vc_frames_produced := vc_frames_produced p + 1\<rparr>))\<rparr>,
                             desc\<lparr>fd_flags := fd_flags desc OR VPIPE_FRAME_FLAG_DROPPED\<rparr>, w)
                      else do {
                        m \<leftarrow> vcam_fill_gradient (fb_vaddr fb, 0) (fd_width desc) (fd_height desc) (fd_stride desc)
                               (vc_pattern_offset p) (kw_mem w);
                        m \<leftarrow> (if dst \<noteq> (fb_vaddr fb, 0) then memcpy m dst (fb_vaddr fb, 0) (unat frame_bytes) else Some m);
                        Some (Inr (),
                          src\<lparr>s_priv := Some (Vcam_Priv (p\<lparr>vc_pattern_offset := vc_pattern_offset p + 1,
                            vc_frames_produced := vc_frames_produced p + 1\<rparr>))\<rparr>,
                          desc\<lparr>fd_byteused := ucast frame_bytes\<rparr>, w\<lparr>kw_mem := m\<rparr>) }) }))"

definition vcam_export_dmabuf :: "(backend_ops, source_priv, kenv, kworld) export_op" where
  "vcam_export_dmabuf env src buf w =
     (case s_priv src of
        None \<Rightarrow> Some (Inl EINVAL, w)
      | Some (Synthetic_Priv _) \<Rightarrow> None
      | Some (Vcam_Priv p) \<Rightarrow>
         (case vc_fb p of None \<Rightarrow> Some (Inl EINVAL, w)
          | Some a \<Rightarrow> do {
              w \<leftarrow> kref_get a w;
              case ke_export env of
                Inl e \<Rightarrow> do { w \<leftarrow> kref_put a w; Some (Inl e, w) }
              | Inr d \<Rightarrow> do {
                  let w = w\<lparr>kw_dmabufs := (kw_dmabufs w)(d \<mapsto> a)\<rparr>;
                  case ke_fd env of
                    Inl e \<Rightarrow> do { w \<leftarrow> vcam_dmabuf_release d w; Some (Inl e, w) }
                  | Inr fd \<Rightarrow> Some (Inr fd, w) } }))"

definition vcam_ops :: "(backend_ops, source_priv, kenv, kworld) vpipe_source_ops" where
  "vcam_ops = \<lparr>op_start = Some vcam_start, op_stop = Some vcam_stop, op_reset = Some vcam_reset,
     op_next_frame = Some vcam_next_frame, op_export_dmabuf = Some vcam_export_dmabuf\<rparr>"

definition vpipe_source_vcam_register ::
    "backend_table \<Rightarrow> backend_ops registry \<Rightarrow> unit result \<times> backend_ops registry" where
  "vpipe_source_vcam_register tbl r =
     vpipe_source_register tbl VPIPE_BACKEND_VCAM_DERIVED (Some Vcam_Ops) (Some ''vcam-derived'') r"

section \<open>Sizes and pictures\<close>

lemma unat_and_not_mask12: "unat (x AND NOT (mask 12) :: u64) = unat x - unat x mod 4096"
proof -
  have eq: "x AND NOT (mask 12) = push_bit 12 (drop_bit 12 x)"
    by (rule bit_word_eqI) (auto simp: bit_simps)
  have "push_bit 12 (drop_bit 12 x) = x - take_bit 12 x"
    using bits_ident [of 12 x] by (simp add: eq_diff_eq)
  moreover have tk: "unat (take_bit 12 x) = unat x mod 4096"
    by (simp only: unsigned_take_bit_eq) (simp add: take_bit_eq_mod)
  moreover from tk have "take_bit 12 x \<le> x" by (simp add: word_le_nat_alt)
  ultimately show ?thesis by (simp only: eq unat_sub tk)
qed

lemma PAGE_ALIGN_bounds:
  assumes "unat n + 4095 < 2 ^ 64"
  shows "unat (PAGE_ALIGN n) = (unat n + 4095) div 4096 * 4096" "unat n \<le> unat (PAGE_ALIGN n)"
    "unat (PAGE_ALIGN n) mod 4096 = 0"
proof -
  have "unat (n + 4095 :: u64) = unat n + 4095" using assms by (subst unat_add_lem [THEN iffD1]) auto
  moreover have "PAGE_ALIGN n = (n + 4095) AND NOT (mask 12)" by (simp add: PAGE_ALIGN_def mask_eq_exp_minus_1)
  ultimately show eq: "unat (PAGE_ALIGN n) = (unat n + 4095) div 4096 * 4096"
    by (simp only: unat_and_not_mask12) (simp add: minus_mod_eq_div_mult)
  have "(unat n + 4095) div 4096 * 4096 + (unat n + 4095) mod 4096 = unat n + 4095" by (rule div_mult_mod_eq)
  moreover have "(unat n + 4095) mod 4096 \<le> 4095" using mod_less_divisor [of 4096 "unat n + 4095"] by linarith
  ultimately show "unat n \<le> unat (PAGE_ALIGN n)" using eq by linarith
  show "unat (PAGE_ALIGN n) mod 4096 = 0" by (simp add: eq)
qed

lemma vcam_fill_gradient_draw:
  assumes D: "m b = Some D" "unat height * unat stride \<le> length D" and dims: "unat width \<le> unat stride"
    "0 < unat width" "0 < unat height" "unat height * unat stride < 2 ^ 32"
  shows "vcam_fill_gradient (b, 0) width height stride off m =
    Some (m(b \<mapsto> draw 0 0 (unat width) (unat height) (unat stride) (gradient (ucast off)) D))"
proof -
  let ?P = "draw 0 0 (unat width) (unat height) (unat stride) (gradient (ucast off)) D"
  have px: "gradient_byte (of_nat x) (of_nat y) off = gradient (ucast off) x y" for x y
    by (simp add: gradient_def gradient_byte_u8)
  have loop: "foreach (\<lambda>y. foreach (\<lambda>x m. store m (b, uint (of_nat y * stride) + int x) (gradient (ucast off) x y)) [0..<unat width])
      [0..<unat height] m = Some (m(b \<mapsto> ?P))"
    using fill_rows [of m b D "unat height" "unat stride" "unat width" "\<lambda>y. uint (of_nat y * stride)"
        "gradient (ucast off)"] assms by (simp add: uint_row_offset [of _ "unat height"])
  have "0 < unat height * unat stride" using dims by simp
  then have len: "0 < length D" using D(2) by linarith
  then have first: "?P ! 0 = ucast off"
    using dims by (subst nth_draw) (auto simp: gradient_def)
  have same: "?P[0 := ucast off] = ?P" using first by (metis list_update_id)
  have "store (m(b \<mapsto> ?P)) (b, int 0) (ucast (off AND 255)) = Some ((m(b \<mapsto> ?P))(b \<mapsto> ?P[0 := ucast (off AND 255)]))"
    using len by (intro store_Some) auto
  then have "store (m(b \<mapsto> ?P)) (b, 0) (ucast (off AND 255)) = Some (m(b \<mapsto> ?P))"
    by (simp only: ucast_and_mask8 same) simp
  then show ?thesis by (simp add: vcam_fill_gradient_def px loop)
qed

section \<open>Producing a frame\<close>

text \<open>A started source: its framebuffer is alive with as many bytes as it says.\<close>

definition vcam_ready :: "source \<Rightarrow> kworld \<Rightarrow> bool" where
  "vcam_ready s w \<longleftrightarrow> (\<exists>p a fb P. s_priv s = Some (Vcam_Priv p) \<and> vc_fb p = Some a \<and> kw_fbs w a = Some fb \<and>
     kw_mem w (fb_vaddr fb) = Some P \<and> length P = unat (fb_size fb))"

definition vcam_fits :: "source \<Rightarrow> vpipe_buffer \<Rightarrow> vpipe_frame_desc \<Rightarrow> kworld \<Rightarrow> bool" where
  "vcam_fits s b d w \<longleftrightarrow> plane_fits b d (kw_mem w) \<and>
     (\<forall>p a fb. s_priv s = Some (Vcam_Priv p) \<longrightarrow> vc_fb p = Some a \<longrightarrow> kw_fbs w a = Some fb \<longrightarrow>
        unat (fd_height d) * unat (fd_stride d) \<le> unat (fb_size fb))"

lemma unat_frame_bytes: "unat (ucast (st :: u32) * ucast (h :: u32) :: u64) = unat h * unat st"
proof -
  have "unat h * unat st < 2 ^ 32 * 2 ^ 32"
    using unsigned_less [of h] unsigned_less [of st] by (intro mult_strict_mono) auto
  then show ?thesis by (simp add: unat_word_ariths unat_ucast_widen mult.commute)
qed

text \<open>
  What one request leaves in memory: the framebuffer holds the gradient and the queued
  buffer starts with a copy of the framebuffer's frame (it may be the framebuffer itself).
\<close>

definition vcam_frame_mem :: "nat \<Rightarrow> u8 list \<Rightarrow> nat \<Rightarrow> u8 list \<Rightarrow> vpipe_frame_desc \<Rightarrow> u8 \<Rightarrow> mem \<Rightarrow> mem" where
  "vcam_frame_mem fbv P blk xs d k m =
     (let P' = draw 0 0 (unat (fd_width d)) (unat (fd_height d)) (unat (fd_stride d)) (gradient k) P
      in (m(fbv \<mapsto> P'))(blk \<mapsto> if blk = fbv then P' else splice 0 (take (unat (fd_height d) * unat (fd_stride d)) P') xs))"

lemma vcam_next_frame_ok:
  assumes p: "s_priv s = Some (Vcam_Priv p)" "vc_fb p = Some a" "kw_fbs w a = Some fb"
      "kw_mem w (fb_vaddr fb) = Some P" "length P = unat (fb_size fb)"
    and fit: "vcam_fits s b d w" and v: "vb_vaddr b = Some (blk, 0)" "kw_mem w blk = Some xs"
  defines "d' \<equiv> d\<lparr>fd_source_timestamp_ns := vc_base_ts_ns p + ucast (vc_frames_produced p) * vc_frame_interval_ns p\<rparr>"
  shows "vcam_next_frame s b d w =
    (if dropped (unat (vc_drop_every_n p)) (unat (vc_frames_produced p))
     then Some (Inr (), s\<lparr>s_priv := Some (Vcam_Priv (p\<lparr>vc_frames_produced := vc_frames_produced p + 1\<rparr>))\<rparr>,
       d'\<lparr>fd_flags := fd_flags d OR VPIPE_FRAME_FLAG_DROPPED\<rparr>, w)
     else Some (Inr (), s\<lparr>s_priv := Some (Vcam_Priv (p\<lparr>vc_pattern_offset := vc_pattern_offset p + 1,
          vc_frames_produced := vc_frames_produced p + 1\<rparr>))\<rparr>,
       d'\<lparr>fd_byteused := fd_stride d * fd_height d\<rparr>,
       w\<lparr>kw_mem := vcam_frame_mem (fb_vaddr fb) P blk xs d (ucast (vc_pattern_offset p)) (kw_mem w)\<rparr>))"
proof -
  let ?n = "unat (fd_height d) * unat (fd_stride d)"
  let ?P = "draw 0 0 (unat (fd_width d)) (unat (fd_height d)) (unat (fd_stride d)) (gradient (ucast (vc_pattern_offset p))) P"
  have dims: "0 < unat (fd_width d)" "0 < unat (fd_height d)" "unat (fd_width d) \<le> unat (fd_stride d)" "?n < 2 ^ 32"
    and xs: "?n \<le> length xs" and P: "?n \<le> length P"
    using fit v p by (auto simp: vcam_fits_def plane_fits_def)
  have nz: "fd_width d \<noteq> 0" "fd_height d \<noteq> 0" "fd_stride d \<noteq> 0" using dims by auto
  have n: "unat (ucast (fd_stride d) * ucast (fd_height d) :: u64) = ?n" by (rule unat_frame_bytes)
  then have small: "\<not> (ucast (fd_stride d) * ucast (fd_height d) :: u64) > fb_size fb"
    using P p(5) by (simp add: word_less_nat_alt)
  have bytes: "(ucast (ucast (fd_stride d) * ucast (fd_height d) :: u64) :: u32) = fd_stride d * fd_height d"
    using dims by (simp only: word_unat_eq_iff unsigned_ucast_eq n) (simp add: unat_word_ariths take_bit_nat_eq_self mult.commute)
  have fill: "vcam_fill_gradient (fb_vaddr fb, 0) (fd_width d) (fd_height d) (fd_stride d) (vc_pattern_offset p) (kw_mem w) =
      Some ((kw_mem w)(fb_vaddr fb \<mapsto> ?P))"
    using p(4) P dims by (intro vcam_fill_gradient_draw) auto
  have cp: "memcpy ((kw_mem w)(fb_vaddr fb \<mapsto> ?P)) (blk, 0) (fb_vaddr fb, 0) ?n =
      Some (((kw_mem w)(fb_vaddr fb \<mapsto> ?P))(blk \<mapsto> splice 0 (take ?n ?P) xs))" if "blk \<noteq> fb_vaddr fb"
    using that v(2) xs P memcpy_Some [of "(kw_mem w)(fb_vaddr fb \<mapsto> ?P)" "fb_vaddr fb" ?P blk xs 0 ?n 0] by simp
  show ?thesis
    using p v nz small
    by (simp add: vcam_next_frame_def Let_def dropped_word fill cp n bytes d'_def vcam_frame_mem_def)
qed

lemma plane_fits_lengths:
  assumes "plane_fits b d m" "\<And>k xs. m k = Some xs \<Longrightarrow> \<exists>ys. m' k = Some ys \<and> length ys = length xs"
  shows "plane_fits b d m'"
  using assms unfolding plane_fits_def by metis

lemma vcam_frame_mem_lengths:
  assumes "m fbv = Some P" "m blk = Some xs" "unat (fd_height d) * unat (fd_stride d) \<le> length xs" "m k = Some ys"
    "unat (fd_height d) * unat (fd_stride d) \<le> length P"
  shows "\<exists>zs. vcam_frame_mem fbv P blk xs d c m k = Some zs \<and> length zs = length ys"
  using assms by (auto simp: vcam_frame_mem_def Let_def)

interpretation vcam: frame_producer vcam_next_frame vcam_ready vcam_fits
proof unfold_locales
  fix s :: source and w :: kworld and b d
  assume ready: "vcam_ready s w" and fit: "vcam_fits s b d w"
  from ready obtain p a fb P where p: "s_priv s = Some (Vcam_Priv p)" "vc_fb p = Some a" "kw_fbs w a = Some fb"
      "kw_mem w (fb_vaddr fb) = Some P" "length P = unat (fb_size fb)"
    by (auto simp: vcam_ready_def)
  from fit obtain blk xs where v: "vb_vaddr b = Some (blk, 0)" "kw_mem w blk = Some xs"
    and n: "unat (fd_height d) * unat (fd_stride d) \<le> length xs" "unat (fd_height d) * unat (fd_stride d) \<le> length P"
    using p by (auto simp: vcam_fits_def plane_fits_def)
  define m' where "m' = vcam_frame_mem (fb_vaddr fb) P blk xs d (ucast (vc_pattern_offset p)) (kw_mem w)"
  have len: "\<exists>zs. m' k = Some zs \<and> length zs = length ys" if "kw_mem w k = Some ys" for k ys
    unfolding m'_def by (rule vcam_frame_mem_lengths [OF p(4) v(2) n(1) that n(2)])
  have keep: "plane_fits b' d' m'" if "plane_fits b' d' (kw_mem w)" for b' d'
    by (rule plane_fits_lengths [OF that len])
  obtain P' where P': "m' (fb_vaddr fb) = Some P'" "length P' = length P" using len [OF p(4)] by blast
  show "\<exists>s' d' w'. vcam_next_frame s b d w = Some (Inr (), s', d', w') \<and>
      s_backend_id s' = s_backend_id s \<and> s_seq s' = s_seq s \<and> s_ops s' = s_ops s \<and> same_geometry d' d \<and>
      vcam_ready s' w' \<and> (\<forall>b d. vcam_fits s b d w \<longrightarrow> vcam_fits s' b d w')"
    unfolding vcam_next_frame_ok [OF p fit v] m'_def [symmetric]
    using p P' keep by (simp add: vcam_ready_def vcam_fits_def same_geometry_def)
qed (auto simp: vcam_ready_def vcam_fits_def plane_fits_def same_geometry_def)

section \<open>Cadence\<close>

text \<open>
  The private structure after \<open>n\<close> requests: the counter is \<open>n\<close> and the pattern offset the
  number of requests that were not dropped.
\<close>

definition vdrawn :: "nat \<Rightarrow> nat \<Rightarrow> nat" where
  "vdrawn period n = length (filter (\<lambda>k. \<not> dropped period k) [0..<n])"

definition vcam_at :: "nat \<Rightarrow> u32 \<Rightarrow> u64 \<Rightarrow> u64 \<Rightarrow> nat \<Rightarrow> vpipe_vcam_priv" where
  "vcam_at a period base interval n = \<lparr>vc_fb = Some a, vc_pattern_offset = of_nat (vdrawn (unat period) n),
     vc_frames_produced = of_nat n, vc_drop_every_n = period, vc_base_ts_ns = base, vc_frame_interval_ns = interval\<rparr>"

lemma vdrawn_Suc: "vdrawn p (Suc n) = (if dropped p n then vdrawn p n else Suc (vdrawn p n))"
  by (simp add: vdrawn_def)

lemma ucast_of_nat_u64: "n < 2 ^ 32 \<Longrightarrow> (ucast (of_nat n :: u32) :: u64) = of_nat n"
  by (simp add: word_unat_eq_iff unat_ucast_widen unat_u32_of_nat unat_of_nat take_bit_nat_eq_self)

lemma vcam_step:
  assumes "s_ops s = Some ops" "op_next_frame (tbl ops) = Some vcam_next_frame"
    and s: "s_priv s = Some (Vcam_Priv (vcam_at a period base interval n))" and n: "n < 2 ^ 32"
    and fb: "kw_fbs w a = Some fb" "kw_mem w (fb_vaddr fb) = Some P" "length P = unat (fb_size fb)"
    and fit: "vcam_fits s b d w" and v: "vb_vaddr b = Some (blk, 0)" "kw_mem w blk = Some xs"
    and ts: "base + of_nat n * interval \<noteq> 0"
  defines "dr \<equiv> dropped (unat period) n"
  shows "\<exists>s' d' w'. vpipe_source_next_frame tbl now (Some s) (Some b) (Some d) w = Some (Inr (), Some s', Some d', w')
    \<and> s_ops s' = Some ops \<and> s_priv s' = Some (Vcam_Priv (vcam_at a period base interval (Suc n)))
    \<and> fd_flags d' = (if dr then VPIPE_FRAME_FLAG_DROPPED else 0)
    \<and> fd_source_timestamp_ns d' = base + of_nat n * interval
    \<and> w' = (if dr then w else w\<lparr>kw_mem :=
        vcam_frame_mem (fb_vaddr fb) P blk xs d (of_nat (vdrawn (unat period) n)) (kw_mem w)\<rparr>)"
proof -
  let ?p = "vcam_at a period base interval n"
  let ?d = "zero_frame_desc\<lparr>fd_width := fd_width d, fd_height := fd_height d, fd_stride := fd_stride d\<rparr>"
  have fit': "vcam_fits s b ?d w" using fit by (simp add: vcam_fits_def plane_fits_def)
  have a: "vc_fb ?p = Some a" by (simp add: vcam_at_def)
  have un: "unat (of_nat n :: u32) = n" using n by (rule unat_u32_of_nat)
  have mem: "vcam_frame_mem fbv P blk xs ?d = vcam_frame_mem fbv P blk xs d" for fbv
    by (intro ext) (simp add: vcam_frame_mem_def Let_def)
  have nf: "vcam_next_frame s b ?d w =
      Some (Inr (), s\<lparr>s_priv := Some (Vcam_Priv (vcam_at a period base interval (Suc n)))\<rparr>,
        (if dr then ?d\<lparr>fd_source_timestamp_ns := base + of_nat n * interval, fd_flags := VPIPE_FRAME_FLAG_DROPPED\<rparr>
         else ?d\<lparr>fd_source_timestamp_ns := base + of_nat n * interval, fd_byteused := fd_stride d * fd_height d\<rparr>),
        if dr then w else w\<lparr>kw_mem :=
          vcam_frame_mem (fb_vaddr fb) P blk xs d (of_nat (vdrawn (unat period) n)) (kw_mem w)\<rparr>)"
    using vcam_next_frame_ok [OF s a fb fit' v] n
    by (simp add: dr_def vcam_at_def vdrawn_Suc ucast_of_nat_u8 ucast_of_nat_u64 un mem)
  show ?thesis using assms(1,2) ts
    by (auto simp: vpipe_source_next_frame_def Let_def nf)
qed

end
