(* ===== verification/Vcam_Lifetime.thy ===== *)
theory Vcam_Lifetime
  imports Vcam_Source
begin

text \<open>
  The life of the vcam framebuffer (kmod/vpipe-vcam.c): it is created when streaming starts
  and shared by reference count between the source and any number of exported DMA-BUFs that
  may outlive the stream, the source and each other.  The invariant counts the references;
  the step relation runs starts, stops, frames, exports and releases in any order.
\<close>

section \<open>The reference count\<close>

text \<open>
  \<open>heap_inv refs w\<close>: framebuffer \<open>a\<close> exists exactly when it has references, its count is
  the number of references, and its pixels are alive, in a block of its own.
\<close>

definition heap_inv :: "(nat \<Rightarrow> nat) \<Rightarrow> kworld \<Rightarrow> bool" where
  "heap_inv refs w \<longleftrightarrow>
     (\<forall>a. kw_fbs w a = None \<longrightarrow> refs a = 0) \<and>
     (\<forall>a fb. kw_fbs w a = Some fb \<longrightarrow> fb_refcount fb = refs a \<and> 0 < refs a \<and>
        (\<exists>P. kw_mem w (fb_vaddr fb) = Some P \<and> length P = unat (fb_size fb))) \<and>
     (\<forall>a a' fb fb'. kw_fbs w a = Some fb \<longrightarrow> kw_fbs w a' = Some fb' \<longrightarrow> fb_vaddr fb = fb_vaddr fb' \<longrightarrow> a = a')"

lemma heap_inv_live: "heap_inv refs w \<Longrightarrow> 0 < refs a \<Longrightarrow> \<exists>fb. kw_fbs w a = Some fb \<and> fb_refcount fb = refs a"
  unfolding heap_inv_def by (metis not_Some_eq less_irrefl)

lemma kref_get_inv:
  assumes inv: "heap_inv refs w" and a: "0 < refs a"
  shows "\<exists>w'. kref_get a w = Some w' \<and> heap_inv (refs(a := Suc (refs a))) w' \<and> kw_dmabufs w' = kw_dmabufs w"
proof -
  obtain fb where fb: "kw_fbs w a = Some fb" "fb_refcount fb = refs a" using heap_inv_live [OF inv a] by blast
  show ?thesis using inv fb by (auto simp: kref_get_def heap_inv_def)
qed

lemma kref_put_inv:
  assumes inv: "heap_inv refs w" and a: "0 < refs a"
  shows "\<exists>w'. kref_put a w = Some w' \<and> heap_inv (refs(a := refs a - 1)) w' \<and> kw_dmabufs w' = kw_dmabufs w"
proof -
  obtain fb where fb: "kw_fbs w a = Some fb" "fb_refcount fb = refs a" using heap_inv_live [OF inv a] by blast
  then obtain P where P: "kw_mem w (fb_vaddr fb) = Some P" using inv unfolding heap_inv_def by blast
  have others: "fb_vaddr fb' \<noteq> fb_vaddr fb" if "kw_fbs w a' = Some fb'" "a' \<noteq> a" for a' fb'
    using inv fb that unfolding heap_inv_def by metis
  show ?thesis
  proof (cases "refs a = 1")
    case True
    with fb P have "kref_put a w =
        Some (w\<lparr>kw_mem := (kw_mem w)(fb_vaddr fb := None), kw_fbs := (kw_fbs w)(a := None)\<rparr>)"
      by (simp add: kref_put_def vcam_fb_release_def)
    then show ?thesis using inv True others by (auto simp: heap_inv_def)
  next
    case False
    with fb a have "kref_put a w = Some (w\<lparr>kw_fbs := (kw_fbs w)(a \<mapsto> fb\<lparr>fb_refcount := refs a - 1\<rparr>)\<rparr>)"
      by (simp add: kref_put_def)
    moreover have "Suc 0 < refs a" using False a by simp
    ultimately show ?thesis using inv fb by (auto simp: heap_inv_def)
  qed
qed

lemma fb_alloc_inv:
  assumes inv: "heap_inv refs w" and env: "ke_fb env = Some a" "ke_vmalloc env = Some blk"
    and fresh: "kw_fbs w a = None" "kw_mem w blk = None"
  shows "\<exists>w'. vcam_fb_alloc env bytes w = (Some a, w') \<and> heap_inv (refs(a := 1)) w' \<and> kw_dmabufs w' = kw_dmabufs w"
proof -
  have "fb_vaddr fb \<noteq> blk" if "kw_fbs w a' = Some fb" for a' fb
    using inv fresh that unfolding heap_inv_def by fastforce
  then show ?thesis using inv env fresh by (auto simp: vcam_fb_alloc_def Let_def heap_inv_def)
qed

section \<open>References of a source and of its exports\<close>

definition priv_refs :: "source \<Rightarrow> nat \<Rightarrow> nat" where
  "priv_refs s a = (case s_priv s of Some (Vcam_Priv p) \<Rightarrow> if vc_fb p = Some a then 1 else 0 | _ \<Rightarrow> 0)"

definition dmabuf_refs :: "kworld \<Rightarrow> nat \<Rightarrow> nat" where
  "dmabuf_refs w a = card {d. kw_dmabufs w d = Some a}"

definition vcam_inv :: "source \<Rightarrow> kworld \<Rightarrow> bool" where
  "vcam_inv s w \<longleftrightarrow> finite (dom (kw_dmabufs w)) \<and> (\<forall>q. s_priv s \<noteq> Some (Synthetic_Priv q)) \<and>
     heap_inv (\<lambda>a. priv_refs s a + dmabuf_refs w a) w"

lemma finite_dmabufs_of: "finite (dom D) \<Longrightarrow> finite {d. D d = Some a}"
  by (rule finite_subset [of _ "dom D"]) auto

lemma dmabuf_refs_add:
  assumes "finite (dom (kw_dmabufs w))" "kw_dmabufs w d = None" "kw_dmabufs w' = (kw_dmabufs w)(d \<mapsto> a)"
  shows "dmabuf_refs w' = (dmabuf_refs w)(a := Suc (dmabuf_refs w a))"
proof
  fix b
  have "{x. kw_dmabufs w' x = Some b} = (if b = a then insert d {x. kw_dmabufs w x = Some b} else {x. kw_dmabufs w x = Some b})"
    using assms(2,3) by auto
  then show "dmabuf_refs w' b = ((dmabuf_refs w)(a := Suc (dmabuf_refs w a))) b"
    using assms finite_dmabufs_of [OF assms(1)] by (simp add: dmabuf_refs_def)
qed

lemma dmabuf_refs_remove:
  assumes "finite (dom (kw_dmabufs w))" "kw_dmabufs w d = Some a" "kw_dmabufs w' = (kw_dmabufs w)(d := None)"
  shows "dmabuf_refs w' = (dmabuf_refs w)(a := dmabuf_refs w a - 1)" "0 < dmabuf_refs w a"
proof -
  show "dmabuf_refs w' = (dmabuf_refs w)(a := dmabuf_refs w a - 1)"
  proof
    fix b
    have "{x. kw_dmabufs w' x = Some b} = (if b = a then {x. kw_dmabufs w x = Some b} - {d} else {x. kw_dmabufs w x = Some b})"
      using assms(2,3) by auto
    then show "dmabuf_refs w' b = ((dmabuf_refs w)(a := dmabuf_refs w a - 1)) b"
      using assms(2) by (simp add: dmabuf_refs_def)
  qed
  show "0 < dmabuf_refs w a"
    using assms(2) finite_dmabufs_of [OF assms(1)] by (auto simp: dmabuf_refs_def card_gt_0_iff)
qed

lemma dmabuf_refs_same: "kw_dmabufs w' = kw_dmabufs w \<Longrightarrow> dmabuf_refs w' = dmabuf_refs w"
  by (simp add: dmabuf_refs_def fun_eq_iff)

lemma stop_inv:
  assumes inv: "vcam_inv s w"
  shows "\<exists>s' w'. vcam_stop s w = Some (s', w') \<and> vcam_inv s' w' \<and> s_priv s' = None"
proof (cases "s_priv s")
  case None
  then show ?thesis using inv by (simp add: vcam_stop_def)
next
  case (Some q)
  with inv obtain p where p: "s_priv s = Some (Vcam_Priv p)" by (cases q) (auto simp: vcam_inv_def)
  show ?thesis
  proof (cases "vc_fb p")
    case None
    then show ?thesis using inv p by (simp add: vcam_stop_def vcam_inv_def priv_refs_def)
  next
    case (Some a)
    have heap: "heap_inv (\<lambda>b. priv_refs s b + dmabuf_refs w b) w" using inv by (simp add: vcam_inv_def)
    have "0 < priv_refs s a + dmabuf_refs w a" using p Some by (simp add: priv_refs_def)
    from kref_put_inv [OF heap this] obtain w' where w': "kref_put a w = Some w'" "kw_dmabufs w' = kw_dmabufs w"
      "heap_inv ((\<lambda>b. priv_refs s b + dmabuf_refs w b)(a := priv_refs s a + dmabuf_refs w a - 1)) w'" by auto
    have "(\<lambda>b. priv_refs s b + dmabuf_refs w b)(a := priv_refs s a + dmabuf_refs w a - 1) =
        (\<lambda>b. priv_refs (s\<lparr>s_priv := None\<rparr>) b + dmabuf_refs w' b)"
      using p Some w'(2) by (auto simp: priv_refs_def dmabuf_refs_same [OF w'(2)])
    then show ?thesis using p Some w' inv by (simp add: vcam_stop_def vcam_inv_def)
  qed
qed

lemma release_inv:
  assumes inv: "vcam_inv s w" and d: "kw_dmabufs w d = Some a"
  shows "\<exists>w'. vcam_dmabuf_release d w = Some w' \<and> vcam_inv s w' \<and> kw_dmabufs w' = (kw_dmabufs w)(d := None)"
proof -
  let ?w = "w\<lparr>kw_dmabufs := (kw_dmabufs w)(d := None)\<rparr>"
  have fin: "finite (dom (kw_dmabufs w))" using inv by (simp add: vcam_inv_def)
  have heap: "heap_inv (\<lambda>b. priv_refs s b + dmabuf_refs w b) ?w" using inv by (simp add: vcam_inv_def heap_inv_def)
  note rm = dmabuf_refs_remove [OF fin d]
  from rm(2) [of ?w] have pos: "0 < priv_refs s a + dmabuf_refs w a" by simp
  from kref_put_inv [OF heap pos] obtain w' where w': "kref_put a ?w = Some w'"
    "heap_inv ((\<lambda>b. priv_refs s b + dmabuf_refs w b)(a := priv_refs s a + dmabuf_refs w a - 1)) w'"
    "kw_dmabufs w' = (kw_dmabufs w)(d := None)" by auto
  have "(\<lambda>b. priv_refs s b + dmabuf_refs w b)(a := priv_refs s a + dmabuf_refs w a - 1) =
      (\<lambda>b. priv_refs s b + dmabuf_refs w' b)"
    using rm [OF w'(3)] by (auto simp: fun_eq_iff)
  then show ?thesis using inv d w' by (simp add: vcam_dmabuf_release_def vcam_inv_def)
qed

lemma export_inv:
  assumes inv: "vcam_inv s w" and new: "\<And>d. ke_export env = Inr d \<Longrightarrow> kw_dmabufs w d = None"
  shows "\<exists>r w'. vcam_export_dmabuf env s buf w = Some (r, w') \<and> vcam_inv s w' \<and>
    (\<forall>e. r = Inl e \<longrightarrow> kw_dmabufs w' = kw_dmabufs w)"
proof (cases "\<exists>p a. s_priv s = Some (Vcam_Priv p) \<and> vc_fb p = Some a")
  case False
  with inv show ?thesis
    by (auto simp: vcam_export_dmabuf_def vcam_inv_def split: option.splits source_priv.splits)
next
  case True
  then obtain p a where p: "s_priv s = Some (Vcam_Priv p)" "vc_fb p = Some a" by blast
  let ?refs = "\<lambda>b. priv_refs s b + dmabuf_refs w b"
  have heap: "heap_inv ?refs w" and fin: "finite (dom (kw_dmabufs w))" using inv by (simp_all add: vcam_inv_def)
  have "0 < ?refs a" using p by (simp add: priv_refs_def)
  from kref_get_inv [OF heap this] obtain w1 where w1: "kref_get a w = Some w1"
    "heap_inv (?refs(a := Suc (?refs a))) w1" "kw_dmabufs w1 = kw_dmabufs w" by blast
  show ?thesis
  proof (cases "ke_export env")
    case (Inl e)
    have "?refs(a := Suc (?refs a), a := ?refs a) = ?refs" by auto
    with kref_put_inv [OF w1(2), of a] obtain w2 where w2: "kref_put a w1 = Some w2"
      "heap_inv ?refs w2" "kw_dmabufs w2 = kw_dmabufs w1" by auto
    then have "vcam_inv s w2" using inv w1(3) dmabuf_refs_same [of w2 w] by (simp add: vcam_inv_def)
    then show ?thesis using p w1 w2 Inl by (simp add: vcam_export_dmabuf_def)
  next
    case (Inr d)
    let ?w = "w1\<lparr>kw_dmabufs := (kw_dmabufs w1)(d \<mapsto> a)\<rparr>"
    have "dmabuf_refs ?w = (dmabuf_refs w)(a := Suc (dmabuf_refs w a))"
      using dmabuf_refs_add [OF fin new [OF Inr]] w1(3) by simp
    then have "?refs(a := Suc (?refs a)) = (\<lambda>b. priv_refs s b + dmabuf_refs ?w b)" by auto
    then have inv1: "vcam_inv s ?w" using inv w1 by (simp add: vcam_inv_def heap_inv_def)
    have "kw_dmabufs ?w d = Some a" by simp
    from release_inv [OF inv1 this] obtain w2 where
      "vcam_dmabuf_release d ?w = Some w2" "vcam_inv s w2" "kw_dmabufs w2 = (kw_dmabufs w1)(d := None)" by auto
    then show ?thesis
      using p w1 Inr inv1 new [OF Inr]
      by (cases "ke_fd env") (auto simp: vcam_export_dmabuf_def fun_upd_idem)
  qed
qed

definition fresh_env :: "kenv \<Rightarrow> kworld \<Rightarrow> bool" where
  "fresh_env env w \<longleftrightarrow> (\<forall>a. ke_fb env = Some a \<longrightarrow> kw_fbs w a = None) \<and>
     (\<forall>b. ke_vmalloc env = Some b \<longrightarrow> kw_mem w b = None)"

lemma start_inv:
  assumes inv: "vcam_inv s w" and s: "s_priv s = None" and env: "fresh_env env w"
  shows "\<exists>r s' w'. vcam_start env s ctx w = Some (r, s', w') \<and> vcam_inv s' w' \<and>
    (\<forall>e. r = Inl e \<longrightarrow> s' = s \<and> w' = w)"
proof (cases "\<exists>c a b. ctx = Some c \<and> q_sizeimage (c_out_q c) \<noteq> 0 \<and> ke_priv env \<and> ke_fb env = Some a \<and> ke_vmalloc env = Some b")
  case False
  then show ?thesis using inv
    by (auto simp: vcam_start_def vcam_fb_alloc_def Let_def split: option.splits)
next
  case True
  then obtain c a b where c: "ctx = Some c" "q_sizeimage (c_out_q c) \<noteq> 0" "ke_priv env" "ke_fb env = Some a" "ke_vmalloc env = Some b"
    by blast
  have fresh: "kw_fbs w a = None" "kw_mem w b = None" using env c by (auto simp: fresh_env_def)
  have heap: "heap_inv (\<lambda>b. priv_refs s b + dmabuf_refs w b) w" using inv by (simp add: vcam_inv_def)
  from fb_alloc_inv [OF heap c(4,5) fresh, of "ucast (q_sizeimage (c_out_q c))"] obtain w' where
    w': "vcam_fb_alloc env (ucast (q_sizeimage (c_out_q c))) w = (Some a, w')" "kw_dmabufs w' = kw_dmabufs w"
      "heap_inv ((\<lambda>b. priv_refs s b + dmabuf_refs w b)(a := 1)) w'" by blast
  have z: "dmabuf_refs w a = 0" using heap fresh(1) by (auto simp: heap_inv_def)
  have "(\<lambda>b. priv_refs s b + dmabuf_refs w b)(a := 1) = (\<lambda>b. (if a = b then 1 else 0) + dmabuf_refs w' b)"
    using s z dmabuf_refs_same [OF w'(2)] by (auto simp: priv_refs_def fun_eq_iff)
  then show ?thesis using c w' inv
    by (auto simp: vcam_start_def vcam_inv_def priv_refs_def)
qed

lemma heap_inv_mem:
  assumes "heap_inv refs w"
    "\<And>a fb P. kw_fbs w a = Some fb \<Longrightarrow> kw_mem w (fb_vaddr fb) = Some P \<Longrightarrow>
       \<exists>Q. m (fb_vaddr fb) = Some Q \<and> length Q = length P"
  shows "heap_inv refs (w\<lparr>kw_mem := m\<rparr>)"
  using assms unfolding heap_inv_def by simp metis

lemma vcam_inv_ready:
  assumes "vcam_inv s w" "s_priv s = Some (Vcam_Priv p)" "vc_fb p = Some a"
  shows "\<exists>fb P. kw_fbs w a = Some fb \<and> kw_mem w (fb_vaddr fb) = Some P \<and> length P = unat (fb_size fb)"
proof -
  have "heap_inv (\<lambda>b. priv_refs s b + dmabuf_refs w b) w" "0 < priv_refs s a + dmabuf_refs w a"
    using assms by (simp_all add: vcam_inv_def priv_refs_def)
  from heap_inv_live [OF this] this(1) show ?thesis unfolding heap_inv_def by metis
qed

lemma frame_inv:
  assumes inv: "vcam_inv s w" and fit: "vcam_fits s b d w" and nf: "vcam_next_frame s b d w = Some (r, s', d', w')"
  shows "vcam_inv s' w'"
proof (cases "\<exists>p a. s_priv s = Some (Vcam_Priv p) \<and> vc_fb p = Some a")
  case False
  then show ?thesis using inv nf
    by (auto simp: vcam_next_frame_def vcam_inv_def split: option.splits source_priv.splits)
next
  case True
  then obtain p a where p: "s_priv s = Some (Vcam_Priv p)" "vc_fb p = Some a" by blast
  from vcam_inv_ready [OF inv p] obtain fb P where fb: "kw_fbs w a = Some fb" "kw_mem w (fb_vaddr fb) = Some P"
    "length P = unat (fb_size fb)" by blast
  from fit obtain blk xs where v: "vb_vaddr b = Some (blk, 0)" "kw_mem w blk = Some xs"
    and n: "unat (fd_height d) * unat (fd_stride d) \<le> length xs" "unat (fd_height d) * unat (fd_stride d) \<le> length P"
    using p fb by (auto simp: vcam_fits_def plane_fits_def)
  have refs: "priv_refs (s\<lparr>s_priv := Some (Vcam_Priv q)\<rparr>) = priv_refs s" if "vc_fb q = vc_fb p" for q
    using that p by (simp add: priv_refs_def fun_eq_iff)
  have mem: "vcam_inv s (w\<lparr>kw_mem := vcam_frame_mem (fb_vaddr fb) P blk xs d c (kw_mem w)\<rparr>)" for c
    using inv heap_inv_mem [of _ w] vcam_frame_mem_lengths [OF fb(2) v(2) n(1) _ n(2), of _ _ c]
    by (simp add: vcam_inv_def dmabuf_refs_def)
  from nf vcam_next_frame_ok [OF p fb fit v] inv mem show ?thesis
    by (auto simp: vcam_inv_def refs split: if_splits)
qed

section \<open>Reachable states\<close>

text \<open>
  One source and its exports.  The kernel hands out fresh addresses, starts a stopped queue
  only, and lets everyone else write or reallocate any memory but the framebuffers' blocks.
\<close>

inductive vcam_reach :: "source \<Rightarrow> kworld \<Rightarrow> bool" where
  loaded: "s_priv s = None \<Longrightarrow> kw_fbs w = (\<lambda>_. None) \<Longrightarrow> kw_dmabufs w = (\<lambda>_. None) \<Longrightarrow> vcam_reach s w"
| started: "vcam_reach s w \<Longrightarrow> s_priv s = None \<Longrightarrow> fresh_env env w \<Longrightarrow>
    vcam_start env s ctx w = Some (r, s', w') \<Longrightarrow> vcam_reach s' w'"
| stopped: "vcam_reach s w \<Longrightarrow> vcam_stop s w = Some (s', w') \<Longrightarrow> vcam_reach s' w'"
| framed: "vcam_reach s w \<Longrightarrow> vcam_fits s b d w \<Longrightarrow>
    vcam_next_frame s b d w = Some (r, s', d', w') \<Longrightarrow> vcam_reach s' w'"
| exported: "vcam_reach s w \<Longrightarrow> (\<And>d. ke_export env = Inr d \<Longrightarrow> kw_dmabufs w d = None) \<Longrightarrow>
    vcam_export_dmabuf env s buf w = Some (r, w') \<Longrightarrow> vcam_reach s w'"
| released: "vcam_reach s w \<Longrightarrow> vcam_dmabuf_release d w = Some w' \<Longrightarrow> vcam_reach s w'"
| environment: "vcam_reach s w \<Longrightarrow>
    (\<And>a fb P. kw_fbs w a = Some fb \<Longrightarrow> kw_mem w (fb_vaddr fb) = Some P \<Longrightarrow>
       \<exists>Q. m (fb_vaddr fb) = Some Q \<and> length Q = length P) \<Longrightarrow>
    vcam_reach s (w\<lparr>kw_mem := m\<rparr>)"

lemma vcam_reach_inv: "vcam_reach s w \<Longrightarrow> vcam_inv s w"
proof (induction rule: vcam_reach.induct)
  case (loaded s w)
  then show ?case by (simp add: vcam_inv_def heap_inv_def priv_refs_def dmabuf_refs_def)
next
  case (started s w env ctx r s' w')
  then show ?case using start_inv [of s w env ctx] by auto
next
  case (stopped s w s' w')
  then show ?case using stop_inv [of s w] by auto
next
  case (framed s w b d r s' d' w')
  then show ?case using frame_inv by blast
next
  case (exported s w env buf r w')
  then show ?case using export_inv [of s w env buf] by auto
next
  case (released s w d w')
  then show ?case using release_inv [of s w d]
    by (cases "kw_dmabufs w d") (auto simp: vcam_dmabuf_release_def)
next
  case (environment s w m)
  then show ?case using heap_inv_mem [of _ w m] by (simp add: vcam_inv_def dmabuf_refs_def)
qed


text \<open>A run: start with a 640x480 frame, export, stop.  The DMA-BUF keeps the pixels.\<close>

definition run_env :: kenv where
  "run_env = \<lparr>ke_priv = True, ke_fb = Some 10, ke_vmalloc = Some 20, ke_now = 1000, ke_export = Inr 30,
     ke_fd = Inr 5, ke_synthetic_drop_every = 0, ke_vcam_fps = 30, ke_vcam_drop_every = 0\<rparr>"

definition run_ctx :: vpipe_ctx where
  "run_ctx = (let q = \<lparr>q_width = 640, q_height = 480, q_bytesperline = 640, q_sizeimage = 307200, q_pixelformat = 0\<rparr>
     in \<lparr>c_out_q = q, c_cap_q = q, c_src_sequence = 0, c_algo_id = 0, c_threshold = 127,
       c_roi = \<lparr>roi_left = 0, roi_top = 0, roi_width = 640, roi_height = 480\<rparr>, c_src = None\<rparr>)"

definition run_src :: source where
  "run_src = \<lparr>s_backend_id = 3, s_ops = Some Vcam_Ops, s_priv = None, s_seq = 0, s_name = Some ''vcam-derived''\<rparr>"

definition run_end :: kworld where
  "run_end = \<lparr>kw_mem = [20 \<mapsto> replicate 307200 0],
     kw_fbs = [10 \<mapsto> \<lparr>fb_refcount = 1, fb_vaddr = 20, fb_size = 307200\<rparr>], kw_dmabufs = [30 \<mapsto> 10]\<rparr>"

lemma run_reach: "vcam_reach run_src run_end"
proof -
  let ?empty = "\<lparr>kw_mem = (\<lambda>_. None), kw_fbs = (\<lambda>_. None), kw_dmabufs = (\<lambda>_. None)\<rparr>"
  let ?p = "\<lparr>vc_fb = Some 10, vc_pattern_offset = 0, vc_frames_produced = 0, vc_drop_every_n = 0,
     vc_base_ts_ns = 1000, vc_frame_interval_ns = 33333333\<rparr>"
  let ?s = "run_src\<lparr>s_priv := Some (Vcam_Priv ?p)\<rparr>"
  let ?w = "\<lambda>n. \<lparr>kw_mem = [20 \<mapsto> replicate 307200 0],
     kw_fbs = [10 \<mapsto> \<lparr>fb_refcount = n, fb_vaddr = 20, fb_size = 307200\<rparr>], kw_dmabufs = (\<lambda>_. None)\<rparr>"
  have al: "PAGE_ALIGN 307200 = 307200" by (simp add: PAGE_ALIGN_def)
  have r0: "vcam_reach run_src ?empty" by (rule vcam_reach.loaded) (simp_all add: run_src_def)
  have st: "vcam_start run_env run_src (Some run_ctx) ?empty = Some (Inr (), ?s, ?w 1)"
    by (simp add: vcam_start_def run_env_def run_ctx_def Let_def vcam_fb_alloc_def al)
  have r1: "vcam_reach ?s (?w 1)"
    by (rule vcam_reach.started [OF r0 _ _ st]) (simp_all add: run_src_def fresh_env_def)
  have ex: "vcam_export_dmabuf run_env ?s None (?w 1) = Some (Inr 5, (?w (Suc 1))\<lparr>kw_dmabufs := [30 \<mapsto> 10]\<rparr>)"
    by (simp add: vcam_export_dmabuf_def kref_get_def run_env_def)
  have r2: "vcam_reach ?s ((?w (Suc 1))\<lparr>kw_dmabufs := [30 \<mapsto> 10]\<rparr>)"
    by (rule vcam_reach.exported [OF r1 _ ex]) simp
  have "vcam_stop ?s ((?w (Suc 1))\<lparr>kw_dmabufs := [30 \<mapsto> 10]\<rparr>) = Some (run_src, run_end)"
    by (simp add: vcam_stop_def kref_put_def run_src_def run_end_def)
  from vcam_reach.stopped [OF r2 this] show ?thesis .
qed


end
