(* ===== verification/Backends.thy ===== *)
theory Backends
  imports Synthetic_Source Vcam_Lifetime
begin

text \<open>
  The fixture backend (kmod/vpipe-fixture.c), the table that the names of the three
  operation tables stand for, and what the source core guarantees over all of them: the
  registry, contiguous sequence numbers, and the frame streams of the two producers.
\<close>

unbundle bit_operations_syntax

section \<open>The fixture backend and the operation tables\<close>

definition fixture_next_frame :: "(backend_ops, source_priv, kworld) next_frame_op" where
  "fixture_next_frame src buf desc w = Some (Inr (), src, desc, w)"

definition fixture_ops :: "(backend_ops, source_priv, kenv, kworld) vpipe_source_ops" where
  "fixture_ops = \<lparr>op_start = None, op_stop = None, op_reset = None,
     op_next_frame = Some fixture_next_frame, op_export_dmabuf = None\<rparr>"

definition vpipe_source_fixture_register ::
    "backend_table \<Rightarrow> backend_ops registry \<Rightarrow> unit result \<times> backend_ops registry" where
  "vpipe_source_fixture_register tbl r =
     vpipe_source_register tbl VPIPE_BACKEND_FIXTURE (Some Fixture_Ops) (Some ''fixture'') r"

definition ops_of :: backend_table where
  "ops_of t = (case t of Fixture_Ops \<Rightarrow> fixture_ops | Synthetic_Ops \<Rightarrow> synthetic_ops | Vcam_Ops \<Rightarrow> vcam_ops)"

lemma ops_of_simps [simp]:
  "ops_of Fixture_Ops = fixture_ops" "ops_of Synthetic_Ops = synthetic_ops" "ops_of Vcam_Ops = vcam_ops"
  by (simp_all add: ops_of_def)

lemma op_next_frame_simps [simp]:
  "op_next_frame fixture_ops = Some fixture_next_frame" "op_next_frame synthetic_ops = Some synthetic_next_frame"
  "op_next_frame vcam_ops = Some vcam_next_frame"
  by (simp_all add: fixture_ops_def synthetic_ops_def vcam_ops_def)

interpretation fixture: frame_producer fixture_next_frame "\<lambda>_ _. True" "\<lambda>_ _ _ _. True"
  by unfold_locales (simp_all add: fixture_next_frame_def same_geometry_def)

section \<open>Registration\<close>

text \<open>The registrations of \<open>vpipe_init\<close>, in its order; the first error ends them.\<close>

definition register_all :: "backend_ops registry \<Rightarrow> unit result \<times> backend_ops registry" where
  "register_all r =
     (case vpipe_source_fixture_register ops_of r of (Inl e, r) \<Rightarrow> (Inl e, r)
      | (Inr _, r) \<Rightarrow>
         (case vpipe_source_synthetic_register ops_of r of (Inl e, r) \<Rightarrow> (Inl e, r)
          | (Inr _, r) \<Rightarrow> vpipe_source_vcam_register ops_of r))"

definition full_registry :: "backend_ops registry" where
  "full_registry = \<lparr>vpipe_backend_ops = [None, Some Fixture_Ops, Some Synthetic_Ops, Some Vcam_Ops],
     vpipe_backend_name = [None, Some ''fixture'', Some ''synthetic'', Some ''vcam-derived'']\<rparr>"

lemmas register_defs = vpipe_source_fixture_register_def vpipe_source_synthetic_register_def
  vpipe_source_vcam_register_def vpipe_source_register_def vpipe_backend_id_valid_def

lemma registry_init_slots:
  "registry_init = \<lparr>vpipe_backend_ops = [None, None, None, None], vpipe_backend_name = [None, None, None, None]\<rparr>"
  by (simp add: registry_init_def eval_nat_numeral)

lemma list_update_numeral: "(x # xs)[numeral k := y] = x # xs[pred_numeral k := y]"
  by (simp add: numeral_eq_Suc)

lemma register_all_init: "register_all registry_init = (Inr (), full_registry)"
  by (simp add: register_all_def register_defs registry_init_slots full_registry_def list_update_numeral)

lemma backend_id_cases:
  assumes "vpipe_backend_id_valid bid"
  obtains "bid = 1" | "bid = 2" | "bid = 3"
proof -
  have "0 < unat bid" "unat bid < 4"
    using assms by (simp_all add: vpipe_backend_id_valid_def word_less_nat_alt)
  then have "unat bid = 1 \<or> unat bid = 2 \<or> unat bid = 3" by linarith
  then show ?thesis using that by (auto simp: word_unat_eq_iff)
qed

text \<open>
  The registry.  Loading the module registers exactly three backends; after that every
  further registration is refused (\<open>EINVAL\<close> for a missing table or a bad number, else
  \<open>EBUSY\<close>) and leaves the registry as it is, and a source can be created for exactly the
  numbers 1, 2 and 3, with the operation table registered for it, no private data and
  sequence number 0.
\<close>

theorem backend_registry:
  "register_all registry_init = (Inr (), full_registry) \<and>
   vpipe_source_register ops_of bid ops name full_registry =
     (if ops = None then Inl EINVAL else if vpipe_backend_id_valid bid then Inl EBUSY else Inl EINVAL, full_registry) \<and>
   vpipe_source_create kz bid full_registry =
     (if \<not> vpipe_backend_id_valid bid then Inl EINVAL
      else if \<not> kz then Inl ENOMEM
      else Inr \<lparr>s_backend_id = bid, s_ops = vpipe_backend_ops full_registry ! unat bid,
        s_priv = (None :: source_priv option), s_seq = 0, s_name = vpipe_backend_name full_registry ! unat bid\<rparr>)"
proof -
  have taken: "vpipe_backend_ops full_registry ! unat bid \<noteq> None" if "vpipe_backend_id_valid bid"
    using that by (cases rule: backend_id_cases) (simp_all add: full_registry_def)
  have nf: "op_next_frame (ops_of t) \<noteq> None" for t by (cases t) simp_all
  show ?thesis using taken
    by (auto simp: register_all_init vpipe_source_register_def vpipe_source_create_def nf)
qed

section \<open>Sequence numbers\<close>

definition backend_ready :: "source \<Rightarrow> kworld \<Rightarrow> bool" where
  "backend_ready s w = (case s_ops s of Some Fixture_Ops \<Rightarrow> True
     | Some Synthetic_Ops \<Rightarrow> \<exists>p. s_priv s = Some (Synthetic_Priv p) | Some Vcam_Ops \<Rightarrow> vcam_ready s w | None \<Rightarrow> False)"

definition backend_fits :: "source \<Rightarrow> vpipe_buffer \<Rightarrow> vpipe_frame_desc \<Rightarrow> kworld \<Rightarrow> bool" where
  "backend_fits s b d w = (case s_ops s of Some Synthetic_Ops \<Rightarrow> plane_fits b d (kw_mem w)
     | Some Vcam_Ops \<Rightarrow> vcam_fits s b d w | _ \<Rightarrow> True)"

text \<open>
  Over every backend, a run of frame requests into buffers that fit never fails or
  faults and stamps consecutive sequence numbers (dropped frames included), the backend's
  number and the requested geometry; the source continues after the last one.
\<close>

theorem backend_sequences:
  assumes "backend_ready s w" "\<forall>(now, b, d)\<in>set reqs. backend_fits s b d w"
  shows "\<exists>out s' w'. pull_frames ops_of reqs s w = Some (out, s', w') \<and> length out = length reqs \<and>
    s_seq s' = s_seq s + of_nat (length reqs) \<and>
    (\<forall>i<length reqs. fst (out ! i) = Inr () \<and> fd_sequence (snd (out ! i)) = s_seq s + of_nat i \<and>
      fd_backend_id (snd (out ! i)) = s_backend_id s \<and> same_geometry (snd (out ! i)) (snd (snd (reqs ! i))))"
proof -
  obtain t where t: "s_ops s = Some t" using assms(1) by (auto simp: backend_ready_def split: option.splits)
  show ?thesis
  proof (cases t)
    case Fixture_Ops
    then show ?thesis using fixture.pull_frames_stamps [where s = s and ops = t and tbl = ops_of and w = w and reqs = reqs] t by auto
  next
    case Synthetic_Ops
    then show ?thesis using synthetic.pull_frames_stamps [where s = s and ops = t and tbl = ops_of and w = w and reqs = reqs] t assms
      by (auto simp: backend_ready_def backend_fits_def)
  next
    case Vcam_Ops
    then show ?thesis using vcam.pull_frames_stamps [where s = s and ops = t and tbl = ops_of and w = w and reqs = reqs] t assms
      by (auto simp: backend_ready_def backend_fits_def)
  qed
qed

definition plain_buffer :: "nat \<Rightarrow> vpipe_buffer" where
  "plain_buffer blk = \<lparr>vb_index = 0, vb_memory = 1, vb_vaddr = Some (blk, 0), vb_plane_size = 4, vb_payload = 0,
     vb_timestamp = 0, vb_field = 0, vb_flags = 0, vb_sequence = 0, b_src_sequence = 0, b_algo_id = 0,
     b_threshold = 0, b_roi = \<lparr>roi_left = 0, roi_top = 0, roi_width = 0, roi_height = 0\<rparr>,
     b_src_desc = zero_frame_desc, b_qbuf_ns = 0, b_meta_pending = zero_meta_entry\<rparr>"

definition small_desc :: vpipe_frame_desc where
  "small_desc = zero_frame_desc\<lparr>fd_width := 2, fd_height := 2, fd_stride := 2\<rparr>"

definition small_world :: kworld where
  "small_world = \<lparr>kw_mem = [3 \<mapsto> [9, 9, 9, 9], 4 \<mapsto> [7, 7, 7, 7]], kw_fbs = (\<lambda>_. None), kw_dmabufs = (\<lambda>_. None)\<rparr>"

definition small_source :: source where
  "small_source = \<lparr>s_backend_id = 2, s_ops = Some Synthetic_Ops, s_priv = None, s_seq = 0, s_name = Some ''synthetic''\<rparr>"

definition small_env :: kenv where
  "small_env = \<lparr>ke_priv = True, ke_fb = Some 10, ke_vmalloc = Some 20, ke_now = 1000, ke_export = Inr 30,
     ke_fd = Inr 5, ke_synthetic_drop_every = 2, ke_vcam_fps = 30, ke_vcam_drop_every = 0\<rparr>"

lemma small_fits: "plane_fits (plain_buffer 3) small_desc (kw_mem small_world)"
  "plane_fits (plain_buffer 4) small_desc (kw_mem small_world)"
  by (simp_all add: plane_fits_def plain_buffer_def small_desc_def small_world_def)

theorem backend_sequences_witness:
  "\<exists>out s' w'. pull_frames ops_of [(5, plain_buffer 3, small_desc), (6, plain_buffer 4, small_desc)]
      (small_source\<lparr>s_priv := Some (Synthetic_Priv (synthetic_at 2 0))\<rparr>) small_world = Some (out, s', w') \<and>
    length out = 2 \<and> s_seq s' = 2 \<and> fd_sequence (snd (out ! 1)) = 1 \<and> fd_backend_id (snd (out ! 1)) = 2"
proof -
  let ?s = "small_source\<lparr>s_priv := Some (Synthetic_Priv (synthetic_at 2 0))\<rparr>"
  let ?reqs = "[(5 :: u64, plain_buffer 3, small_desc), (6, plain_buffer 4, small_desc)]"
  have "backend_ready ?s small_world" "\<forall>(now, b, d)\<in>set ?reqs. backend_fits ?s b d small_world"
    by (simp_all add: backend_ready_def backend_fits_def small_source_def small_fits)
  from backend_sequences [OF this] obtain out s' w' where
    run: "pull_frames ops_of ?reqs ?s small_world = Some (out, s', w')" "length out = length ?reqs"
      "s_seq s' = s_seq ?s + of_nat (length ?reqs)"
    and each: "\<forall>i<length ?reqs. fst (out ! i) = Inr () \<and> fd_sequence (snd (out ! i)) = s_seq ?s + of_nat i \<and>
      fd_backend_id (snd (out ! i)) = s_backend_id ?s \<and> same_geometry (snd (out ! i)) (snd (snd (?reqs ! i)))"
    by blast
  from each have "fd_sequence (snd (out ! 1)) = 1 \<and> fd_backend_id (snd (out ! 1)) = 2"
    by (auto simp: small_source_def)
  with run show ?thesis by (simp add: small_source_def)
qed

section \<open>The frame streams\<close>

text \<open>
  C21.  The synthetic stream.  After a successful start, a run of fewer than \<open>2 ^ 32\<close> requests
  into distinct buffers that fit serves each one: request \<open>i\<close> (from 1) is flagged as dropped
  and its buffer left alone exactly when the drop period divides \<open>i\<close>, otherwise its buffer
  holds the gradient whose base is the number of frames drawn so far, byte for byte; no
  other memory changes.
\<close>

theorem synthetic_stream:
  assumes "s_ops s = Some Synthetic_Ops" "ke_priv env" "length reqs < 2 ^ 32"
    "\<forall>(now, b, d)\<in>set reqs. plane_fits b d (kw_mem w)" "distinct (map request_block reqs)"
  shows "\<exists>s1 out s' w'. vpipe_source_start ops_of env (Some s) ctx w = Some (Inr (), Some s1, w) \<and>
    pull_frames ops_of reqs s1 w = Some (out, s', w') \<and>
    (\<forall>a. a \<notin> request_block ` set reqs \<longrightarrow> kw_mem w' a = kw_mem w a) \<and>
    (\<forall>i<length reqs. frame_outcome (ke_synthetic_drop_every env) (Suc i) (kw_mem w) (kw_mem w') (reqs ! i) (out ! i))"
proof -
  let ?s = "s\<lparr>s_priv := Some (Synthetic_Priv (synthetic_at (ke_synthetic_drop_every env) 0))\<rparr>"
  have "vpipe_source_start ops_of env (Some s) ctx w = Some (Inr (), Some ?s, w)"
    using assms(1,2) by (simp add: vpipe_source_start_def synthetic_ops_def synthetic_start_at)
  moreover have "s_ops ?s = Some Synthetic_Ops" using assms(1) by simp
  ultimately show ?thesis
    using synthetic_run [of ?s Synthetic_Ops ops_of "ke_synthetic_drop_every env" 0 reqs w] assms(3-5) by auto
qed

theorem synthetic_stream_witness:
  "\<exists>s1 out s' w'. vpipe_source_start ops_of small_env (Some small_source) None small_world = Some (Inr (), Some s1, small_world) \<and>
    pull_frames ops_of [(5, plain_buffer 3, small_desc), (6, plain_buffer 4, small_desc)] s1 small_world = Some (out, s', w') \<and>
    kw_mem w' 3 = Some [0, 1, 1, 2] \<and> kw_mem w' 4 = Some [7, 7, 7, 7] \<and> fd_flags (snd (out ! 1)) = VPIPE_FRAME_FLAG_DROPPED"
proof -
  let ?reqs = "[(5 :: u64, plain_buffer 3, small_desc), (6, plain_buffer 4, small_desc)]"
  have blocks: "request_block (t, plain_buffer k, d) = k" for t k d
    by (simp add: request_block_def plane_block_def plain_buffer_def)
  have pic: "draw 0 0 2 2 2 (gradient 0) [9, 9, 9, 9] = [0, 1, 1, 2]"
    by (simp add: draw_def gradient_def upt_rec)
  have "s_ops small_source = Some Synthetic_Ops" "ke_priv small_env" "length ?reqs < 2 ^ 32"
    "\<forall>(now, b, d)\<in>set ?reqs. plane_fits b d (kw_mem small_world)" "distinct (map request_block ?reqs)"
    by (simp_all add: small_source_def small_env_def small_fits blocks)
  from synthetic_stream [OF this, of None] obtain s1 out s' w' where
    run: "vpipe_source_start ops_of small_env (Some small_source) None small_world = Some (Inr (), Some s1, small_world)"
      "pull_frames ops_of ?reqs s1 small_world = Some (out, s', w')"
    and each: "\<forall>i<length ?reqs. frame_outcome (ke_synthetic_drop_every small_env) (Suc i)
      (kw_mem small_world) (kw_mem w') (?reqs ! i) (out ! i)"
    by blast
  have "frame_outcome 2 1 (kw_mem small_world) (kw_mem w') (?reqs ! 0) (out ! 0)"
    "frame_outcome 2 (Suc 1) (kw_mem small_world) (kw_mem w') (?reqs ! 1) (out ! 1)"
    using each [rule_format, of 0] each [rule_format, of 1] by (simp_all add: small_env_def)
  then have "kw_mem w' 3 = Some [0, 1, 1, 2] \<and> kw_mem w' 4 = Some [7, 7, 7, 7] \<and>
      fd_flags (snd (out ! 1)) = VPIPE_FRAME_FLAG_DROPPED"
    by (simp add: frame_outcome_def blocks dropped_def drawn_def small_world_def small_desc_def pic)
  with run show ?thesis by blast
qed

lemma vcam_run:
  assumes "s_ops s = Some Vcam_Ops" "s_priv s = Some (Vcam_Priv (vcam_at a period base interval n))"
    "vcam_ready s w" "\<forall>(now, b, d)\<in>set reqs. vcam_fits s b d w" "n + length reqs < 2 ^ 32"
    "\<forall>i<length reqs. base + of_nat (n + i) * interval \<noteq> 0"
  shows "\<exists>out s' w'. pull_frames ops_of reqs s w = Some (out, s', w') \<and>
    (\<forall>i<length reqs. fst (out ! i) = Inr () \<and>
      fd_flags (snd (out ! i)) = (if dropped (unat period) (n + i) then VPIPE_FRAME_FLAG_DROPPED else 0) \<and>
      fd_source_timestamp_ns (snd (out ! i)) = base + of_nat (n + i) * interval)"
  using assms
proof (induction reqs arbitrary: s w n)
  case (Cons q reqs)
  obtain now b d where q: "q = (now, b, d)" by (cases q)
  have fit: "vcam_fits s b d w" using Cons.prems(4) q by simp
  then obtain blk xs where v: "vb_vaddr b = Some (blk, 0)" "kw_mem w blk = Some xs"
    by (auto simp: vcam_fits_def plane_fits_def)
  obtain fb P where fb: "kw_fbs w a = Some fb" "kw_mem w (fb_vaddr fb) = Some P" "length P = unat (fb_size fb)"
    using Cons.prems(2,3) by (auto simp: vcam_ready_def vcam_at_def)
  have n: "n < 2 ^ 32" and ts: "base + of_nat n * interval \<noteq> 0" using Cons.prems(5,6) by auto
  have nf: "op_next_frame (ops_of Vcam_Ops) = Some vcam_next_frame" by simp
  from vcam_step [where tbl = ops_of, OF Cons.prems(1) nf Cons.prems(2) n fb fit v ts] obtain s1 d1 w1 where
    step: "vpipe_source_next_frame ops_of now (Some s) (Some b) (Some d) w = Some (Inr (), Some s1, Some d1, w1)"
    and s1: "s_ops s1 = Some Vcam_Ops" "s_priv s1 = Some (Vcam_Priv (vcam_at a period base interval (Suc n)))"
    and d1: "fd_flags d1 = (if dropped (unat period) n then VPIPE_FRAME_FLAG_DROPPED else 0)"
      "fd_source_timestamp_ns d1 = base + of_nat n * interval"
    by blast
  from vcam.next_frame_stamps [where tbl = ops_of, OF Cons.prems(1) nf Cons.prems(3) fit, of now] step
  have keep: "vcam_ready s1 w1" "\<forall>b d. vcam_fits s b d w \<longrightarrow> vcam_fits s1 b d w1" by auto
  have "\<forall>(now, b, d)\<in>set reqs. vcam_fits s1 b d w1" "Suc n + length reqs < 2 ^ 32" using Cons.prems(4,5) keep(2) by auto
  moreover have "\<forall>i<length reqs. base + of_nat (Suc n + i) * interval \<noteq> 0"
    using Cons.prems(6) [rule_format, of "Suc _"] by (simp only: add_Suc_right add_Suc length_Cons Suc_less_eq) simp
  ultimately obtain out s' w' where run: "pull_frames ops_of reqs s1 w1 = Some (out, s', w')" and
    each: "\<forall>i<length reqs. fst (out ! i) = Inr () \<and>
      fd_flags (snd (out ! i)) = (if dropped (unat period) (Suc n + i) then VPIPE_FRAME_FLAG_DROPPED else 0) \<and>
      fd_source_timestamp_ns (snd (out ! i)) = base + of_nat (Suc n + i) * interval"
    using Cons.IH [OF s1 keep(1)] by blast
  have "pull_frames ops_of (q # reqs) s w = Some ((Inr (), d1) # out, s', w')" using step run by (simp add: q)
  then show ?case using each d1 by (auto simp: less_Suc_eq_0_disj add.assoc add.left_commute)
qed simp

lemma vcam_start_at:
  assumes "q_sizeimage (c_out_q c) \<noteq> 0" "ke_priv env" "ke_fb env = Some a" "ke_vmalloc env = Some blk"
  defines "interval \<equiv> (if ke_vcam_fps env \<noteq> 0 then NSEC_PER_SEC div ucast (ke_vcam_fps env) else 0)"
  shows "\<exists>w'. vpipe_source_start ops_of env (Some (s\<lparr>s_ops := Some Vcam_Ops\<rparr>)) (Some c) w = Some (Inr (),
      Some (s\<lparr>s_ops := Some Vcam_Ops,
        s_priv := Some (Vcam_Priv (vcam_at a (ke_vcam_drop_every env) (ke_now env) interval 0))\<rparr>), w') \<and>
    kw_fbs w' a = Some \<lparr>fb_refcount = 1, fb_vaddr = blk, fb_size = PAGE_ALIGN (ucast (q_sizeimage (c_out_q c)))\<rparr> \<and>
    kw_mem w' = (kw_mem w)(blk \<mapsto> replicate (unat (PAGE_ALIGN (ucast (q_sizeimage (c_out_q c))))) 0)"
  using assms
  by (simp add: vpipe_source_start_def vcam_ops_def vcam_start_def vcam_fb_alloc_def Let_def vcam_at_def vdrawn_def)

lemma vcam_start_fits:
  assumes "plane_fits b d m" "unat (fd_height d) * unat (fd_stride d) \<le> unat (sz :: u32)" "m blk = None"
    and w: "kw_fbs w a = Some \<lparr>fb_refcount = 1, fb_vaddr = blk, fb_size = PAGE_ALIGN (ucast sz)\<rparr>"
      "kw_mem w = m(blk \<mapsto> replicate (unat (PAGE_ALIGN (ucast sz))) 0)"
    and s: "s_priv s = Some (Vcam_Priv (vcam_at a period base interval 0))"
  shows "vcam_fits s b d w" "vcam_ready s w"
proof -
  have "unat sz < 2 ^ 32" using unsigned_less [of sz] by simp
  then have "unat sz \<le> unat (PAGE_ALIGN (ucast sz))"
    using PAGE_ALIGN_bounds(2) [of "ucast sz"] by (simp add: unat_ucast_widen)
  moreover have "plane_fits b d (kw_mem w)" using assms(1,3) w(2) by (auto simp: plane_fits_def)
  ultimately show "vcam_fits s b d w" using assms(2) w(1) s by (auto simp: vcam_fits_def vcam_at_def)
  show "vcam_ready s w" using w s by (auto simp: vcam_ready_def vcam_at_def)
qed

text \<open>
  C22.  The vcam cadence.  After a successful start the framebuffer is large enough for every
  frame of the negotiated size, and a run of requests is served with the timestamps of a
  camera: request \<open>i\<close> (from 0) carries the start time plus \<open>i\<close> frame intervals, dropped frames
  included, and is flagged as dropped exactly when the drop period divides \<open>i\<close>, so the first
  frame is always a dropped one when dropping is on.
\<close>

theorem vcam_cadence:
  assumes ctx: "q_sizeimage (c_out_q c) = sz" "sz \<noteq> 0"
    and env: "ke_priv env" "ke_fb env = Some a" "ke_vmalloc env = Some blk" "kw_mem w blk = None"
    and s: "s_ops s = Some Vcam_Ops" "s_priv s = None" and len: "length reqs < 2 ^ 32"
    and fit: "\<forall>(now, b, d)\<in>set reqs. plane_fits b d (kw_mem w) \<and> unat (fd_height d) * unat (fd_stride d) \<le> unat sz"
  defines "interval \<equiv> (if ke_vcam_fps env \<noteq> 0 then NSEC_PER_SEC div ucast (ke_vcam_fps env) else 0)"
  assumes ts: "\<forall>i<length reqs. ke_now env + of_nat i * interval \<noteq> 0"
  shows "\<exists>s1 w1 out s' w'. vpipe_source_start ops_of env (Some s) (Some c) w = Some (Inr (), Some s1, w1) \<and>
    pull_frames ops_of reqs s1 w1 = Some (out, s', w') \<and>
    (\<forall>i<length reqs. fst (out ! i) = Inr () \<and>
      fd_flags (snd (out ! i)) = (if dropped (unat (ke_vcam_drop_every env)) i then VPIPE_FRAME_FLAG_DROPPED else 0) \<and>
      fd_source_timestamp_ns (snd (out ! i)) = ke_now env + of_nat i * interval)"
proof -
  let ?s = "s\<lparr>s_priv := Some (Vcam_Priv (vcam_at a (ke_vcam_drop_every env) (ke_now env) interval 0))\<rparr>"
  have same: "s\<lparr>s_ops := Some Vcam_Ops\<rparr> = s" using s(1) by simp
  have "q_sizeimage (c_out_q c) \<noteq> 0" using ctx by simp
  from vcam_start_at [OF this env(1-3), of s w] obtain w1 where
    start: "vpipe_source_start ops_of env (Some s) (Some c) w = Some (Inr (), Some ?s, w1)"
    and w1: "kw_fbs w1 a = Some \<lparr>fb_refcount = 1, fb_vaddr = blk, fb_size = PAGE_ALIGN (ucast sz)\<rparr>"
      "kw_mem w1 = (kw_mem w)(blk \<mapsto> replicate (unat (PAGE_ALIGN (ucast sz))) 0)"
    by (auto simp: same ctx(1) interval_def)
  have sp: "s_priv ?s = Some (Vcam_Priv (vcam_at a (ke_vcam_drop_every env) (ke_now env) interval 0))" by simp
  have ready: "vcam_ready ?s w1" using w1 by (auto simp: vcam_ready_def vcam_at_def)
  have "\<forall>(now, b, d)\<in>set reqs. vcam_fits ?s b d w1"
    using fit vcam_start_fits(1) [OF _ _ env(4) w1 sp] by fastforce
  with vcam_run [of ?s a "ke_vcam_drop_every env" "ke_now env" interval 0 w1 reqs] ready s(1) len ts start
  show ?thesis by auto
qed

theorem vcam_cadence_witness:
  "\<exists>s1 w1 out s' w'.
    vpipe_source_start ops_of run_env (Some run_src) (Some run_ctx) small_world = Some (Inr (), Some s1, w1) \<and>
    pull_frames ops_of [(5, plain_buffer 3, small_desc), (6, plain_buffer 4, small_desc)] s1 w1 = Some (out, s', w') \<and>
    fd_source_timestamp_ns (snd (out ! 1)) = 33334333"
proof -
  let ?reqs = "[(5 :: u64, plain_buffer 3, small_desc), (6, plain_buffer 4, small_desc)]"
  have fit: "\<forall>(now, b, d)\<in>set ?reqs. plane_fits b d (kw_mem small_world) \<and>
      unat (fd_height d) * unat (fd_stride d) \<le> unat (307200 :: u32)"
    by (simp add: small_fits) (simp add: small_desc_def)
  have env: "ke_priv run_env" "ke_fb run_env = Some 10" "ke_vmalloc run_env = Some 20" "kw_mem small_world 20 = None"
    and ctx: "q_sizeimage (c_out_q run_ctx) = 307200" "(307200 :: u32) \<noteq> 0"
    and src: "s_ops run_src = Some Vcam_Ops" "s_priv run_src = None" and len: "length ?reqs < 2 ^ 32"
    by (simp_all add: run_env_def small_world_def run_ctx_def Let_def run_src_def)
  have ts: "\<forall>i<length ?reqs. ke_now run_env + of_nat i *
      (if ke_vcam_fps run_env \<noteq> 0 then NSEC_PER_SEC div ucast (ke_vcam_fps run_env) else 0) \<noteq> 0"
    by (auto simp: run_env_def less_Suc_eq)
  from vcam_cadence [OF ctx env src len fit ts] obtain s1 w1 out s' w' where
    run: "vpipe_source_start ops_of run_env (Some run_src) (Some run_ctx) small_world = Some (Inr (), Some s1, w1)"
      "pull_frames ops_of ?reqs s1 w1 = Some (out, s', w')"
    and each: "\<And>i. i < length ?reqs \<Longrightarrow> fd_source_timestamp_ns (snd (out ! i)) = ke_now run_env + of_nat i *
      (if ke_vcam_fps run_env \<noteq> 0 then NSEC_PER_SEC div ucast (ke_vcam_fps run_env) else 0)"
    by blast
  from each [of 1] have "fd_source_timestamp_ns (snd (out ! 1)) = 33334333" by (simp add: run_env_def)
  with run show ?thesis by blast
qed

section \<open>Scatter lists\<close>

lemma sg_fill_length: "sg_fill f blk is = Some ps \<Longrightarrow> length ps = length is"
  by (induction "is" arbitrary: ps) (auto split: bind_splits)

lemma sg_fill_nth: "sg_fill f blk is = Some ps \<Longrightarrow> i < length is \<Longrightarrow> f (blk, int (is ! i * 4096)) = Some (ps ! i)"
  by (induction "is" arbitrary: ps i) (auto simp: nth_Cons' split: bind_splits)

text \<open>
  C29.  Mapping an exported framebuffer for a device: whatever fails, the mapping leaves no
  scatter list behind; when it succeeds the list names the page behind every 4096-byte step
  of the framebuffer, in order and covering all of it, and unmapping returns the ledger of
  live lists to where it was.
\<close>

theorem vcam_dmabuf_map_balanced:
  assumes map: "vcam_dmabuf_map kz sg_err to_page dma_err fb led = (r, led')"
    and size: "unat (fb_size fb) mod 4096 = 0" "unat (fb_size fb) < 2 ^ 44"
  shows "case r of Inl e \<Rightarrow> led' = led
    | Inr pages \<Rightarrow> length pages * 4096 = unat (fb_size fb) \<and>
        (\<forall>i<length pages. to_page (fb_vaddr fb, int (i * 4096)) = Some (pages ! i)) \<and>
        vcam_dmabuf_unmap led' = led"
proof -
  have "unat (drop_bit 12 (fb_size fb)) = unat (fb_size fb) div 4096"
    using size(2) by (simp only: unsigned_drop_bit_eq) (simp add: drop_bit_eq_div take_bit_nat_eq_self)
  moreover have "unat (fb_size fb) div 4096 < 2 ^ 32" using size(2) by (simp add: div_less_iff_less_mult)
  ultimately have np: "unat (ucast (drop_bit 12 (fb_size fb)) :: u32) = unat (fb_size fb) div 4096"
    by (simp add: unsigned_ucast_eq take_bit_nat_eq_self)
  show ?thesis
    using map size(1) sg_fill_length [of to_page "fb_vaddr fb" "[0..<unat (fb_size fb) div 4096]"]
      sg_fill_nth [of to_page "fb_vaddr fb" "[0..<unat (fb_size fb) div 4096]"]
    by (cases led) (auto simp: vcam_dmabuf_map_def vcam_dmabuf_unmap_def Let_def np
        split: if_splits option.splits)
qed

theorem vcam_dmabuf_map_balanced_witness:
  "vcam_dmabuf_map True None (\<lambda>(b, i). Some (nat i)) None \<lparr>fb_refcount = 1, fb_vaddr = 20, fb_size = 8192\<rparr> (0, 0) =
     (Inr [0, 4096], (1, 1)) \<and> vcam_dmabuf_unmap (1, 1) = (0, 0)"
proof -
  have "vcam_dmabuf_map True None (\<lambda>(b, i). Some (nat i)) None \<lparr>fb_refcount = 1, fb_vaddr = 20, fb_size = 8192\<rparr> (0, 0) =
     (Inr [0, 4096], (1, 1))"
    by (simp add: vcam_dmabuf_map_def Let_def upt_rec)
  with vcam_dmabuf_map_balanced [OF this] show ?thesis by simp
qed

end
