(* ===== verification/M2m_Device.thy ===== *)
theory M2m_Device
  imports M2m_Format Tiny_Cv Meta_Ring Backends
begin

text \<open>
  The streaming half of the mem2mem device (kmod/vpipe-m2m.c): queueing a buffer with its
  snapshot of the controls and its frame from the source, running a job, handing metadata
  over at dequeue time, and starting and stopping the stream.

  The v4l2 mem2mem framework keeps the queues; its operations are the parameter \<open>api\<close> over
  an arbitrary state \<open>'q\<close>, and what the driver relies on is \<open>m2m_laws\<close>.  The driver state is
  one open file with the structures it points to; following a pointer to a freed structure
  or leaving a block is a fault, the result \<open>None\<close>.
\<close>

unbundle bit_operations_syntax

section \<open>The framework and the driver state\<close>

datatype vb2_state = VB2_BUF_STATE_DONE | VB2_BUF_STATE_ERROR

record 'q m2m_api =
  v4l2_m2m_next_src_buf :: "'q \<Rightarrow> nat option"
  v4l2_m2m_next_dst_buf :: "'q \<Rightarrow> nat option"
  v4l2_m2m_src_buf_remove :: "'q \<Rightarrow> nat option \<times> 'q"
  v4l2_m2m_dst_buf_remove :: "'q \<Rightarrow> nat option \<times> 'q"
  v4l2_m2m_buf_queue :: "buf_type \<Rightarrow> nat \<Rightarrow> 'q \<Rightarrow> 'q"
  v4l2_m2m_buf_done :: "nat \<Rightarrow> vb2_state \<Rightarrow> 'q \<Rightarrow> 'q"
  v4l2_m2m_job_finish :: "'q \<Rightarrow> 'q"
  v4l2_m2m_num_src_bufs_ready :: "'q \<Rightarrow> u32"

text \<open>
  The context of the open file, the framework's queues, the buffers and sources by address,
  the byte memory and framebuffers, the metadata device and the device's frame counter.
\<close>

record 'q vdrv =
  d_ctx :: vpipe_ctx
  d_q :: 'q
  d_bufs :: "nat \<rightharpoonup> vpipe_buffer"
  d_srcs :: "nat \<rightharpoonup> source"
  d_kw :: kworld
  d_meta :: vpipe_meta_dev
  d_sequence :: u64

text \<open>Following \<open>ctx->src\<close>: \<open>Some None\<close> is a null pointer, \<open>None\<close> a freed structure.\<close>

definition ctx_src :: "'q vdrv \<Rightarrow> source option option" where
  "ctx_src s = (case c_src (d_ctx s) of None \<Rightarrow> Some None | Some p \<Rightarrow> map_option Some (d_srcs s p))"

definition put_src :: "source option \<Rightarrow> 'q vdrv \<Rightarrow> 'q vdrv" where
  "put_src src s = (case (c_src (d_ctx s), src) of
     (Some p, Some v) \<Rightarrow> s\<lparr>d_srcs := (d_srcs s)(p \<mapsto> v)\<rparr> | _ \<Rightarrow> s)"

section \<open>Operations\<close>

text \<open>\<open>qbuf_now\<close> and \<open>src_now\<close>: the two readings of the clock.\<close>

definition vpipe_buf_queue :: "'q m2m_api \<Rightarrow> u64 \<Rightarrow> u64 \<Rightarrow> buf_type \<Rightarrow> nat \<Rightarrow> 'q vdrv \<Rightarrow> 'q vdrv option" where
  "vpipe_buf_queue api qbuf_now src_now type a s = do {
     buf \<leftarrow> d_bufs s a;
     s \<leftarrow> (if V4L2_TYPE_IS_OUTPUT type then do {
        let ctx = d_ctx s;
        let buf = buf\<lparr>b_src_sequence := c_src_sequence ctx, b_algo_id := c_algo_id ctx,
               b_threshold := c_threshold ctx, b_roi := c_roi ctx,
               b_src_desc := (b_src_desc buf)\<lparr>fd_width := q_width (c_out_q ctx), fd_height := q_height (c_out_q ctx),
                 fd_stride := q_bytesperline (c_out_q ctx)\<rparr>,
               b_qbuf_ns := qbuf_now\<rparr>;
        src \<leftarrow> ctx_src s;
        (ret, src, desc, w) \<leftarrow> vpipe_source_next_frame ops_of src_now src (Some buf) (Some (b_src_desc buf)) (d_kw s);
        let buf = (case desc of Some d \<Rightarrow> buf\<lparr>b_src_desc := d\<rparr> | None \<Rightarrow> buf);
        Some (put_src src (s\<lparr>d_bufs := (d_bufs s)(a \<mapsto> buf), d_kw := w\<rparr>)) }
      else Some s);
     Some (s\<lparr>d_q := v4l2_m2m_buf_queue api type a (d_q s)\<rparr>) }"

definition vpipe_start_streaming :: "kenv \<Rightarrow> buf_type \<Rightarrow> 'q vdrv \<Rightarrow> (unit result \<times> 'q vdrv) option" where
  "vpipe_start_streaming env type s =
     (if V4L2_TYPE_IS_OUTPUT type then do {
        src \<leftarrow> ctx_src s;
        (r, src, w) \<leftarrow> vpipe_source_start ops_of env src (Some (d_ctx s)) (d_kw s);
        Some (r, put_src src (s\<lparr>d_kw := w\<rparr>)) }
      else Some (Inr (), s))"

partial_function (option) vpipe_return_all_buffers :: "'q m2m_api \<Rightarrow> buf_type \<Rightarrow> 'q \<Rightarrow> 'q option" where
  "vpipe_return_all_buffers api type q =
     (case (if V4L2_TYPE_IS_OUTPUT type then v4l2_m2m_src_buf_remove api q else v4l2_m2m_dst_buf_remove api q) of
        (None, q) \<Rightarrow> Some q
      | (Some vbuf, q) \<Rightarrow> vpipe_return_all_buffers api type (v4l2_m2m_buf_done api vbuf VB2_BUF_STATE_ERROR q))"

definition vpipe_stop_streaming :: "'q m2m_api \<Rightarrow> buf_type \<Rightarrow> 'q vdrv \<Rightarrow> 'q vdrv option" where
  "vpipe_stop_streaming api type s = do {
     s \<leftarrow> (if V4L2_TYPE_IS_OUTPUT type then do {
        src \<leftarrow> ctx_src s;
        (src, w) \<leftarrow> vpipe_source_stop ops_of src (d_kw s);
        Some (put_src src (s\<lparr>d_kw := w\<rparr>)) }
      else Some s);
     q \<leftarrow> vpipe_return_all_buffers api type (d_q s);
     Some (s\<lparr>d_q := q\<rparr>) }"

definition vpipe_buf_finish :: "u64 \<Rightarrow> buf_type \<Rightarrow> nat \<Rightarrow> 'q vdrv \<Rightarrow> 'q vdrv option" where
  "vpipe_buf_finish now type a s = do {
     buf \<leftarrow> d_bufs s a;
     if V4L2_TYPE_IS_OUTPUT type then Some s
     else if me_seq (b_meta_pending buf) = 0 then Some s
     else let entry = (b_meta_pending buf)\<lparr>me_dqbuf_timestamp_ns := now\<rparr>
          in Some (s\<lparr>d_meta := vpipe_meta_publish entry (d_meta s),
                     d_bufs := (d_bufs s)(a \<mapsto> buf\<lparr>b_meta_pending := entry\<lparr>me_seq := 0\<rparr>\<rparr>)\<rparr>) }"

abbreviation (input) V4L2_BUF_FLAG_TIMECODE :: u32 where "V4L2_BUF_FLAG_TIMECODE \<equiv> 0x100"

text \<open>The end of a job that failed: both buffers go back in the error state.\<close>

definition job_failed :: "'q m2m_api \<Rightarrow> 'q \<Rightarrow> 'q option" where
  "job_failed api q = do {
     let (src_vbuf, q) = v4l2_m2m_src_buf_remove api q;
     let (dst_vbuf, q) = v4l2_m2m_dst_buf_remove api q;
     src_vbuf \<leftarrow> src_vbuf;
     dst_vbuf \<leftarrow> dst_vbuf;
     let q = v4l2_m2m_buf_done api src_vbuf VB2_BUF_STATE_ERROR q;
     let q = v4l2_m2m_buf_done api dst_vbuf VB2_BUF_STATE_ERROR q;
     Some (v4l2_m2m_job_finish api q) }"

text \<open>
  The metadata entry of a finished frame: the source buffer, the destination buffer as
  completed, the result of the image step, the frame number, the image size, the checksum,
  the queue depth and the processor.
\<close>

definition frame_meta ::
    "vpipe_buffer \<Rightarrow> vpipe_buffer \<Rightarrow> u32 \<Rightarrow> vpipe_cv_result \<Rightarrow> u64 \<Rightarrow> u32 \<Rightarrow> u32 \<Rightarrow> u32 \<Rightarrow> u32 \<Rightarrow> vpipe_meta_entry" where
  "frame_meta src_buf dst_vbuf src_memory cv seq sizeimage crc depth cpu =
     zero_meta_entry\<lparr>me_version := VPIPE_META_VERSION, me_entry_size := of_nat sizeof_meta_entry, me_seq := seq,
       me_src_v4l2_sequence := b_src_sequence src_buf, me_buffer_index := vb_index dst_vbuf,
       me_source_timestamp_ns := fd_source_timestamp_ns (b_src_desc src_buf), me_qbuf_timestamp_ns := b_qbuf_ns src_buf,
       me_capture_done_ns := vb_timestamp dst_vbuf, me_dqbuf_timestamp_ns := 0, me_bytesused := sizeimage,
       me_crc32 := crc, me_algo_id := b_algo_id src_buf, me_algo_status := cv_algo_status cv,
       me_roi_left := roi_left (cv_roi cv), me_roi_top := roi_top (cv_roi cv), me_roi_width := roi_width (cv_roi cv),
       me_roi_height := roi_height (cv_roi cv), me_algo_value0 := cv_value0 cv, me_algo_value1 := cv_value1 cv,
       me_source_backend := fd_backend_id (b_src_desc src_buf), me_buffer_type := src_memory,
       me_queue_depth := depth, me_cpu_id := cpu,
       me_flags := (if fd_flags (b_src_desc src_buf) AND VPIPE_FRAME_FLAG_DROPPED \<noteq> 0 then VPIPE_META_F_DROPPED else 0)\<rparr>"

text \<open>
  \<open>crc32_le\<close>, \<open>now\<close> and \<open>cpu\<close>: the kernel's checksum routine on a byte range, the clock and the
  processor number.
\<close>

definition vpipe_device_run ::
    "'q m2m_api \<Rightarrow> (u32 \<Rightarrow> u8 list \<Rightarrow> u32) \<Rightarrow> u64 \<Rightarrow> u32 \<Rightarrow> 'q vdrv \<Rightarrow> 'q vdrv option" where
  "vpipe_device_run api crc32_le now cpu s =
     (case (v4l2_m2m_next_src_buf api (d_q s), v4l2_m2m_next_dst_buf api (d_q s)) of
        (Some sa, Some da) \<Rightarrow> do {
          src_buf \<leftarrow> d_bufs s sa;
          dst_buf \<leftarrow> d_bufs s da;
          case (vb_vaddr src_buf, vb_vaddr dst_buf) of
            (Some src_addr, Some dst_addr) \<Rightarrow> do {
              let ctx = d_ctx s;
              let job = \<lparr>j_src = src_addr, j_dst = dst_addr, j_width = q_width (c_out_q ctx), j_height = q_height (c_out_q ctx),
                         j_src_stride = q_bytesperline (c_out_q ctx), j_dst_stride = q_bytesperline (c_cap_q ctx)\<rparr>;
              (ret, m) \<leftarrow> vpipe_cv_process job (b_algo_id src_buf) (b_threshold src_buf) (Some (b_roi src_buf)) (kw_mem (d_kw s));
              let s = s\<lparr>d_kw := (d_kw s)\<lparr>kw_mem := m\<rparr>\<rparr>;
              case ret of
                Inl e \<Rightarrow> do { q \<leftarrow> job_failed api (d_q s); Some (s\<lparr>d_q := q\<rparr>) }
              | Inr cv \<Rightarrow> do {
                  let (sa', q) = v4l2_m2m_src_buf_remove api (d_q s);
                  let (da', q) = v4l2_m2m_dst_buf_remove api q;
                  sa' \<leftarrow> sa'; da' \<leftarrow> da';
                  src_vbuf \<leftarrow> d_bufs s sa'; dst_vbuf \<leftarrow> d_bufs s da';
                  let seq = d_sequence s + 1;
                  let sizeimage = q_sizeimage (c_cap_q ctx);
                  let dst_vbuf = dst_vbuf\<lparr>vb_payload := unat sizeimage, vb_field := V4L2_FIELD_NONE, vb_timestamp := now,
                        vb_flags := vb_flags src_vbuf AND V4L2_BUF_FLAG_TIMECODE, vb_sequence := ucast seq\<rparr>;
                  bytes \<leftarrow> load_bytes m dst_addr (unat sizeimage);
                  let meta = frame_meta src_buf dst_vbuf (vb_memory src_vbuf) cv seq sizeimage
                        (NOT (crc32_le (NOT 0) bytes)) (v4l2_m2m_num_src_bufs_ready api q) cpu;
                  let q = v4l2_m2m_buf_done api sa' VB2_BUF_STATE_DONE q;
                  let q = v4l2_m2m_buf_done api da' VB2_BUF_STATE_DONE q;
                  Some (s\<lparr>d_sequence := seq, d_bufs := (d_bufs s)(da' \<mapsto> dst_vbuf\<lparr>b_meta_pending := meta\<rparr>),
                    d_q := v4l2_m2m_job_finish api q\<rparr>) } }
          | _ \<Rightarrow> do { q \<leftarrow> job_failed api (d_q s); Some (s\<lparr>d_q := q\<rparr>) } }
      | _ \<Rightarrow> Some s)"

definition vpipe_job_abort :: "'q m2m_api \<Rightarrow> 'q vdrv \<Rightarrow> 'q vdrv" where
  "vpipe_job_abort api s = s\<lparr>d_q := v4l2_m2m_job_finish api (d_q s)\<rparr>"

end
