(* ===== verification/M2m_Jobs.thy ===== *)
theory M2m_Jobs
  imports M2m_Device
begin

text \<open>
  Correctness of the streaming half of the mem2mem device: what the driver relies on from
  the framework, the picture and metadata a job produces, its error paths, the isolation of
  queued frames from later control changes, the one-shot publication of metadata, and the
  return of all buffers at the end of a stream.
\<close>

unbundle bit_operations_syntax

section \<open>What the driver relies on\<close>

text \<open>
  The documented behaviour of the framework's queues, through three views of its state: the
  two lists of ready buffers in queueing order and the log of completed ones.
\<close>

definition m2m_laws ::
    "'q m2m_api \<Rightarrow> ('q \<Rightarrow> nat list) \<Rightarrow> ('q \<Rightarrow> nat list) \<Rightarrow> ('q \<Rightarrow> (nat \<times> vb2_state) list) \<Rightarrow> bool" where
  "m2m_laws api srcs dsts dones \<longleftrightarrow> (\<forall>q.
     v4l2_m2m_next_src_buf api q = (case srcs q of [] \<Rightarrow> None | a # _ \<Rightarrow> Some a) \<and>
     v4l2_m2m_next_dst_buf api q = (case dsts q of [] \<Rightarrow> None | a # _ \<Rightarrow> Some a) \<and>
     fst (v4l2_m2m_src_buf_remove api q) = v4l2_m2m_next_src_buf api q \<and>
     srcs (snd (v4l2_m2m_src_buf_remove api q)) = tl (srcs q) \<and>
     dsts (snd (v4l2_m2m_src_buf_remove api q)) = dsts q \<and>
     dones (snd (v4l2_m2m_src_buf_remove api q)) = dones q \<and>
     fst (v4l2_m2m_dst_buf_remove api q) = v4l2_m2m_next_dst_buf api q \<and>
     srcs (snd (v4l2_m2m_dst_buf_remove api q)) = srcs q \<and>
     dsts (snd (v4l2_m2m_dst_buf_remove api q)) = tl (dsts q) \<and>
     dones (snd (v4l2_m2m_dst_buf_remove api q)) = dones q \<and>
     (\<forall>t a. srcs (v4l2_m2m_buf_queue api t a q) = (if V4L2_TYPE_IS_OUTPUT t then srcs q @ [a] else srcs q) \<and>
        dsts (v4l2_m2m_buf_queue api t a q) = (if V4L2_TYPE_IS_OUTPUT t then dsts q else dsts q @ [a]) \<and>
        dones (v4l2_m2m_buf_queue api t a q) = dones q) \<and>
     (\<forall>a st. srcs (v4l2_m2m_buf_done api a st q) = srcs q \<and> dsts (v4l2_m2m_buf_done api a st q) = dsts q \<and>
        dones (v4l2_m2m_buf_done api a st q) = dones q @ [(a, st)]) \<and>
     srcs (v4l2_m2m_job_finish api q) = srcs q \<and> dsts (v4l2_m2m_job_finish api q) = dsts q \<and>
     dones (v4l2_m2m_job_finish api q) = dones q \<and>
     v4l2_m2m_num_src_bufs_ready api q = of_nat (length (srcs q)))"

lemma m2m_lawsD:
  assumes "m2m_laws api srcs dsts dones"
  shows "v4l2_m2m_next_src_buf api q = (case srcs q of [] \<Rightarrow> None | a # _ \<Rightarrow> Some a)"
    "v4l2_m2m_next_dst_buf api q = (case dsts q of [] \<Rightarrow> None | a # _ \<Rightarrow> Some a)"
    "fst (v4l2_m2m_src_buf_remove api q) = (case srcs q of [] \<Rightarrow> None | a # _ \<Rightarrow> Some a)"
    "srcs (snd (v4l2_m2m_src_buf_remove api q)) = tl (srcs q)"
    "dsts (snd (v4l2_m2m_src_buf_remove api q)) = dsts q"
    "dones (snd (v4l2_m2m_src_buf_remove api q)) = dones q"
    "fst (v4l2_m2m_dst_buf_remove api q) = (case dsts q of [] \<Rightarrow> None | a # _ \<Rightarrow> Some a)"
    "srcs (snd (v4l2_m2m_dst_buf_remove api q)) = srcs q"
    "dsts (snd (v4l2_m2m_dst_buf_remove api q)) = tl (dsts q)"
    "dones (snd (v4l2_m2m_dst_buf_remove api q)) = dones q"
    "srcs (v4l2_m2m_buf_queue api t a q) = (if V4L2_TYPE_IS_OUTPUT t then srcs q @ [a] else srcs q)"
    "dsts (v4l2_m2m_buf_queue api t a q) = (if V4L2_TYPE_IS_OUTPUT t then dsts q else dsts q @ [a])"
    "dones (v4l2_m2m_buf_queue api t a q) = dones q"
    "srcs (v4l2_m2m_buf_done api a st q) = srcs q"
    "dsts (v4l2_m2m_buf_done api a st q) = dsts q"
    "dones (v4l2_m2m_buf_done api a st q) = dones q @ [(a, st)]"
    "srcs (v4l2_m2m_job_finish api q) = srcs q"
    "dsts (v4l2_m2m_job_finish api q) = dsts q"
    "dones (v4l2_m2m_job_finish api q) = dones q"
    "v4l2_m2m_num_src_bufs_ready api q = of_nat (length (srcs q))"
  using assms unfolding m2m_laws_def by simp_all

text \<open>Queues kept as lists have these laws; the examples below run on them.\<close>

record list_q =
  lq_srcs :: "nat list"
  lq_dsts :: "nat list"
  lq_dones :: "(nat \<times> vb2_state) list"

definition list_api :: "list_q m2m_api" where
  "list_api = \<lparr>v4l2_m2m_next_src_buf = (\<lambda>q. case lq_srcs q of [] \<Rightarrow> None | a # _ \<Rightarrow> Some a),
     v4l2_m2m_next_dst_buf = (\<lambda>q. case lq_dsts q of [] \<Rightarrow> None | a # _ \<Rightarrow> Some a),
     v4l2_m2m_src_buf_remove = (\<lambda>q. (case lq_srcs q of [] \<Rightarrow> None | a # _ \<Rightarrow> Some a, q\<lparr>lq_srcs := tl (lq_srcs q)\<rparr>)),
     v4l2_m2m_dst_buf_remove = (\<lambda>q. (case lq_dsts q of [] \<Rightarrow> None | a # _ \<Rightarrow> Some a, q\<lparr>lq_dsts := tl (lq_dsts q)\<rparr>)),
     v4l2_m2m_buf_queue = (\<lambda>t a q. if V4L2_TYPE_IS_OUTPUT t then q\<lparr>lq_srcs := lq_srcs q @ [a]\<rparr> else q\<lparr>lq_dsts := lq_dsts q @ [a]\<rparr>),
     v4l2_m2m_buf_done = (\<lambda>a st q. q\<lparr>lq_dones := lq_dones q @ [(a, st)]\<rparr>),
     v4l2_m2m_job_finish = (\<lambda>q. q),
     v4l2_m2m_num_src_bufs_ready = (\<lambda>q. of_nat (length (lq_srcs q)))\<rparr>"

lemma list_api_laws: "m2m_laws list_api lq_srcs lq_dsts lq_dones"
  by (simp add: m2m_laws_def list_api_def)

section \<open>A job\<close>

text \<open>A plane mapped at the start of a block of the plane's size.\<close>

definition plane_at :: "mem \<Rightarrow> vpipe_buffer \<Rightarrow> nat \<Rightarrow> u8 list \<Rightarrow> bool" where
  "plane_at m b blk xs \<longleftrightarrow> vb_vaddr b = Some (blk, 0) \<and> m blk = Some xs \<and> length xs = vb_plane_size b"

definition prepared :: "vpipe_ctx \<Rightarrow> buf_type \<Rightarrow> vpipe_buffer \<Rightarrow> bool" where
  "prepared ctx type b \<longleftrightarrow> fst (vpipe_buf_prepare ctx type b) = Inr ()"

definition job_picture :: "vpipe_ctx \<Rightarrow> vpipe_buffer \<Rightarrow> u8 list \<Rightarrow> u8 list" where
  "job_picture ctx b S =
     (let w = unat (q_width (c_out_q ctx)); h = unat (q_height (c_out_q ctx));
          win = roi_window w h (roi_ints (Some (b_roi b)))
      in map (\<lambda>i. cv_pixel (b_algo_id b) (b_threshold b) win w S (i mod w) (i div w)) [0..<h * w])"

lemma draw_image:
  assumes "0 < w" "h * w \<le> length D"
  shows "draw 0 0 w h w f D = map (\<lambda>i. f (i mod w) (i div w)) [0..<h * w] @ drop (h * w) D"
  using assms by (intro nth_equalityI) (auto simp: nth_draw nth_append less_mult_imp_div_less div_less_iff_less_mult)

lemma prepared_job_ok:
  assumes fmt: "fmt_ok ctx" and prep: "prepared ctx t src" "prepared ctx t' dst"
    and pl: "plane_at m src sb S" "plane_at m dst db D" "sb \<noteq> db"
  shows "job_ok m \<lparr>j_src = (sb, 0), j_dst = (db, 0), j_width = q_width (c_out_q ctx), j_height = q_height (c_out_q ctx),
       j_src_stride = q_bytesperline (c_out_q ctx), j_dst_stride = q_bytesperline (c_cap_q ctx)\<rparr> sb db S D"
    and "unat (q_sizeimage (c_cap_q ctx)) \<le> length D"
    and "unat (q_sizeimage (c_cap_q ctx)) = unat (q_height (c_out_q ctx)) * unat (q_width (c_out_q ctx))"
proof -
  have q: "q_ok (c_out_q ctx)" "c_cap_q ctx = c_out_q ctx" using fmt by (simp_all add: fmt_ok_def)
  then have sz: "unat (q_sizeimage (c_out_q ctx)) \<le> length S" "unat (q_sizeimage (c_out_q ctx)) \<le> length D"
    using prep pl by (auto simp: prepared_def vpipe_buf_prepare_def plane_at_def Let_def vpipe_get_q_data_def split: if_splits)
  have d: "uint x < 2147483648" if "unat x \<le> 4096" for x :: u32
  proof -
    have "uint x = int (unat x)" by simp
    also have "\<dots> \<le> int 4096" using that by (simp only: of_nat_le_iff)
    finally show ?thesis by simp
  qed
  show "unat (q_sizeimage (c_cap_q ctx)) \<le> length D" using sz q by simp
  show "unat (q_sizeimage (c_cap_q ctx)) = unat (q_height (c_out_q ctx)) * unat (q_width (c_out_q ctx))"
    using q by (auto simp: q_ok_def)
  show "job_ok m \<lparr>j_src = (sb, 0), j_dst = (db, 0), j_width = q_width (c_out_q ctx), j_height = q_height (c_out_q ctx),
       j_src_stride = q_bytesperline (c_out_q ctx), j_dst_stride = q_bytesperline (c_cap_q ctx)\<rparr> sb db S D"
    using q sz pl q_ok_bounds [OF q(1)] by (auto simp: job_ok_def q_ok_def plane_at_def d)
qed

definition job_window :: "vpipe_ctx \<Rightarrow> vpipe_buffer \<Rightarrow> nat \<times> nat \<times> nat \<times> nat" where
  "job_window ctx b = roi_window (unat (q_width (c_out_q ctx))) (unat (q_height (c_out_q ctx))) (roi_ints (Some (b_roi b)))"

definition ctx_job :: "vpipe_ctx \<Rightarrow> nat \<Rightarrow> nat \<Rightarrow> vpipe_job_desc" where
  "ctx_job ctx sb db = \<lparr>j_src = (sb, 0), j_dst = (db, 0), j_width = q_width (c_out_q ctx),
     j_height = q_height (c_out_q ctx), j_src_stride = q_bytesperline (c_out_q ctx),
     j_dst_stride = q_bytesperline (c_cap_q ctx)\<rparr>"

definition completed :: "vpipe_buffer \<Rightarrow> vpipe_buffer \<Rightarrow> nat \<Rightarrow> u64 \<Rightarrow> u64 \<Rightarrow> vpipe_buffer" where
  "completed src dst n now seq = dst\<lparr>vb_payload := n, vb_field := V4L2_FIELD_NONE, vb_timestamp := now,
      vb_flags := vb_flags src AND V4L2_BUF_FLAG_TIMECODE, vb_sequence := ucast seq\<rparr>"

text \<open>
  A job on two prepared buffers of a well-formed context: the picture is written, the frame
  number is taken, and the destination buffer carries the completion data and the metadata.
\<close>

lemma device_run_ok:
  fixes s :: "'q vdrv"
  assumes laws: "m2m_laws api srcs dsts dones"
    and q: "srcs (d_q s) = sa # srcs'" "dsts (d_q s) = da # dsts'"
    and bufs: "d_bufs s sa = Some src" "d_bufs s da = Some dst"
    and fmt: "fmt_ok (d_ctx s)" "prepared (d_ctx s) t src" "prepared (d_ctx s) t' dst"
    and pl: "plane_at (kw_mem (d_kw s)) src sb S" "plane_at (kw_mem (d_kw s)) dst db D" "sb \<noteq> db"
    and algo: "b_algo_id src = VPIPE_ALGO_NONE \<or> b_algo_id src = VPIPE_ALGO_THRESHOLD"
  defines "pic \<equiv> job_picture (d_ctx s) src S" and "seq \<equiv> d_sequence s + 1"
    and "win \<equiv> job_window (d_ctx s) src"
  shows "\<exists>cv q'. vpipe_device_run api crc32_le now cpu s = Some (s\<lparr>d_q := q', d_sequence := seq,
        d_kw := (d_kw s)\<lparr>kw_mem := (kw_mem (d_kw s))(db \<mapsto> pic @ drop (length pic) D)\<rparr>,
        d_bufs := (d_bufs s)(da \<mapsto> (completed src dst (length pic) now seq)\<lparr>b_meta_pending :=
           frame_meta src (completed src dst (length pic) now seq) (vb_memory src) cv seq (of_nat (length pic))
           (NOT (crc32_le (NOT 0) pic)) (of_nat (length srcs')) cpu\<rparr>)\<rparr>) \<and>
      srcs q' = srcs' \<and> dsts q' = dsts' \<and>
      dones q' = dones (d_q s) @ [(sa, VB2_BUF_STATE_DONE), (da, VB2_BUF_STATE_DONE)] \<and>
      cv_algo_status cv = 0 \<and> cv_roi cv = vpipe_clamp_roi (ctx_job (d_ctx s) sb db) (Some (b_roi src)) \<and>
      unat (cv_value0 cv) = cv_white (b_algo_id src) (b_threshold src) win (unat (q_width (c_out_q (d_ctx s)))) S \<and>
      unat (cv_value0 cv) + unat (cv_value1 cv) = cv_area (b_algo_id src) win"
proof -
  note ok = prepared_job_ok [OF fmt pl, folded ctx_job_def]
  let ?w = "unat (q_width (c_out_q (d_ctx s)))" and ?h = "unat (q_height (c_out_q (d_ctx s)))"
  have len: "length pic = ?h * ?w" by (simp add: pic_def job_picture_def Let_def)
  have st: "q_bytesperline (c_out_q (d_ctx s)) = q_width (c_out_q (d_ctx s))" "c_cap_q (d_ctx s) = c_out_q (d_ctx s)" "0 < ?w"
    using fmt(1) by (auto simp: fmt_ok_def q_ok_def)
  have size_eq: "q_sizeimage (c_out_q (d_ctx s)) = of_nat (length pic)"
  proof -
    have "q_sizeimage (c_out_q (d_ctx s)) = of_nat (unat (q_sizeimage (c_out_q (d_ctx s))))" by simp
    with ok(3) len st(2) show ?thesis by simp
  qed
  obtain cv where cv: "vpipe_cv_process (ctx_job (d_ctx s) sb db) (b_algo_id src) (b_threshold src) (Some (b_roi src)) (kw_mem (d_kw s)) =
      Some (Inr cv, (kw_mem (d_kw s))(db \<mapsto> pic @ drop (length pic) D))"
    and res: "cv_algo_status cv = 0" "cv_roi cv = vpipe_clamp_roi (ctx_job (d_ctx s) sb db) (Some (b_roi src))"
      "unat (cv_value0 cv) = cv_white (b_algo_id src) (b_threshold src) win ?w S"
      "unat (cv_value0 cv) + unat (cv_value1 cv) = cv_area (b_algo_id src) win"
    using cv_process_picture [OF ok(1) algo, of "b_threshold src" "Some (b_roi src)"] ok(2,3) len
    by (auto simp: ctx_job_def st draw_image job_window_def win_def pic_def job_picture_def Let_def)
  let ?q = "snd (v4l2_m2m_dst_buf_remove api (snd (v4l2_m2m_src_buf_remove api (d_q s))))"
  let ?q' = "v4l2_m2m_job_finish api (v4l2_m2m_buf_done api da VB2_BUF_STATE_DONE (v4l2_m2m_buf_done api sa VB2_BUF_STATE_DONE ?q))"
  have va: "vb_vaddr src = Some (sb, 0)" "vb_vaddr dst = Some (db, 0)" using pl by (simp_all add: plane_at_def)
  note l = m2m_lawsD [OF laws]
  have bytes: "load_bytes ((kw_mem (d_kw s))(db \<mapsto> pic @ drop (length pic) D)) (db, 0) (unat (q_sizeimage (c_out_q (d_ctx s)))) = Some pic"
    using ok(3) len st(2) by (subst load_bytes_block) auto
  have "vpipe_device_run api crc32_le now cpu s = Some (s\<lparr>d_q := ?q', d_sequence := seq,
        d_kw := (d_kw s)\<lparr>kw_mem := (kw_mem (d_kw s))(db \<mapsto> pic @ drop (length pic) D)\<rparr>,
        d_bufs := (d_bufs s)(da \<mapsto> (completed src dst (length pic) now seq)\<lparr>b_meta_pending :=
           frame_meta src (completed src dst (length pic) now seq) (vb_memory src) cv seq (of_nat (length pic))
           (NOT (crc32_le (NOT 0) pic)) (of_nat (length srcs')) cpu\<rparr>)\<rparr>)"
    using cv bytes ok(3) len
    by (simp add: vpipe_device_run_def l q bufs va Let_def split_beta completed_def seq_def st size_eq ctx_job_def)
  then show ?thesis using res by (intro exI [of _ cv] exI [of _ ?q']) (simp add: l q)
qed


text \<open>
  C16.  A job that cannot be done gives its buffers back.  If a queue is empty nothing
  happens; if a plane has no kernel mapping or the frame asks for an unknown algorithm, both
  buffers leave their queues in the error state and nothing else changes: no frame number is
  taken, no byte is written and no metadata appears.
\<close>

theorem device_run_fails_clean:
  fixes s :: "'q vdrv"
  assumes "m2m_laws api srcs dsts dones"
    and "\<forall>a \<in> set (srcs (d_q s)) \<union> set (dsts (d_q s)). d_bufs s a \<noteq> None"
  shows "(srcs (d_q s) = [] \<or> dsts (d_q s) = [] \<longrightarrow> vpipe_device_run api crc32_le now cpu s = Some s) \<and>
    (\<forall>sa srcs' da dsts' src dst. srcs (d_q s) = sa # srcs' \<and> dsts (d_q s) = da # dsts' \<and>
       d_bufs s sa = Some src \<and> d_bufs s da = Some dst \<and>
       (vb_vaddr src = None \<or> vb_vaddr dst = None \<or> b_algo_id src \<notin> {VPIPE_ALGO_NONE, VPIPE_ALGO_THRESHOLD}) \<longrightarrow>
       (\<exists>q'. vpipe_device_run api crc32_le now cpu s = Some (s\<lparr>d_q := q'\<rparr>) \<and> srcs q' = srcs' \<and> dsts q' = dsts' \<and>
          dones q' = dones (d_q s) @ [(sa, VB2_BUF_STATE_ERROR), (da, VB2_BUF_STATE_ERROR)]))"
  using assms
  by (auto simp: vpipe_device_run_def m2m_lawsD [OF assms(1)] job_failed_def Let_def split_beta vpipe_cv_process_unknown
     split: list.split option.split)

definition set_ctrls :: "(u32 \<times> s32) list \<Rightarrow> vpipe_ctx \<Rightarrow> vpipe_ctx" where
  "set_ctrls cs ctx = fold (\<lambda>(cid, v) c. snd (vpipe_s_ctrl cid v c)) cs ctx"

lemma s_ctrl_keeps_formats:
  "c_out_q (snd (vpipe_s_ctrl cid v ctx)) = c_out_q ctx" "c_cap_q (snd (vpipe_s_ctrl cid v ctx)) = c_cap_q ctx"
  by (simp_all add: vpipe_s_ctrl_def)

lemma set_ctrls_keeps_formats: "c_out_q (set_ctrls cs ctx) = c_out_q ctx \<and> c_cap_q (set_ctrls cs ctx) = c_cap_q ctx"
  unfolding set_ctrls_def by (induction cs arbitrary: ctx) (auto simp: s_ctrl_keeps_formats)

lemma device_run_ctx:
  assumes "c_out_q ctx = c_out_q (d_ctx s)" "c_cap_q ctx = c_cap_q (d_ctx s)"
  shows "vpipe_device_run api crc32_le now cpu (s\<lparr>d_ctx := ctx\<rparr>) =
    map_option (\<lambda>s'. s'\<lparr>d_ctx := ctx\<rparr>) (vpipe_device_run api crc32_le now cpu s)"
  using assms
  by (auto simp: vpipe_device_run_def Let_def split_beta split: option.split sum.split Option.bind_split)

text \<open>
  C15.  Queued frames are isolated from later control changes.  Queueing an OUTPUT buffer
  stores the current controls in it; after that, any sequence of control writes before the
  job runs changes neither the picture, nor the metadata, nor any other effect of the job.
\<close>

theorem controls_snapshot:
  assumes "vpipe_buf_queue api qbuf_now src_now V4L2_BUF_TYPE_VIDEO_OUTPUT a s = Some s1"
  shows "\<exists>b. d_bufs s1 a = Some b \<and> b_src_sequence b = c_src_sequence (d_ctx s) \<and> b_algo_id b = c_algo_id (d_ctx s) \<and>
      b_threshold b = c_threshold (d_ctx s) \<and> b_roi b = c_roi (d_ctx s) \<and> b_qbuf_ns b = qbuf_now \<and>
    vpipe_device_run api crc32_le now cpu (s1\<lparr>d_ctx := set_ctrls cs (d_ctx s1)\<rparr>) =
      map_option (\<lambda>s2. s2\<lparr>d_ctx := set_ctrls cs (d_ctx s1)\<rparr>) (vpipe_device_run api crc32_le now cpu s1)"
proof -
  have "\<exists>b. d_bufs s1 a = Some b \<and> b_src_sequence b = c_src_sequence (d_ctx s) \<and> b_algo_id b = c_algo_id (d_ctx s) \<and>
      b_threshold b = c_threshold (d_ctx s) \<and> b_roi b = c_roi (d_ctx s) \<and> b_qbuf_ns b = qbuf_now"
    using assms by (auto simp: vpipe_buf_queue_def Let_def put_src_def split: option.splits Option.bind_splits)
  then show ?thesis using device_run_ctx [of "set_ctrls cs (d_ctx s1)" s1] set_ctrls_keeps_formats by blast
qed

section \<open>Metadata at dequeue time\<close>

lemma buf_finish_publishes:
  assumes "d_bufs s a = Some b" "me_seq (b_meta_pending b) \<noteq> 0" "meta_inv (d_meta s) log" "Suc (length log) < 2 ^ 64"
  shows "\<exists>s'. vpipe_buf_finish now V4L2_BUF_TYPE_VIDEO_CAPTURE a s = Some s' \<and>
      meta_inv (d_meta s') (log @ [normalize_entry ((b_meta_pending b)\<lparr>me_dqbuf_timestamp_ns := now\<rparr>)]) \<and>
      (\<forall>now'. vpipe_buf_finish now' V4L2_BUF_TYPE_VIDEO_CAPTURE a s' = Some s')"
  using assms meta_inv_publish [OF assms(3,4)] by (simp add: vpipe_buf_finish_def Let_def)

lemma job_logged:
  fixes s :: "'q vdrv"
  assumes "m2m_laws api srcs dsts dones"
    and "srcs (d_q s) = sa # srcs'" "dsts (d_q s) = da # dsts'"
    and bufs: "d_bufs s sa = Some src" "d_bufs s da = Some dst"
    and "fmt_ok (d_ctx s)" "prepared (d_ctx s) V4L2_BUF_TYPE_VIDEO_OUTPUT src" "prepared (d_ctx s) V4L2_BUF_TYPE_VIDEO_CAPTURE dst"
    and "plane_at (kw_mem (d_kw s)) src sb S" "plane_at (kw_mem (d_kw s)) dst db D" "sb \<noteq> db"
    and "b_algo_id src = VPIPE_ALGO_NONE \<or> b_algo_id src = VPIPE_ALGO_THRESHOLD"
    and log: "d_sequence s + 1 \<noteq> 0" "meta_inv (d_meta s) log" "Suc (length log) < 2 ^ 64"
  shows "\<exists>s1 s2 e pic. vpipe_device_run api crc32_le now cpu s = Some s1 \<and>
      vpipe_buf_finish dq_now V4L2_BUF_TYPE_VIDEO_OUTPUT sa s1 = Some s1 \<and>
      vpipe_buf_finish dq_now V4L2_BUF_TYPE_VIDEO_CAPTURE da s1 = Some s2 \<and>
      vpipe_buf_finish dq_later V4L2_BUF_TYPE_VIDEO_CAPTURE da s2 = Some s2 \<and>
      meta_inv (d_meta s2) (log @ [e]) \<and> md_dying (d_meta s2) = md_dying (d_meta s) \<and> d_sequence s2 = d_sequence s + 1 \<and>
      load_bytes (kw_mem (d_kw s2)) (db, 0) (length pic) = Some pic \<and> pic = job_picture (d_ctx s) src S \<and>
      me_seq e = d_sequence s + 1 \<and> me_crc32 e = NOT (crc32_le (NOT 0) pic) \<and> me_bytesused e = of_nat (length pic) \<and>
      me_qbuf_timestamp_ns e = b_qbuf_ns src \<and> me_capture_done_ns e = now \<and> me_dqbuf_timestamp_ns e = dq_now \<and>
      me_version e = VPIPE_META_VERSION"
proof -
  obtain cv q' where run: "vpipe_device_run api crc32_le now cpu s = Some (s\<lparr>d_q := q', d_sequence := d_sequence s + 1,
        d_kw := (d_kw s)\<lparr>kw_mem := (kw_mem (d_kw s))(db \<mapsto> job_picture (d_ctx s) src S @ drop (length (job_picture (d_ctx s) src S)) D)\<rparr>,
        d_bufs := (d_bufs s)(da \<mapsto> (completed src dst (length (job_picture (d_ctx s) src S)) now (d_sequence s + 1))\<lparr>b_meta_pending :=
           frame_meta src (completed src dst (length (job_picture (d_ctx s) src S)) now (d_sequence s + 1)) (vb_memory src) cv (d_sequence s + 1)
           (of_nat (length (job_picture (d_ctx s) src S))) (NOT (crc32_le (NOT 0) (job_picture (d_ctx s) src S))) (of_nat (length srcs')) cpu\<rparr>)\<rparr>)"
      (is "_ = Some ?s1")
    using device_run_ok [OF assms(1-12), of crc32_le now cpu] by blast
  let ?pic = "job_picture (d_ctx s) src S"
  let ?m = "frame_meta src (completed src dst (length ?pic) now (d_sequence s + 1)) (vb_memory src) cv (d_sequence s + 1)
           (of_nat (length ?pic)) (NOT (crc32_le (NOT 0) ?pic)) (of_nat (length srcs')) cpu"
  have "me_seq ?m = d_sequence s + 1" by (simp add: frame_meta_def)
  with buf_finish_publishes [of ?s1 da _ log dq_now] log obtain s2 where
    fin: "vpipe_buf_finish dq_now V4L2_BUF_TYPE_VIDEO_CAPTURE da ?s1 = Some s2"
      "meta_inv (d_meta s2) (log @ [normalize_entry (?m\<lparr>me_dqbuf_timestamp_ns := dq_now\<rparr>)])"
      "\<And>now'. vpipe_buf_finish now' V4L2_BUF_TYPE_VIDEO_CAPTURE da s2 = Some s2"
    by auto
  have out: "vpipe_buf_finish dq_now V4L2_BUF_TYPE_VIDEO_OUTPUT sa ?s1 = Some ?s1"
    using bufs by (simp add: vpipe_buf_finish_def)
  have keep: "d_sequence s2 = d_sequence s + 1" "md_dying (d_meta s2) = md_dying (d_meta s)" "kw_mem (d_kw s2) db = Some (?pic @ drop (length ?pic) D)"
    using fin(1) log by (auto simp: vpipe_buf_finish_def Let_def frame_meta_def split: if_splits)
  have "load_bytes (kw_mem (d_kw s2)) (db, 0) (length ?pic) = Some ?pic"
    using keep(3) by (simp add: load_bytes_block)
  with run fin out keep show ?thesis
    by (intro exI [of _ ?s1] exI [of _ s2] exI [of _ "normalize_entry (?m\<lparr>me_dqbuf_timestamp_ns := dq_now\<rparr>)"] exI [of _ ?pic])
      (simp add: normalize_entry_def, simp add: frame_meta_def completed_def)
qed

text \<open>
  C5.  Every processed frame is logged exactly once.  After a job and the dequeue of its
  CAPTURE buffer, the metadata log has grown by one entry, which carries the frame number,
  the checksum and size of the picture now in the buffer, and the three times of the frame
  in place; dequeuing the OUTPUT buffer logs nothing, and neither does finishing the
  CAPTURE buffer again without a new job.
\<close>

theorem frame_logged_once:
  fixes s :: "'q vdrv"
  assumes "m2m_laws api srcs dsts dones"
    and "srcs (d_q s) = sa # srcs'" "dsts (d_q s) = da # dsts'"
    and bufs: "d_bufs s sa = Some src" "d_bufs s da = Some dst"
    and "fmt_ok (d_ctx s)" "prepared (d_ctx s) V4L2_BUF_TYPE_VIDEO_OUTPUT src" "prepared (d_ctx s) V4L2_BUF_TYPE_VIDEO_CAPTURE dst"
    and "plane_at (kw_mem (d_kw s)) src sb S" "plane_at (kw_mem (d_kw s)) dst db D" "sb \<noteq> db"
    and "b_algo_id src = VPIPE_ALGO_NONE \<or> b_algo_id src = VPIPE_ALGO_THRESHOLD"
    and log: "d_sequence s + 1 \<noteq> 0" "meta_inv (d_meta s) log" "Suc (length log) < 2 ^ 64"
  shows "\<exists>s1 s2 e pic. vpipe_device_run api crc32_le now cpu s = Some s1 \<and>
      vpipe_buf_finish dq_now V4L2_BUF_TYPE_VIDEO_OUTPUT sa s1 = Some s1 \<and>
      vpipe_buf_finish dq_now V4L2_BUF_TYPE_VIDEO_CAPTURE da s1 = Some s2 \<and>
      vpipe_buf_finish dq_later V4L2_BUF_TYPE_VIDEO_CAPTURE da s2 = Some s2 \<and>
      meta_inv (d_meta s2) (log @ [e]) \<and> d_sequence s2 = d_sequence s + 1 \<and>
      load_bytes (kw_mem (d_kw s2)) (db, 0) (length pic) = Some pic \<and> pic = job_picture (d_ctx s) src S \<and>
      me_seq e = d_sequence s + 1 \<and> me_crc32 e = NOT (crc32_le (NOT 0) pic) \<and> me_bytesused e = of_nat (length pic) \<and>
      me_qbuf_timestamp_ns e = b_qbuf_ns src \<and> me_capture_done_ns e = now \<and> me_dqbuf_timestamp_ns e = dq_now \<and>
      me_version e = VPIPE_META_VERSION"
  using job_logged [OF assms, of crc32_le now cpu dq_now dq_later] by blast

section \<open>The end of a stream\<close>

lemma return_all_buffers_ends:
  assumes "m2m_laws api srcs dsts dones"
  shows "\<exists>q'. vpipe_return_all_buffers api type q = Some q' \<and>
    srcs q' = (if V4L2_TYPE_IS_OUTPUT type then [] else srcs q) \<and>
    dsts q' = (if V4L2_TYPE_IS_OUTPUT type then dsts q else []) \<and>
    dones q' = dones q @ map (\<lambda>a. (a, VB2_BUF_STATE_ERROR)) (if V4L2_TYPE_IS_OUTPUT type then srcs q else dsts q)"
proof (induction "if V4L2_TYPE_IS_OUTPUT type then srcs q else dsts q" arbitrary: q)
  case Nil
  then show ?case
    by (subst vpipe_return_all_buffers.simps)
      (auto simp: m2m_lawsD [OF assms] split_beta split: if_splits prod.split intro: prod_eqI
        dest!: arg_cong [where f = fst])
next
  case (Cons a as)
  let ?rm = "if V4L2_TYPE_IS_OUTPUT type then v4l2_m2m_src_buf_remove api q else v4l2_m2m_dst_buf_remove api q"
  let ?q = "v4l2_m2m_buf_done api a VB2_BUF_STATE_ERROR (snd ?rm)"
  note ready = Cons.hyps(2) [symmetric]
  have "fst ?rm = Some a" using ready by (auto simp: m2m_lawsD [OF assms] split: if_splits list.split)
  then have unfold: "vpipe_return_all_buffers api type q = vpipe_return_all_buffers api type ?q"
    by (subst vpipe_return_all_buffers.simps) (auto split: prod.split)
  have "as = (if V4L2_TYPE_IS_OUTPUT type then srcs ?q else dsts ?q)"
    using ready by (auto simp: m2m_lawsD [OF assms] split: if_splits)
  from Cons.hyps(1) [OF this] ready show ?case
    unfolding unfold by (auto simp: m2m_lawsD [OF assms] split: if_splits)
qed

text \<open>
  Ending a stream gives every buffer back.  The loop of \<open>vpipe_return_all_buffers\<close> ends
  on every queue; the queue of the given direction is then empty, all its buffers have been
  completed in the error state in their queueing order, and the other queue is untouched.
\<close>

theorem return_all_buffers_terminates:
  assumes "m2m_laws api srcs dsts dones"
  shows "\<exists>q'. vpipe_return_all_buffers api type q = Some q' \<and>
    srcs q' = (if V4L2_TYPE_IS_OUTPUT type then [] else srcs q) \<and>
    dsts q' = (if V4L2_TYPE_IS_OUTPUT type then dsts q else []) \<and>
    dones q' = dones q @ map (\<lambda>a. (a, VB2_BUF_STATE_ERROR)) (if V4L2_TYPE_IS_OUTPUT type then srcs q else dsts q)"
  using return_all_buffers_ends [OF assms] .

section \<open>Examples\<close>

text \<open>A 2 by 2 frame queued for thresholding, with a second frame waiting.\<close>

definition demo_q :: vpipe_q_data where
  "demo_q = \<lparr>q_width = 2, q_height = 2, q_bytesperline = 2, q_sizeimage = 4, q_pixelformat = V4L2_PIX_FMT_GREY\<rparr>"

definition demo :: "list_q vdrv" where
  "demo = \<lparr>d_ctx = default_ctx\<lparr>c_out_q := demo_q, c_cap_q := demo_q\<rparr>,
     d_q = \<lparr>lq_srcs = [5, 7], lq_dsts = [6], lq_dones = []\<rparr>,
     d_bufs = [5 \<mapsto> (plain_buffer 3)\<lparr>b_algo_id := VPIPE_ALGO_THRESHOLD, b_threshold := 127\<rparr>, 6 \<mapsto> plain_buffer 4,
               7 \<mapsto> (plain_buffer 3)\<lparr>b_algo_id := 9\<rparr>],
     d_srcs = (\<lambda>_. None), d_kw = small_world\<lparr>kw_mem := [3 \<mapsto> [10, 200, 127, 128], 4 \<mapsto> [7, 7, 7, 7]]\<rparr>,
     d_meta = g_meta_init, d_sequence = 41\<rparr>"

lemma demo_ok: "fmt_ok (d_ctx demo)" "prepared (d_ctx demo) t ((plain_buffer 3)\<lparr>b_algo_id := VPIPE_ALGO_THRESHOLD, b_threshold := 127\<rparr>)"
  "prepared (d_ctx demo) t (plain_buffer 4)"
  "plane_at (kw_mem (d_kw demo)) ((plain_buffer 3)\<lparr>b_algo_id := VPIPE_ALGO_THRESHOLD, b_threshold := 127\<rparr>) 3 [10, 200, 127, 128]"
  "plane_at (kw_mem (d_kw demo)) (plain_buffer 4) 4 [7, 7, 7, 7]"
  by (cases t; simp add: fmt_ok_def q_ok_def prepared_def vpipe_buf_prepare_def vpipe_get_q_data_def Let_def plane_at_def
      demo_def demo_q_def plain_buffer_def default_ctx_def small_world_def)+

lemma demo_queues: "lq_srcs (d_q demo) = 5 # [7]" "lq_dsts (d_q demo) = 6 # []"
  "d_bufs demo 5 = Some ((plain_buffer 3)\<lparr>b_algo_id := VPIPE_ALGO_THRESHOLD, b_threshold := 127\<rparr>)"
  "d_bufs demo 6 = Some (plain_buffer 4)" "d_sequence demo = 41" "d_meta demo = g_meta_init"
  by (simp_all add: demo_def)

lemma demo_picture: "job_picture (d_ctx demo) ((plain_buffer 3)\<lparr>b_algo_id := VPIPE_ALGO_THRESHOLD, b_threshold := 127\<rparr>)
    [10, 200, 127, 128] = [0, 255, 0, 255]"
  by (simp add: job_picture_def Let_def demo_def demo_q_def plain_buffer_def cv_pixel_def roi_ints_def roi_window_def
      threshold_pixel_def upt_rec)


theorem device_run_fails_clean_witness:
  "\<exists>q'. vpipe_device_run list_api (\<lambda>c bs. c) 99 1 (demo\<lparr>d_q := (d_q demo)\<lparr>lq_srcs := [7]\<rparr>\<rparr>) =
       Some (demo\<lparr>d_q := q'\<rparr>) \<and> lq_dones q' = [(7, VB2_BUF_STATE_ERROR), (6, VB2_BUF_STATE_ERROR)]"
proof -
  let ?s = "demo\<lparr>d_q := (d_q demo)\<lparr>lq_srcs := [7]\<rparr>\<rparr>"
  have "\<forall>a \<in> set (lq_srcs (d_q ?s)) \<union> set (lq_dsts (d_q ?s)). d_bufs ?s a \<noteq> None" by (simp add: demo_def)
  note all = device_run_fails_clean [OF list_api_laws this, of "\<lambda>c bs. c" 99 1, THEN conjunct2, rule_format]
  have "\<exists>q'. vpipe_device_run list_api (\<lambda>c bs. c) 99 1 ?s = Some (?s\<lparr>d_q := q'\<rparr>) \<and> lq_srcs q' = [] \<and> lq_dsts q' = [] \<and>
     lq_dones q' = lq_dones (d_q ?s) @ [(7, VB2_BUF_STATE_ERROR), (6, VB2_BUF_STATE_ERROR)]"
    by (rule all [where src = "(plain_buffer 3)\<lparr>b_algo_id := 9\<rparr>" and dst = "plain_buffer 4"])
      (simp add: demo_def plain_buffer_def)
  then show ?thesis by (auto simp: demo_def)
qed

theorem controls_snapshot_witness:
  "\<exists>s1 b. vpipe_buf_queue list_api 1 2 V4L2_BUF_TYPE_VIDEO_OUTPUT 5 demo = Some s1 \<and> d_bufs s1 5 = Some b \<and> b_threshold b = 127 \<and>
     vpipe_device_run list_api (\<lambda>c bs. c) 99 1 (s1\<lparr>d_ctx := set_ctrls [(VPIPE_CID_THRESHOLD, 3)] (d_ctx s1)\<rparr>) =
       map_option (\<lambda>s2. s2\<lparr>d_ctx := set_ctrls [(VPIPE_CID_THRESHOLD, 3)] (d_ctx s1)\<rparr>) (vpipe_device_run list_api (\<lambda>c bs. c) 99 1 s1)"
proof -
  obtain s1 where s1: "vpipe_buf_queue list_api 1 2 V4L2_BUF_TYPE_VIDEO_OUTPUT 5 demo = Some s1"
    by (simp add: vpipe_buf_queue_def ctx_src_def demo_def Let_def vpipe_source_next_frame_def default_ctx_def)
  moreover have "c_threshold (d_ctx demo) = 127" by (simp add: demo_def default_ctx_def Let_def)
  ultimately show ?thesis
    using controls_snapshot [OF s1, of "\<lambda>c bs. c" 99 1 "[(VPIPE_CID_THRESHOLD, 3)]"] by auto
qed

theorem frame_logged_once_witness:
  "\<exists>s1 s2 e. vpipe_device_run list_api (\<lambda>c bs. c) 99 1 demo = Some s1 \<and>
     vpipe_buf_finish 100 V4L2_BUF_TYPE_VIDEO_CAPTURE 6 s1 = Some s2 \<and>
     meta_inv (d_meta s2) [e] \<and> me_seq e = 42 \<and> me_dqbuf_timestamp_ns e = 100"
  using frame_logged_once [OF list_api_laws demo_queues(1-4) demo_ok(1) demo_ok(2) demo_ok(3-5), of "[]" "\<lambda>c bs. c" 99 1 100 101]
  unfolding demo_queues by (auto simp: meta_inv_init)

theorem return_all_buffers_terminates_witness:
  "\<exists>q'. vpipe_return_all_buffers list_api V4L2_BUF_TYPE_VIDEO_OUTPUT (d_q demo) = Some q' \<and> lq_srcs q' = [] \<and> lq_dsts q' = [6] \<and>
     lq_dones q' = [(5, VB2_BUF_STATE_ERROR), (7, VB2_BUF_STATE_ERROR)]"
  using return_all_buffers_terminates [OF list_api_laws, of V4L2_BUF_TYPE_VIDEO_OUTPUT "d_q demo"]
  by (auto simp: demo_def)

section \<open>Resizing under a queued buffer\<close>

text \<open>
  A CAPTURE buffer of one row of 4096 pixels is queued; the OUTPUT queue has no buffers yet.
\<close>

definition row_q :: vpipe_q_data where
  "row_q = \<lparr>q_width = 4096, q_height = 1, q_bytesperline = 4096, q_sizeimage = 4096, q_pixelformat = V4L2_PIX_FMT_GREY\<rparr>"

definition rows_pix :: v4l2_pix_format where
  "rows_pix = vpipe_fill_pix_format \<lparr>pf_width = 0, pf_height = 0, pf_pixelformat = 0, pf_field = 0, pf_bytesperline = 0,
     pf_sizeimage = 0, pf_colorspace = 0, pf_ycbcr_enc = 0, pf_quantization = 0, pf_xfer_func = 0\<rparr> 4096 2"

definition row_buffer :: vpipe_buffer where "row_buffer = (plain_buffer 4)\<lparr>vb_plane_size := 4096\<rparr>"

definition rows_buffer :: vpipe_buffer where "rows_buffer = (plain_buffer 3)\<lparr>vb_plane_size := 8192\<rparr>"

definition resized :: "list_q vdrv" where
  "resized = demo\<lparr>d_ctx := snd (vpipe_s_fmt (\<lambda>t. t = V4L2_BUF_TYPE_VIDEO_CAPTURE) V4L2_BUF_TYPE_VIDEO_OUTPUT rows_pix
        (default_ctx\<lparr>c_out_q := row_q, c_cap_q := row_q\<rparr>)),
     d_q := \<lparr>lq_srcs = [5], lq_dsts = [6], lq_dones = []\<rparr>, d_bufs := [5 \<mapsto> rows_buffer, 6 \<mapsto> row_buffer],
     d_kw := small_world\<lparr>kw_mem := [3 \<mapsto> replicate 8192 1, 4 \<mapsto> replicate 4096 0]\<rparr>\<rparr>"

text \<open>
  C30.  The format change misses a buffer.  \<open>VIDIOC_S_FMT\<close> on an idle OUTPUT queue also sets
  the format of the CAPTURE queue, whose buffers may be queued already.  From a CAPTURE
  buffer that was accepted at 4096 by 1, a successful change to 4096 by 2 and an OUTPUT
  buffer accepted at the new size lead to a job that writes behind the end of the CAPTURE
  plane.
\<close>

theorem s_fmt_overruns_queued_buffer:
  "prepared (default_ctx\<lparr>c_out_q := row_q, c_cap_q := row_q\<rparr>) V4L2_BUF_TYPE_VIDEO_CAPTURE row_buffer \<and>
   fst (vpipe_s_fmt (\<lambda>t. t = V4L2_BUF_TYPE_VIDEO_CAPTURE) V4L2_BUF_TYPE_VIDEO_OUTPUT rows_pix
     (default_ctx\<lparr>c_out_q := row_q, c_cap_q := row_q\<rparr>)) = Inr rows_pix \<and>
   prepared (d_ctx resized) V4L2_BUF_TYPE_VIDEO_OUTPUT rows_buffer \<and>
   plane_at (kw_mem (d_kw resized)) rows_buffer 3 (replicate 8192 1) \<and>
   plane_at (kw_mem (d_kw resized)) row_buffer 4 (replicate 4096 0) \<and>
   vpipe_device_run list_api crc32_le now cpu resized = None"
proof (intro conjI)
  let ?q = "\<lparr>q_width = 4096, q_height = 2, q_bytesperline = 4096, q_sizeimage = 8192, q_pixelformat = V4L2_PIX_FMT_GREY\<rparr>"
  have fmt: "vpipe_s_fmt (\<lambda>t. t = V4L2_BUF_TYPE_VIDEO_CAPTURE) V4L2_BUF_TYPE_VIDEO_OUTPUT rows_pix
     (default_ctx\<lparr>c_out_q := row_q, c_cap_q := row_q\<rparr>) = (Inr rows_pix, default_ctx\<lparr>c_out_q := ?q, c_cap_q := ?q\<rparr>)"
    by (simp add: vpipe_s_fmt_def vpipe_try_fmt_def rows_pix_def vpipe_fill_pix_format_def Let_def clamp_u32_def word_le_nat_alt)
  then show "fst (vpipe_s_fmt (\<lambda>t. t = V4L2_BUF_TYPE_VIDEO_CAPTURE) V4L2_BUF_TYPE_VIDEO_OUTPUT rows_pix
     (default_ctx\<lparr>c_out_q := row_q, c_cap_q := row_q\<rparr>)) = Inr rows_pix" by simp
  have ctx: "d_ctx resized = default_ctx\<lparr>c_out_q := ?q, c_cap_q := ?q\<rparr>" by (simp add: resized_def fmt)
  show "prepared (default_ctx\<lparr>c_out_q := row_q, c_cap_q := row_q\<rparr>) V4L2_BUF_TYPE_VIDEO_CAPTURE row_buffer"
    "prepared (d_ctx resized) V4L2_BUF_TYPE_VIDEO_OUTPUT rows_buffer"
    by (simp_all add: ctx prepared_def vpipe_buf_prepare_def vpipe_get_q_data_def row_q_def row_buffer_def rows_buffer_def)
  have mem: "kw_mem (d_kw resized) = [3 \<mapsto> replicate 8192 1, 4 \<mapsto> replicate 4096 0]" by (simp add: resized_def)
  then show "plane_at (kw_mem (d_kw resized)) rows_buffer 3 (replicate 8192 1)"
    "plane_at (kw_mem (d_kw resized)) row_buffer 4 (replicate 4096 0)"
    by (simp_all add: plane_at_def rows_buffer_def row_buffer_def plain_buffer_def)
  have "memcpy [3 \<mapsto> replicate 8192 1, 4 \<mapsto> replicate 4096 0] (4, 0) (3, 0) 4096 =
      Some [3 \<mapsto> replicate 8192 1, 4 \<mapsto> replicate 4096 1]"
    using memcpy_Some [of "[3 \<mapsto> replicate 8192 1, 4 \<mapsto> replicate 4096 0]" 3 "replicate 8192 1" 4 "replicate 4096 0" 0 4096 0]
    by (simp add: splice_def)
  moreover have "memcpy [3 \<mapsto> replicate 8192 1, 4 \<mapsto> replicate 4096 1] (4, 4096) (3, 4096) 4096 = None"
    by (simp add: memcpy_def overlaps_def load_bytes_def store_bytes_def in_block_def)
  ultimately have "vpipe_cv_process \<lparr>j_src = (3, 0), j_dst = (4, 0), j_width = 4096, j_height = 2, j_src_stride = 4096,
      j_dst_stride = 4096\<rparr> 0 th roi (kw_mem (d_kw resized)) = None" for th roi
    by (simp add: mem vpipe_cv_process_def vpipe_copy_frame_def upt_rec Let_def)
  moreover have "d_q resized = \<lparr>lq_srcs = [5], lq_dsts = [6], lq_dones = []\<rparr>" "d_bufs resized = [5 \<mapsto> rows_buffer, 6 \<mapsto> row_buffer]"
    "vb_vaddr rows_buffer = Some (3, 0)" "vb_vaddr row_buffer = Some (4, 0)" "b_algo_id rows_buffer = 0"
    by (simp_all add: resized_def rows_buffer_def row_buffer_def plain_buffer_def)
  ultimately show "vpipe_device_run list_api crc32_le now cpu resized = None"
    by (simp add: vpipe_device_run_def list_api_def ctx Let_def)
qed

end
