(* ===== verification/M2m_Lifecycle.thy ===== *)
theory M2m_Lifecycle
  imports M2m_Jobs
begin

text \<open>
  The life of the module and of one open device file (kmod/vpipe-m2m.c): loading and
  unloading, \<open>open\<close> and \<open>release\<close> with their unwinding on every error, and the private
  ioctls that switch the source of a file and export its framebuffer.  Framework objects are
  counted in a ledger.
\<close>

unbundle bit_operations_syntax

section \<open>Resources\<close>

text \<open>
  The framework objects a path acquires and releases, counted; releasing an object that is
  not held is a fault.
\<close>

datatype resource = R_Ctx | R_Ctrl_Handler | R_Fh | R_Fh_Added | R_M2m_Ctx
  | R_Meta_Dev | R_V4l2_Dev | R_M2m_Dev | R_Video_Dev

type_synonym ledger = "resource \<Rightarrow> nat"

definition acquire :: "resource \<Rightarrow> ledger \<Rightarrow> ledger" where
  "acquire r led = led(r := Suc (led r))"

definition give_back :: "resource \<Rightarrow> ledger \<Rightarrow> ledger option" where
  "give_back r led = (if led r = 0 then None else Some (led(r := led r - 1)))"

fun give_all :: "resource list \<Rightarrow> ledger \<Rightarrow> ledger option" where
  "give_all [] led = Some led"
| "give_all (r # rs) led = do { led \<leftarrow> give_back r led; give_all rs led }"

section \<open>Opening a device file\<close>

record vb2_queue =
  vq_type :: buf_type
  vq_io_modes :: u32
  vq_timestamp_flags :: u32

abbreviation (input) VB2_MMAP :: u32 where "VB2_MMAP \<equiv> 1"
abbreviation (input) VB2_DMABUF :: u32 where "VB2_DMABUF \<equiv> 16"
abbreviation (input) V4L2_BUF_FLAG_TIMESTAMP_MONOTONIC :: u32 where "V4L2_BUF_FLAG_TIMESTAMP_MONOTONIC \<equiv> 0x2000"

text \<open>
  \<open>vpipe_queue_init\<close>, without the pointers it wires into the two queues; \<open>vb2_queue_init\<close> is
  the framework's check of a queue.
\<close>

definition vpipe_queue_init :: "(vb2_queue \<Rightarrow> unit result) \<Rightarrow> (vb2_queue \<times> vb2_queue) result" where
  "vpipe_queue_init vb2_queue_init =
     (let src_vq = \<lparr>vq_type = V4L2_BUF_TYPE_VIDEO_OUTPUT, vq_io_modes = VB2_MMAP OR VB2_DMABUF,
                     vq_timestamp_flags = V4L2_BUF_FLAG_TIMESTAMP_MONOTONIC\<rparr>
      in case vb2_queue_init src_vq of Inl e \<Rightarrow> Inl e
      | Inr _ \<Rightarrow>
         (let dst_vq = \<lparr>vq_type = V4L2_BUF_TYPE_VIDEO_CAPTURE, vq_io_modes = VB2_MMAP OR VB2_DMABUF,
                         vq_timestamp_flags = V4L2_BUF_FLAG_TIMESTAMP_MONOTONIC\<rparr>
          in case vb2_queue_init dst_vq of Inl e \<Rightarrow> Inl e | Inr _ \<Rightarrow> Inr (src_vq, dst_vq)))"

text \<open>
  The answers of the kernel during \<open>open\<close>: whether the context is allocated, the error the
  control handler collected, the framework's checks and its own allocation of the mem2mem
  context, whether the source structure is allocated and at which address.
\<close>

record open_env =
  oe_ctx :: bool
  oe_ctrl_error :: "errno option"
  oe_vb2_queue_init :: "vb2_queue \<Rightarrow> unit result"
  oe_m2m_ctx :: "errno option"
  oe_src :: bool
  oe_src_addr :: nat

text \<open>\<open>v4l2_m2m_ctx_init\<close> calls the driver back for the two queues and passes its error on.\<close>

definition m2m_ctx_init :: "open_env \<Rightarrow> unit result" where
  "m2m_ctx_init env = (case oe_m2m_ctx env of Some e \<Rightarrow> Inl e
     | None \<Rightarrow> (case vpipe_queue_init (oe_vb2_queue_init env) of Inl e \<Rightarrow> Inl e | Inr _ \<Rightarrow> Inr ()))"

definition vpipe_open ::
    "open_env \<Rightarrow> backend_ops registry \<Rightarrow> (nat \<rightharpoonup> source) \<Rightarrow> ledger \<Rightarrow> (vpipe_ctx result \<times> (nat \<rightharpoonup> source) \<times> ledger) option" where
  "vpipe_open env reg srcs led =
     (if \<not> oe_ctx env then Some (Inl ENOMEM, srcs, led)
      else do {
        let led = acquire R_Ctx led;
        let out_q = \<lparr>q_width = VPIPE_DEFAULT_WIDTH, q_height = VPIPE_DEFAULT_HEIGHT, q_bytesperline = VPIPE_DEFAULT_WIDTH,
              q_sizeimage = VPIPE_DEFAULT_WIDTH * VPIPE_DEFAULT_HEIGHT, q_pixelformat = V4L2_PIX_FMT_GREY\<rparr>;
        let ctx = \<lparr>c_out_q = out_q, c_cap_q = out_q, c_src_sequence = 0, c_algo_id = VPIPE_ALGO_NONE,
              c_threshold = VPIPE_DEFAULT_THRESHOLD, c_roi = \<lparr>roi_left = 0, roi_top = 0, roi_width = VPIPE_DEFAULT_WIDTH,
              roi_height = VPIPE_DEFAULT_HEIGHT\<rparr>, c_src = None\<rparr>;
        let led = acquire R_Ctrl_Handler led;
        case oe_ctrl_error env of
          Some err \<Rightarrow> do { led \<leftarrow> give_all [R_Ctrl_Handler, R_Ctx] led; Some (Inl err, srcs, led) }
        | None \<Rightarrow> do {
            let led = acquire R_Fh_Added (acquire R_Fh led);
            case m2m_ctx_init env of
              Inl err \<Rightarrow> do { led \<leftarrow> give_all [R_Fh_Added, R_Fh, R_Ctrl_Handler, R_Ctx] led; Some (Inl err, srcs, led) }
            | Inr _ \<Rightarrow> do {
                let led = acquire R_M2m_Ctx led;
                case vpipe_source_create (oe_src env) VPIPE_BACKEND_FIXTURE reg of
                  Inl err \<Rightarrow> do {
                    led \<leftarrow> give_all [R_M2m_Ctx, R_Fh_Added, R_Fh, R_Ctrl_Handler, R_Ctx] led;
                    Some (Inl err, srcs, led) }
                | Inr src \<Rightarrow> Some (Inr (ctx\<lparr>c_src := Some (oe_src_addr env)\<rparr>), srcs(oe_src_addr env \<mapsto> src), led) } } })"

section \<open>Closing it\<close>

text \<open>
  \<open>destroy_src\<close>: destroying the structure behind a source pointer, which is free afterwards.
\<close>

definition destroy_src :: "nat option \<Rightarrow> 'q vdrv \<Rightarrow> 'q vdrv option" where
  "destroy_src p s = (case p of None \<Rightarrow> Some s
     | Some a \<Rightarrow> do {
         src \<leftarrow> d_srcs s a;
         w \<leftarrow> vpipe_source_destroy ops_of (Some src) (d_kw s);
         Some (s\<lparr>d_kw := w, d_srcs := (d_srcs s)(a := None)\<rparr>) })"

text \<open>\<open>v4l2_m2m_ctx_release\<close> is a parameter: it calls the driver back on queues still streaming.\<close>

definition vpipe_release :: "('q vdrv \<Rightarrow> 'q vdrv option) \<Rightarrow> 'q vdrv \<Rightarrow> ledger \<Rightarrow> ('q vdrv \<times> ledger) option" where
  "vpipe_release v4l2_m2m_ctx_release s led = do {
     s \<leftarrow> destroy_src (c_src (d_ctx s)) s;
     s \<leftarrow> v4l2_m2m_ctx_release s;
     led \<leftarrow> give_all [R_M2m_Ctx, R_Ctrl_Handler, R_Fh_Added, R_Fh, R_Ctx] led;
     Some (s, led) }"

section \<open>Private ioctls\<close>

datatype vpipe_cmd = VPIPE_IOC_SET_BACKEND u32 | VPIPE_IOC_EXPORT_SRC_DMABUF | Other_Cmd u32

text \<open>
  \<open>streaming\<close>: what \<open>vb2_is_streaming\<close> says of the two queues; \<open>kz\<close> and \<open>addr\<close>: whether the new
  source structure is allocated, and where.  The answer carries the file descriptor of an
  export.
\<close>

definition vpipe_default_ioctl ::
    "(buf_type \<Rightarrow> bool) \<Rightarrow> bool \<Rightarrow> nat \<Rightarrow> kenv \<Rightarrow> backend_ops registry \<Rightarrow> vpipe_cmd \<Rightarrow> 'q vdrv \<Rightarrow> (int option result \<times> 'q vdrv) option" where
  "vpipe_default_ioctl streaming kz addr env reg cmd s =
     (case cmd of
        VPIPE_IOC_SET_BACKEND backend_id \<Rightarrow>
          if streaming V4L2_BUF_TYPE_VIDEO_OUTPUT \<or> streaming V4L2_BUF_TYPE_VIDEO_CAPTURE then Some (Inl EBUSY, s)
          else (case vpipe_source_create kz backend_id reg of
                  Inl e \<Rightarrow> Some (Inl e, s)
                | Inr new_src \<Rightarrow> do {
                    let s' = s\<lparr>d_srcs := (d_srcs s)(addr \<mapsto> new_src)\<rparr>;
                    s' \<leftarrow> destroy_src (c_src (d_ctx s')) s';
                    Some (Inr None, s'\<lparr>d_ctx := (d_ctx s')\<lparr>c_src := Some addr\<rparr>\<rparr>) })
      | VPIPE_IOC_EXPORT_SRC_DMABUF \<Rightarrow> do {
          src \<leftarrow> ctx_src s;
          (fd, w) \<leftarrow> vpipe_source_export_dmabuf ops_of env src None (d_kw s);
          Some (case fd of Inl e \<Rightarrow> Inl e | Inr n \<Rightarrow> Inr (Some n), s\<lparr>d_kw := w\<rparr>) }
      | Other_Cmd _ \<Rightarrow> Some (Inl ENOTTY, s))"

section \<open>Loading and unloading the module\<close>

record init_env =
  ie_misc_register :: "unit result"
  ie_v4l2_device_register :: "unit result"
  ie_m2m_init :: "unit result"
  ie_video_register_device :: "unit result"

record vpipe_module =
  vm_meta :: vpipe_meta_dev
  vm_registry :: "backend_ops registry"
  vm_sequence :: u64
  vm_ledger :: ledger

definition meta_exit :: "vpipe_module \<Rightarrow> vpipe_module option" where
  "meta_exit g = do {
     led \<leftarrow> give_back R_Meta_Dev (vm_ledger g);
     Some (g\<lparr>vm_meta := vpipe_meta_exit (vm_meta g), vm_ledger := led\<rparr>) }"

definition release_in :: "resource list \<Rightarrow> vpipe_module \<Rightarrow> vpipe_module option" where
  "release_in rs g = do { led \<leftarrow> give_all rs (vm_ledger g); Some (g\<lparr>vm_ledger := led\<rparr>) }"

definition hold :: "resource \<Rightarrow> vpipe_module \<Rightarrow> vpipe_module" where
  "hold r g = g\<lparr>vm_ledger := acquire r (vm_ledger g)\<rparr>"

definition vpipe_init :: "init_env \<Rightarrow> vpipe_module \<Rightarrow> (unit result \<times> vpipe_module) option" where
  "vpipe_init env g =
     (case vpipe_meta_init (ie_misc_register env) (vm_meta g) of
        (Inl e, m) \<Rightarrow> Some (Inl e, g\<lparr>vm_meta := m\<rparr>)
      | (Inr _, m) \<Rightarrow> do {
          let g = hold R_Meta_Dev (g\<lparr>vm_meta := m\<rparr>);
          let (ret, reg) = register_all (vm_registry g);
          let g = g\<lparr>vm_registry := reg\<rparr>;
          case ret of
            Inl e \<Rightarrow> do { g \<leftarrow> meta_exit g; Some (Inl e, g) }
          | Inr _ \<Rightarrow> do {
              let g = g\<lparr>vm_sequence := 0\<rparr>;
              case ie_v4l2_device_register env of
                Inl e \<Rightarrow> do { g \<leftarrow> meta_exit g; Some (Inl e, g) }
              | Inr _ \<Rightarrow> do {
                  let g = hold R_V4l2_Dev g;
                  case ie_m2m_init env of
                    Inl e \<Rightarrow> do { g \<leftarrow> release_in [R_V4l2_Dev] g; g \<leftarrow> meta_exit g; Some (Inl e, g) }
                  | Inr _ \<Rightarrow> do {
                      let g = hold R_M2m_Dev g;
                      case ie_video_register_device env of
                        Inl e \<Rightarrow> do { g \<leftarrow> release_in [R_M2m_Dev, R_V4l2_Dev] g; g \<leftarrow> meta_exit g; Some (Inl e, g) }
                      | Inr _ \<Rightarrow> Some (Inr (), hold R_Video_Dev g) } } } })"

definition vpipe_exit :: "vpipe_module \<Rightarrow> vpipe_module option" where
  "vpipe_exit g = do { g \<leftarrow> release_in [R_Video_Dev, R_M2m_Dev, R_V4l2_Dev] g; meta_exit g }"

section \<open>Loading and unloading\<close>

lemmas ledger_defs = acquire_def give_back_def hold_def release_in_def meta_exit_def

text \<open>
  C20.  Loading unwinds.  Whichever step of \<open>vpipe_init\<close> fails, every object acquired before is
  released once and none twice; when all succeed the three backends are registered, frame
  numbers start over, and unloading gives back exactly what loading took and marks the
  metadata device as dying.
\<close>

theorem init_unwinds:
  assumes "vm_registry g = registry_init"
  shows "\<exists>r g'. vpipe_init env g = Some (r, g') \<and>
    (case r of Inl e \<Rightarrow> vm_ledger g' = vm_ledger g
     | Inr _ \<Rightarrow> vm_registry g' = full_registry \<and> vm_sequence g' = 0 \<and>
         vm_ledger g' = fold acquire [R_Meta_Dev, R_V4l2_Dev, R_M2m_Dev, R_Video_Dev] (vm_ledger g) \<and>
         (\<exists>g''. vpipe_exit g' = Some g'' \<and> vm_ledger g'' = vm_ledger g \<and> md_dying (vm_meta g'')))"
  using assms
  by (auto simp: vpipe_init_def vpipe_meta_init_def register_all_init vpipe_exit_def ledger_defs vpipe_meta_exit_def
      Let_def fun_eq_iff split: sum.split)

definition fresh_module :: vpipe_module where
  "fresh_module = \<lparr>vm_meta = g_meta_init, vm_registry = registry_init, vm_sequence = 7, vm_ledger = (\<lambda>_. 0)\<rparr>"

theorem init_unwinds_witness:
  "\<exists>r g'. vpipe_init \<lparr>ie_misc_register = Inr (), ie_v4l2_device_register = Inr (), ie_m2m_init = Inl ENOMEM,
       ie_video_register_device = Inr ()\<rparr> fresh_module = Some (r, g')"
proof -
  have "vm_registry fresh_module = registry_init" by (simp add: fresh_module_def)
  from init_unwinds [OF this] show ?thesis by blast
qed

section \<open>Open files\<close>

lemma give_fold_open:
  "give_all [R_M2m_Ctx, R_Ctrl_Handler, R_Fh_Added, R_Fh, R_Ctx]
     (fold acquire [R_Ctx, R_Ctrl_Handler, R_Fh, R_Fh_Added, R_M2m_Ctx] led) = Some led"
  by (simp add: ledger_defs fun_eq_iff)

definition fixture_source :: source where
  "fixture_source = \<lparr>s_backend_id = VPIPE_BACKEND_FIXTURE, s_ops = Some Fixture_Ops, s_priv = None, s_seq = 0,
     s_name = Some ''fixture''\<rparr>"

lemma create_full:
  "vpipe_source_create kz bid full_registry =
     (if bid = 1 \<or> bid = 2 \<or> bid = 3 then if kz then Inr \<lparr>s_backend_id = bid, s_ops = vpipe_backend_ops full_registry ! unat bid,
         s_priv = None, s_seq = 0, s_name = vpipe_backend_name full_registry ! unat bid\<rparr> else Inl ENOMEM
      else Inl EINVAL)"
  using backend_id_cases [of bid] by (auto simp: vpipe_source_create_def full_registry_def vpipe_backend_id_valid_def)

lemma create_fixture: "vpipe_source_create kz 1 full_registry = (if kz then Inr fixture_source else Inl ENOMEM)"
  unfolding create_full by (simp add: full_registry_def fixture_source_def)

lemma full_ops: "bid = 1 \<or> bid = 2 \<or> bid = 3 \<Longrightarrow> \<exists>ops. vpipe_backend_ops full_registry ! unat (bid :: u32) = Some ops"
  by (auto simp: full_registry_def)

lemma give_back_acquire [simp]: "give_back r (acquire r led) = Some led"
  by (simp add: ledger_defs)

lemma open_result:
  "\<exists>r srcs' led'. vpipe_open env full_registry srcs led = Some (r, srcs', led') \<and>
    (case r of Inl e \<Rightarrow> srcs' = srcs \<and> led' = led
     | Inr ctx \<Rightarrow> ctx = default_ctx\<lparr>c_src := Some (oe_src_addr env)\<rparr> \<and> srcs' = srcs(oe_src_addr env \<mapsto> fixture_source) \<and>
         led' = fold acquire [R_Ctx, R_Ctrl_Handler, R_Fh, R_Fh_Added, R_M2m_Ctx] led)"
  by (auto simp: vpipe_open_def Let_def create_fixture default_ctx_def split: option.split sum.split)

text \<open>
  C18.  Opening unwinds.  \<open>vpipe_open\<close> never faults.  On any error every object and structure
  acquired before is released once and nothing is left behind.  On success the new file has
  a well-formed 640 by 480 format on both queues, every control at its declared default and
  a fresh fixture source.
\<close>

theorem open_unwinds:
  "\<exists>r srcs' led'. vpipe_open env full_registry srcs led = Some (r, srcs', led') \<and>
    (case r of Inl e \<Rightarrow> srcs' = srcs \<and> led' = led
     | Inr ctx \<Rightarrow> fmt_ok ctx \<and> q_width (c_out_q ctx) = 640 \<and> q_height (c_out_q ctx) = 480 \<and> ctrl_ok ctx \<and>
         map (\<lambda>cfg. sint (ctrl_value (cc_id cfg) ctx)) vpipe_ctrls = map cc_def vpipe_ctrls \<and>
         c_src ctx = Some (oe_src_addr env) \<and> srcs' = srcs(oe_src_addr env \<mapsto> fixture_source) \<and>
         led' = fold acquire [R_Ctx, R_Ctrl_Handler, R_Fh, R_Fh_Added, R_M2m_Ctx] led)"
proof -
  let ?c = "default_ctx\<lparr>c_src := Some (oe_src_addr env)\<rparr>"
  have "fmt_ok ?c" "q_width (c_out_q ?c) = 640" "q_height (c_out_q ?c) = 480"
    by (simp_all add: fmt_ok_def q_ok_def default_ctx_def Let_def)
  moreover have val: "ctrl_value cid ?c = ctrl_value cid default_ctx" for cid by (simp add: ctrl_value_def)
  then have "ctrl_ok ?c" using default_ctx_ok(2) by (simp add: ctrl_ok_def)
  moreover have "map (\<lambda>cfg. sint (ctrl_value (cc_id cfg) ?c)) vpipe_ctrls = map cc_def vpipe_ctrls"
    by (simp add: vpipe_ctrls_def ctrl_defs ctrl_value_def default_ctx_def Let_def)
  moreover obtain r srcs' led' where o: "vpipe_open env full_registry srcs led = Some (r, srcs', led')"
    and r: "case r of Inl e \<Rightarrow> srcs' = srcs \<and> led' = led | Inr ctx \<Rightarrow> ctx = ?c \<and>
      srcs' = srcs(oe_src_addr env \<mapsto> fixture_source) \<and>
      led' = fold acquire [R_Ctx, R_Ctrl_Handler, R_Fh, R_Fh_Added, R_M2m_Ctx] led"
    using open_result [of env srcs led] by blast
  ultimately show ?thesis by (intro exI [of _ r] exI [of _ srcs'] exI [of _ led']) (cases r; simp)
qed

section \<open>Switching and closing\<close>

text \<open>A source that is not streaming: no private data.\<close>

definition idle :: "source \<Rightarrow> bool" where
  "idle src \<longleftrightarrow> s_priv src = None \<and> s_ops src \<noteq> None"

lemma destroy_idle:
  assumes "idle src"
  shows "vpipe_source_destroy ops_of (Some src) w = Some w"
proof -
  obtain ops where "s_ops src = Some ops" "s_priv src = None" using assms by (auto simp: idle_def)
  then show ?thesis
    by (cases ops) (simp_all add: vpipe_source_destroy_def fixture_ops_def synthetic_ops_def vcam_ops_def
        synthetic_stop_def vcam_stop_def)
qed

lemma create_idle: "vpipe_source_create kz bid full_registry = Inr src \<Longrightarrow> idle src"
  using full_ops [of bid] by (auto simp: create_full idle_def split: if_splits)

lemma set_backend_idle:
  assumes "c_src (d_ctx s) = Some p" "d_srcs s p = Some old" "idle old" "addr \<noteq> p"
  shows "vpipe_default_ioctl streaming kz addr env full_registry (VPIPE_IOC_SET_BACKEND bid) s =
    Some (if streaming V4L2_BUF_TYPE_VIDEO_OUTPUT \<or> streaming V4L2_BUF_TYPE_VIDEO_CAPTURE then (Inl EBUSY, s)
      else case vpipe_source_create kz bid full_registry of Inl e \<Rightarrow> (Inl e, s)
      | Inr src \<Rightarrow> (Inr None, s\<lparr>d_ctx := (d_ctx s)\<lparr>c_src := Some addr\<rparr>, d_srcs := (d_srcs s)(addr \<mapsto> src, p := None)\<rparr>))"
  using assms by (simp add: vpipe_default_ioctl_def destroy_src_def destroy_idle split: sum.split)

text \<open>
  C19.  Switching the backend.  While either queue streams the switch is refused; an unknown
  number or a failed allocation is reported; in all these cases the file keeps its source
  and nothing changes.  Otherwise the file gets a fresh source of that backend with sequence
  number 0, the old one is freed, and no other source is touched.
\<close>

theorem set_backend_switches:
  assumes "c_src (d_ctx s) = Some p" "d_srcs s p = Some old" "idle old" "addr \<noteq> p"
  shows "\<exists>r s'. vpipe_default_ioctl streaming kz addr env full_registry (VPIPE_IOC_SET_BACKEND bid) s = Some (r, s') \<and>
    r = (if streaming V4L2_BUF_TYPE_VIDEO_OUTPUT \<or> streaming V4L2_BUF_TYPE_VIDEO_CAPTURE then Inl EBUSY
         else if bid = 0 \<or> 3 < bid then Inl EINVAL else if \<not> kz then Inl ENOMEM else Inr None) \<and>
    (case r of Inl e \<Rightarrow> s' = s
     | Inr _ \<Rightarrow> c_src (d_ctx s') = Some addr \<and> d_srcs s' p = None \<and> d_kw s' = d_kw s \<and>
        (\<exists>src. d_srcs s' = (d_srcs s)(addr \<mapsto> src, p := None) \<and> s_backend_id src = bid \<and> s_seq src = 0 \<and> idle src))"
proof -
  have range: "(bid = 1 \<or> bid = 2 \<or> bid = 3) = (\<not> (bid = 0 \<or> 3 < bid))"
  proof -
    have "unat bid = 1 \<or> unat bid = 2 \<or> unat bid = 3 \<longleftrightarrow> \<not> (unat bid = 0 \<or> 3 < unat bid)" by linarith
    then show ?thesis by (simp add: word_unat_eq_iff word_less_nat_alt)
  qed
  show ?thesis
    using full_ops [of bid] unfolding set_backend_idle [OF assms] create_full range
    by (auto simp: idle_def)
qed

text \<open>A history of switch requests on an idle file: allocation outcome, address and backend.\<close>

fun switches :: "kenv \<Rightarrow> (bool \<times> nat \<times> u32) list \<Rightarrow> 'q vdrv \<Rightarrow> 'q vdrv option" where
  "switches env [] s = Some s"
| "switches env ((kz, addr, bid) # reqs) s = do {
     (r, s) \<leftarrow> vpipe_default_ioctl (\<lambda>_. False) kz addr env full_registry (VPIPE_IOC_SET_BACKEND bid) s;
     switches env reqs s }"

definition owns_one :: "(nat \<rightharpoonup> source) \<Rightarrow> nat list \<Rightarrow> 'q vdrv \<Rightarrow> bool" where
  "owns_one srcs later s \<longleftrightarrow> (\<exists>p src. c_src (d_ctx s) = Some p \<and> srcs p = None \<and> p \<notin> set later \<and>
     d_srcs s = srcs(p \<mapsto> src) \<and> idle src)"

lemma switches_own:
  assumes "owns_one srcs (map (fst \<circ> snd) reqs) s" "distinct (map (fst \<circ> snd) reqs)"
    "\<forall>a\<in>set (map (fst \<circ> snd) reqs). srcs a = None"
  shows "\<exists>s'. switches env reqs s = Some s' \<and> owns_one srcs [] s' \<and> d_kw s' = d_kw s"
  using assms
proof (induction reqs arbitrary: s)
  case (Cons req reqs)
  obtain kz addr bid where req: "req = (kz, addr, bid)" by (cases req)
  from Cons.prems(1) obtain p src where own: "c_src (d_ctx s) = Some p" "srcs p = None" "p \<noteq> addr"
    "p \<notin> set (map (fst \<circ> snd) reqs)" "d_srcs s = srcs(p \<mapsto> src)" "idle src"
    by (auto simp: owns_one_def req)
  note step = set_backend_idle [OF own(1) _ own(6) own(3) [symmetric], of "\<lambda>_. False" kz env bid]
  show ?case
  proof (cases "vpipe_source_create kz bid full_registry :: source result")
    case (Inl e)
    have "owns_one srcs (map (fst \<circ> snd) reqs) s" using own unfolding owns_one_def by blast
    from Cons.IH [OF this] Cons.prems step own Inl show ?thesis by (simp add: req)
  next
    case (Inr new)
    let ?s = "s\<lparr>d_ctx := (d_ctx s)\<lparr>c_src := Some addr\<rparr>, d_srcs := (d_srcs s)(addr \<mapsto> new, p := None)\<rparr>"
    have "(srcs(p \<mapsto> src))(addr \<mapsto> new, p := None) = srcs(addr \<mapsto> new)" using own by (auto simp: fun_eq_iff)
    then have "owns_one srcs (map (fst \<circ> snd) reqs) ?s"
      using Cons.prems own create_idle [OF Inr] by (auto simp: owns_one_def req intro!: exI [of _ new])
    from Cons.IH [OF this] Cons.prems step own Inr show ?thesis by (simp add: req)
  qed
qed (auto simp: owns_one_def)

text \<open>
  C12.  Opening, switching and closing leaves nothing behind.  After a successful open and any
  history of backend switches on the idle file, each at a fresh address, closing it does not
  fault, frees the one source the file owns, and restores the ledger and the set of live
  sources that were there before the open; no memory of the backends changes.
\<close>

theorem open_switch_close_balanced:
  fixes s :: "'q vdrv"
  assumes "vpipe_open oenv full_registry srcs led = Some (Inr ctx, srcs', led')"
    and "d_ctx s = ctx" "d_srcs s = srcs'"
    and "distinct (oe_src_addr oenv # map (fst \<circ> snd) reqs)"
    and "\<forall>a\<in>set (oe_src_addr oenv # map (fst \<circ> snd) reqs). srcs a = None"
  shows "\<exists>s1 s2. switches env reqs s = Some s1 \<and> vpipe_release Some s1 led' = Some (s2, led) \<and>
    d_srcs s2 = srcs \<and> d_kw s2 = d_kw s"
proof -
  have o: "ctx = default_ctx\<lparr>c_src := Some (oe_src_addr oenv)\<rparr>" "srcs' = srcs(oe_src_addr oenv \<mapsto> fixture_source)"
    "led' = fold acquire [R_Ctx, R_Ctrl_Handler, R_Fh, R_Fh_Added, R_M2m_Ctx] led"
    using open_result [of oenv srcs led] assms(1) by auto
  have "owns_one srcs (map (fst \<circ> snd) reqs) s"
    using assms o by (auto simp: owns_one_def idle_def fixture_source_def)
  with switches_own [of srcs reqs s env] assms obtain s1 p src where
    run: "switches env reqs s = Some s1" "d_kw s1 = d_kw s"
    and own: "c_src (d_ctx s1) = Some p" "srcs p = None" "d_srcs s1 = srcs(p \<mapsto> src)" "idle src"
    by (auto simp: owns_one_def)
  have "srcs(p := None) = srcs" using own by auto
  then have "vpipe_release Some s1 led' = Some (s1\<lparr>d_srcs := srcs\<rparr>, led)"
    unfolding vpipe_release_def o(3) give_fold_open by (simp add: destroy_src_def own destroy_idle)
  with run show ?thesis by simp
qed

text \<open>
  C31.  Closing a streaming file uses freed memory.  \<open>vpipe_release\<close> destroys the source before
  it releases the mem2mem context, which calls \<open>vpipe_stop_streaming\<close> for a queue that still
  streams; that callback then follows the pointer to the freed source.  The other order,
  stopping first, ends without a fault.
\<close>

theorem release_uses_freed_source:
  assumes "vpipe_open oenv full_registry srcs led = Some (Inr ctx, srcs', led')"
    and "d_ctx s = ctx" "d_srcs s = srcs'" and "m2m_laws api ready_srcs ready_dsts dones"
  shows "(\<exists>s1. destroy_src (c_src (d_ctx s)) s = Some s1 \<and> vpipe_stop_streaming api V4L2_BUF_TYPE_VIDEO_OUTPUT s1 = None) \<and>
    vpipe_release (vpipe_stop_streaming api V4L2_BUF_TYPE_VIDEO_OUTPUT) s led' = None \<and>
    (\<exists>s1 s2. vpipe_stop_streaming api V4L2_BUF_TYPE_VIDEO_OUTPUT s = Some s1 \<and> destroy_src (c_src (d_ctx s1)) s1 = Some s2)"
proof -
  have o: "ctx = default_ctx\<lparr>c_src := Some (oe_src_addr oenv)\<rparr>" "srcs' = srcs(oe_src_addr oenv \<mapsto> fixture_source)"
    using open_result [of oenv srcs led] assms(1) by auto
  have f: "idle fixture_source" "s_ops fixture_source = Some Fixture_Ops" by (simp_all add: idle_def fixture_source_def)
  obtain q where "vpipe_return_all_buffers api V4L2_BUF_TYPE_VIDEO_OUTPUT (d_q s) = Some q"
    using return_all_buffers_ends [OF assms(4)] by blast
  then show ?thesis
    using assms(2,3) o f
    by (simp add: destroy_src_def destroy_idle vpipe_release_def vpipe_stop_streaming_def ctx_src_def
        vpipe_source_stop_def fixture_ops_def put_src_def)
qed

section \<open>Examples\<close>

definition good_open :: open_env where
  "good_open = \<lparr>oe_ctx = True, oe_ctrl_error = None, oe_vb2_queue_init = (\<lambda>_. Inr ()), oe_m2m_ctx = None, oe_src = True,
     oe_src_addr = 50\<rparr>"

definition opened :: "list_q vdrv" where
  "opened = demo\<lparr>d_ctx := default_ctx\<lparr>c_src := Some 50\<rparr>, d_srcs := [50 \<mapsto> fixture_source]\<rparr>"

lemma good_open_ok: "vpipe_open good_open full_registry Map.empty (\<lambda>_. 0) = Some (Inr (default_ctx\<lparr>c_src := Some 50\<rparr>),
    [50 \<mapsto> fixture_source], fold acquire [R_Ctx, R_Ctrl_Handler, R_Fh, R_Fh_Added, R_M2m_Ctx] (\<lambda>_. 0))"
  by (simp add: vpipe_open_def good_open_def m2m_ctx_init_def vpipe_queue_init_def create_fixture default_ctx_def Let_def)

lemma opened_fields: "d_ctx opened = default_ctx\<lparr>c_src := Some 50\<rparr>" "d_srcs opened = [50 \<mapsto> fixture_source]"
  "oe_src_addr good_open = 50"
  by (simp_all add: opened_def good_open_def)

theorem set_backend_switches_witness:
  "\<exists>s'. vpipe_default_ioctl (\<lambda>_. False) True 51 small_env full_registry (VPIPE_IOC_SET_BACKEND 3) opened = Some (Inr None, s') \<and>
     c_src (d_ctx s') = Some 51 \<and> d_srcs s' 50 = None"
  using set_backend_switches [of opened 50 fixture_source 51 "\<lambda>_. False" True small_env 3]
  by (auto simp: opened_fields idle_def fixture_source_def)

theorem open_switch_close_balanced_witness:
  "\<exists>s1 s2. switches small_env [(True, 51, 3), (True, 52, 9), (False, 53, 2)] opened = Some s1 \<and>
     vpipe_release Some s1 (fold acquire [R_Ctx, R_Ctrl_Handler, R_Fh, R_Fh_Added, R_M2m_Ctx] (\<lambda>_. 0)) = Some (s2, \<lambda>_. 0) \<and>
     d_srcs s2 = Map.empty"
  using open_switch_close_balanced [OF good_open_ok opened_fields(1,2), of "[(True, 51, 3), (True, 52, 9), (False, 53, 2)]" small_env]
  by (auto simp: opened_fields)

theorem release_uses_freed_source_witness:
  "vpipe_release (vpipe_stop_streaming list_api V4L2_BUF_TYPE_VIDEO_OUTPUT) opened
     (fold acquire [R_Ctx, R_Ctrl_Handler, R_Fh, R_Fh_Added, R_M2m_Ctx] (\<lambda>_. 0)) = None"
  using release_uses_freed_source [OF good_open_ok opened_fields(1,2) list_api_laws] by blast

end
