(* ===== verification/Meta_Interleaving.thy ===== *)
theory Meta_Interleaving
  imports Meta_Ring
begin

text \<open>
  Concurrent readers of the metadata device (kmod/vpipe-meta.c).  The spinlock protects the
  ring and the copy of the entry, but the copy to user space and the cursor advance come
  after the unlock, so a \<open>read\<close> is two atomic steps between which other threads publish,
  open, read and close.  The step relation below interleaves them freely.  With one read at
  a time on each open file the cursor never passes the head and every delivered entry is a
  published one, in increasing order; two threads that share one open file break both.
\<close>

unbundle bit_operations_syntax

section \<open>Interleaved steps\<close>

text \<open>
  The open files, the reads between their two steps (by thread: the file, and the entry
  copied out under the lock), and what user space has received: file, cursor, entry.
\<close>

record meta_sys =
  sys_dev :: vpipe_meta_dev
  sys_files :: "nat \<rightharpoonup> vpipe_meta_file"
  sys_calls :: "nat \<rightharpoonup> nat \<times> vpipe_meta_entry"
  sys_out :: "(nat \<times> u64 \<times> vpipe_meta_entry) list"

definition sys_init :: meta_sys where
  "sys_init = \<lparr>sys_dev = g_meta_init, sys_files = (\<lambda>_. None), sys_calls = (\<lambda>_. None), sys_out = []\<rparr>"

text \<open>
  A publication is only considered while the 64-bit head does not wrap.  The kernel runs
  \<open>release\<close> when no call on the file is in progress; file numbers are never reused.
\<close>

inductive meta_step :: "meta_sys \<Rightarrow> meta_sys \<Rightarrow> bool" where
  publish: "Suc (unat (md_head (sys_dev s))) < 2 ^ 64 \<Longrightarrow>
    meta_step s (s\<lparr>sys_dev := vpipe_meta_publish e (sys_dev s)\<rparr>)"
| opened: "sys_files s i = None \<Longrightarrow> i \<notin> fst ` set (sys_out s) \<Longrightarrow> vpipe_meta_open True (sys_dev s) = Inr f \<Longrightarrow>
    meta_step s (s\<lparr>sys_files := (sys_files s)(i \<mapsto> f)\<rparr>)"
| released: "\<forall>t e. sys_calls s t \<noteq> Some (i, e) \<Longrightarrow>
    meta_step s (s\<lparr>sys_files := vpipe_meta_release i (sys_files s)\<rparr>)"
| read_locked: "sys_calls s t = None \<Longrightarrow> sys_files s i = Some f \<Longrightarrow>
    vpipe_meta_read_section (sys_dev s) f = (Inr (Some e), f') \<Longrightarrow>
    meta_step s (s\<lparr>sys_files := (sys_files s)(i \<mapsto> f'), sys_calls := (sys_calls s)(t \<mapsto> (i, e))\<rparr>)"
| read_copied: "sys_calls s t = Some (i, e) \<Longrightarrow> sys_files s i = Some f \<Longrightarrow>
    vpipe_meta_read_finish True e f = (r, f') \<Longrightarrow>
    meta_step s (s\<lparr>sys_files := (sys_files s)(i \<mapsto> f'), sys_calls := (sys_calls s)(t := None),
      sys_out := sys_out s @ [(i, mf_tail f, e)]\<rparr>)"
| read_faulted: "sys_calls s t = Some (i, e) \<Longrightarrow> sys_files s i = Some f \<Longrightarrow>
    vpipe_meta_read_finish False e f = (r, f') \<Longrightarrow>
    meta_step s (s\<lparr>sys_files := (sys_files s)(i \<mapsto> f'), sys_calls := (sys_calls s)(t := None)\<rparr>)"
| exiting: "meta_step s (s\<lparr>sys_dev := vpipe_meta_exit (sys_dev s)\<rparr>)"

definition one_call_per_file :: "meta_sys \<Rightarrow> bool" where
  "one_call_per_file s \<longleftrightarrow>
     (\<forall>t t' i e e'. sys_calls s t = Some (i, e) \<longrightarrow> sys_calls s t' = Some (i, e') \<longrightarrow> t = t')"

text \<open>Reachable states under free interleaving, and under one call per file.\<close>

inductive reach :: "meta_sys \<Rightarrow> bool" where
  start: "reach sys_init"
| step: "reach s \<Longrightarrow> meta_step s s' \<Longrightarrow> reach s'"

inductive reach1 :: "meta_sys \<Rightarrow> bool" where
  start: "reach1 sys_init"
| step: "reach1 s \<Longrightarrow> meta_step s s' \<Longrightarrow> one_call_per_file s' \<Longrightarrow> reach1 s'"

inductive_cases meta_step_cases: "meta_step s s'"

section \<open>One call per file\<close>

definition from_log :: "vpipe_meta_entry list \<Rightarrow> nat \<Rightarrow> vpipe_meta_entry \<Rightarrow> bool" where
  "from_log L k e \<longleftrightarrow> k < length L \<and> (e = L ! k \<or> e = mark_overrun True (L ! k))"

definition cursors :: "nat \<Rightarrow> meta_sys \<Rightarrow> nat list" where
  "cursors i s = map (\<lambda>(_, c, _). unat c) (filter (\<lambda>(j, _). j = i) (sys_out s))"

text \<open>
  The invariant: cursors do not pass the head, a read in progress holds the log entry under
  its file's cursor, and each file has received log entries at increasing cursors.
\<close>

definition sys_inv :: "meta_sys \<Rightarrow> vpipe_meta_entry list \<Rightarrow> bool" where
  "sys_inv s L \<longleftrightarrow> meta_inv (sys_dev s) L \<and>
     (\<forall>i f. sys_files s i = Some f \<longrightarrow> unat (mf_tail f) \<le> length L \<and> (\<forall>c\<in>set (cursors i s). c < unat (mf_tail f))) \<and>
     (\<forall>t i e. sys_calls s t = Some (i, e) \<longrightarrow> (\<exists>f. sys_files s i = Some f \<and> from_log L (unat (mf_tail f)) e)) \<and>
     (\<forall>(i, c, e)\<in>set (sys_out s). from_log L (unat c) e) \<and>
     (\<forall>i. sorted_wrt (<) (cursors i s))"

lemma from_log_append: "from_log L k e \<Longrightarrow> from_log (L @ L') k e"
  by (auto simp: from_log_def nth_append)

lemma meta_inv_exit: "meta_inv g L \<Longrightarrow> meta_inv (vpipe_meta_exit g) L"
  by (simp add: meta_inv_def vpipe_meta_exit_def)

lemma read_section_log:
  assumes "meta_inv g L" "unat (mf_tail f) \<le> length L" "vpipe_meta_read_section g f = (Inr (Some e), f')"
  shows "from_log L (unat (mf_tail f')) e \<and> unat (mf_tail f) \<le> unat (mf_tail f')"
proof -
  have alive: "\<not> md_dying g" using assms(3) by (auto simp: vpipe_meta_read_section_def)
  let ?t = "unat (mf_tail f)" and ?i = "max (unat (mf_tail f)) (length L - 256)"
  have ne: "?t \<noteq> length L" and e: "e = mark_overrun (?t < length L - 256) (L ! ?i)" and f': "f' = \<lparr>mf_tail = of_nat ?i\<rparr>"
    using assms(3) read_section_spec [OF assms(1) alive assms(2)] by (auto simp: Let_def split: if_splits)
  have "?i < length L" using ne assms(2) by auto
  moreover have "length L < 2 ^ 64" using assms(1) by (simp add: meta_inv_def)
  ultimately have "unat (mf_tail f') = ?i" using f' by (simp add: unat_u64_of_nat)
  then show ?thesis using \<open>?i < length L\<close> e
    by (cases "?t < length L - 256") (simp_all add: from_log_def)
qed

lemma cursors_snoc [simp]:
  "cursors i (s\<lparr>sys_files := fs, sys_calls := cs, sys_out := sys_out s @ [(j, c, e)]\<rparr>) =
     cursors i s @ (if i = j then [unat c] else [])"
  by (simp add: cursors_def)

lemma cursors_same [simp]:
  "cursors i (s\<lparr>sys_dev := g\<rparr>) = cursors i s"
  "cursors i (s\<lparr>sys_files := fs\<rparr>) = cursors i s"
  "cursors i (s\<lparr>sys_calls := cs\<rparr>) = cursors i s"
  "cursors i (s\<lparr>sys_files := fs, sys_calls := cs\<rparr>) = cursors i s"
  by (simp_all add: cursors_def)

lemma cursors_fresh: "i \<notin> fst ` set (sys_out s) \<Longrightarrow> cursors i s = []"
  by (auto simp: cursors_def filter_empty_conv image_iff)

lemma sys_inv_dest:
  assumes "sys_inv s L"
  shows "meta_inv (sys_dev s) L"
    and "sys_files s i = Some f \<Longrightarrow> unat (mf_tail f) \<le> length L"
    and "sys_files s i = Some f \<Longrightarrow> c \<in> set (cursors i s) \<Longrightarrow> c < unat (mf_tail f)"
    and "sys_calls s t = Some (i, e) \<Longrightarrow> \<exists>f. sys_files s i = Some f \<and> from_log L (unat (mf_tail f)) e"
    and "(i, d, e) \<in> set (sys_out s) \<Longrightarrow> from_log L (unat d) e"
    and "sorted_wrt (<) (cursors i s)"
  using assms unfolding sys_inv_def by blast+

lemma sys_inv_publish:
  assumes inv: "sys_inv s L" and room: "Suc (unat (md_head (sys_dev s))) < 2 ^ 64"
  shows "sys_inv (s\<lparr>sys_dev := vpipe_meta_publish e (sys_dev s)\<rparr>) (L @ [normalize_entry e])"
proof -
  note d = sys_inv_dest [OF inv]
  have "meta_inv (vpipe_meta_publish e (sys_dev s)) (L @ [normalize_entry e])"
    using d(1) room by (simp add: meta_inv_publish meta_inv_head)
  moreover have "\<exists>f. sys_files s i = Some f \<and> from_log (L @ [normalize_entry e]) (unat (mf_tail f)) e'"
    if "sys_calls s t = Some (i, e')" for t i e'
    using d(4) [OF that] from_log_append by blast
  ultimately show ?thesis
    unfolding sys_inv_def by (auto intro: from_log_append d le_SucI)
qed

lemma sys_inv_open:
  assumes inv: "sys_inv s L" and new: "sys_files s i = None" "i \<notin> fst ` set (sys_out s)"
    and f: "vpipe_meta_open True (sys_dev s) = Inr f"
  shows "sys_inv (s\<lparr>sys_files := (sys_files s)(i \<mapsto> f)\<rparr>) L"
proof -
  note d = sys_inv_dest [OF inv]
  have tail: "unat (mf_tail f) = length L"
    using f meta_inv_head [OF d(1)] by (auto simp: vpipe_meta_open_def)
  have "\<exists>f'. ((sys_files s)(i \<mapsto> f)) j = Some f' \<and> from_log L (unat (mf_tail f')) e"
    if "sys_calls s t = Some (j, e)" for t j e
    using d(4) [OF that] new(1) by (cases "j = i") auto
  then show ?thesis
    unfolding sys_inv_def using cursors_fresh [OF new(2)] by (auto intro: d simp: tail)
qed

lemma sys_inv_release:
  assumes "sys_inv s L" "\<forall>t e. sys_calls s t \<noteq> Some (i, e)"
  shows "sys_inv (s\<lparr>sys_files := vpipe_meta_release i (sys_files s)\<rparr>) L"
  using assms unfolding sys_inv_def vpipe_meta_release_def
  by simp

lemma sys_inv_locked:
  assumes inv: "sys_inv s L" and f: "sys_files s i = Some f"
    and sec: "vpipe_meta_read_section (sys_dev s) f = (Inr (Some e), f')"
    and alone: "\<forall>t e. sys_calls s t \<noteq> Some (i, e)"
  shows "sys_inv (s\<lparr>sys_files := (sys_files s)(i \<mapsto> f'), sys_calls := (sys_calls s)(t \<mapsto> (i, e))\<rparr>) L"
proof -
  have "meta_inv (sys_dev s) L" "unat (mf_tail f) \<le> length L" using inv f by (auto simp: sys_inv_def)
  from read_section_log [OF this sec] have "from_log L (unat (mf_tail f')) e" "unat (mf_tail f) \<le> unat (mf_tail f')"
    by auto
  moreover from this have "unat (mf_tail f') \<le> length L" by (simp add: from_log_def)
  moreover have "\<forall>c\<in>set (cursors i s). c < unat (mf_tail f')"
    using sys_inv_dest(3) [OF inv f] calculation(2) by fastforce
  ultimately show ?thesis
    using inv f alone unfolding sys_inv_def by auto
qed

lemma sys_inv_copied:
  assumes inv: "sys_inv s L" and call: "sys_calls s t = Some (i, e)" and f: "sys_files s i = Some f"
    and fin: "vpipe_meta_read_finish True e f = (r, f')"
    and alone: "\<forall>t' e'. t' \<noteq> t \<longrightarrow> sys_calls s t' \<noteq> Some (i, e')"
  shows "sys_inv (s\<lparr>sys_files := (sys_files s)(i \<mapsto> f'), sys_calls := (sys_calls s)(t := None),
    sys_out := sys_out s @ [(i, mf_tail f, e)]\<rparr>) L"
proof -
  have log: "from_log L (unat (mf_tail f)) e" and cs: "\<forall>c\<in>set (cursors i s). c < unat (mf_tail f)"
    and len: "length L < 2 ^ 64"
    using inv call f by (fastforce simp: sys_inv_def meta_inv_def)+
  have "f' = f\<lparr>mf_tail := mf_tail f + 1\<rparr>" using fin by (simp add: vpipe_meta_read_finish_def)
  moreover have "unat (mf_tail f + 1) = Suc (unat (mf_tail f))"
    using log len by (intro unat_add_lem [THEN iffD1, THEN trans]) (auto simp: from_log_def)
  ultimately show ?thesis
    using inv f alone log cs unfolding sys_inv_def
    by (auto simp: sorted_wrt_append from_log_def less_SucI)
qed

lemma sys_inv_faulted:
  assumes inv: "sys_inv s L" and f: "sys_files s i = Some f"
    and fin: "vpipe_meta_read_finish False e f = (r, f')"
  shows "sys_inv (s\<lparr>sys_files := (sys_files s)(i \<mapsto> f'), sys_calls := (sys_calls s)(t := None)\<rparr>) L"
proof -
  have "f' = f" using fin by (simp add: vpipe_meta_read_finish_def)
  then show ?thesis
    using inv unfolding sys_inv_def by (simp add: map_upd_triv [of "sys_files s" i f] f)
qed

lemma sys_inv_step:
  assumes inv: "sys_inv s L" and "meta_step s s'" "one_call_per_file s" "one_call_per_file s'"
  shows "\<exists>L'. sys_inv s' L'"
  using assms(2)
proof (cases rule: meta_step.cases)
  case (read_locked t i f e f')
  have "\<forall>t' e'. sys_calls s t' \<noteq> Some (i, e')"
  proof (intro allI notI)
    fix t' e' assume c: "sys_calls s t' = Some (i, e')"
    with read_locked(2) have ne: "t' \<noteq> t" by auto
    have "sys_calls s' t = Some (i, e)" "sys_calls s' t' = Some (i, e')"
      using c ne by (simp_all add: read_locked(1))
    then have "t' = t" using assms(4) unfolding one_call_per_file_def by blast
    with ne show False by simp
  qed
  from sys_inv_locked [OF inv read_locked(3,4) this] show ?thesis unfolding read_locked(1) by blast
next
  case (read_copied t i e f r f')
  have "\<forall>t' e'. t' \<noteq> t \<longrightarrow> sys_calls s t' \<noteq> Some (i, e')"
    using assms(3) read_copied(2) unfolding one_call_per_file_def by blast
  from sys_inv_copied [OF inv read_copied(2-4) this] show ?thesis unfolding read_copied(1) by blast
next
  case (publish e)
  from sys_inv_publish [OF inv publish(2)] show ?thesis unfolding publish(1) by blast
next
  case (opened i f)
  from sys_inv_open [OF inv opened(2-4)] show ?thesis unfolding opened(1) by blast
next
  case (released i)
  from sys_inv_release [OF inv released(2)] show ?thesis unfolding released(1) by blast
next
  case (read_faulted t i e f r f')
  from sys_inv_faulted [OF inv read_faulted(3,4)] show ?thesis unfolding read_faulted(1) by blast
next
  case exiting
  then have "sys_inv s' L" using inv meta_inv_exit by (simp add: sys_inv_def)
  then show ?thesis by blast
qed

lemma reach1_inv: "reach1 s \<Longrightarrow> one_call_per_file s \<and> (\<exists>L. sys_inv s L)"
proof (induction rule: reach1.induct)
  case start
  have "sys_inv sys_init []"
    by (simp add: sys_inv_def sys_init_def meta_inv_init cursors_def)
  then show ?case by (auto simp: one_call_per_file_def sys_init_def)
next
  case (step s s')
  then show ?case using sys_inv_step by blast
qed


section \<open>Concrete runs\<close>

text \<open>
  One publication, one open file (number 0) whose cursor is at 0: the states of the runs
  below, by the cursor, the reads in progress and the entries delivered.
\<close>

definition run_state :: "u64 \<Rightarrow> (nat \<rightharpoonup> nat \<times> vpipe_meta_entry) \<Rightarrow> (nat \<times> u64 \<times> vpipe_meta_entry) list \<Rightarrow> meta_sys" where
  "run_state c calls out = \<lparr>sys_dev = vpipe_meta_publish zero_meta_entry g_meta_init,
     sys_files = [0 \<mapsto> \<lparr>mf_tail = c\<rparr>], sys_calls = calls, sys_out = out\<rparr>"

lemma run_section:
  "vpipe_meta_read_section (vpipe_meta_publish zero_meta_entry g_meta_init) \<lparr>mf_tail = c\<rparr> =
    (if c = 1 then (Inl EAGAIN, \<lparr>mf_tail = c\<rparr>)
     else (Inr (Some (if c AND 255 = 0 then normalize_entry zero_meta_entry else zero_meta_entry)), \<lparr>mf_tail = c\<rparr>))"
proof -
  have slot: "(c AND 255 = 0) = (unat (c AND 255) = 0)" by (simp add: unat_eq_0)
  have lt: "unat (c AND 255) < 256" by (simp only: unat_and_ring_mask mod_less_divisor)
  show ?thesis unfolding slot using lt
    by (auto simp: vpipe_meta_read_section_def vpipe_meta_publish_def g_meta_init_def Let_def
        nth_list_update)
qed

lemma run_locked:
  assumes "calls t = None" "c \<noteq> 1"
  shows "meta_step (run_state c calls out)
    (run_state c (calls(t \<mapsto> (0, if c AND 255 = 0 then normalize_entry zero_meta_entry else zero_meta_entry))) out)"
proof -
  from assms have "meta_step (run_state c calls out) ((run_state c calls out)
     \<lparr>sys_files := (sys_files (run_state c calls out))(0 \<mapsto> \<lparr>mf_tail = c\<rparr>),
      sys_calls := (sys_calls (run_state c calls out))
        (t \<mapsto> (0, if c AND 255 = 0 then normalize_entry zero_meta_entry else zero_meta_entry))\<rparr>)"
    by (intro meta_step.read_locked [where f = "\<lparr>mf_tail = c\<rparr>"]) (simp_all add: run_state_def run_section)
  then show ?thesis by (simp add: run_state_def)
qed

lemma run_copied:
  assumes "calls t = Some (0, e)"
  shows "meta_step (run_state c calls out) (run_state (c + 1) (calls(t := None)) (out @ [(0, c, e)]))"
proof -
  from assms have "meta_step (run_state c calls out) ((run_state c calls out)
     \<lparr>sys_files := (sys_files (run_state c calls out))(0 \<mapsto> \<lparr>mf_tail = c + 1\<rparr>),
      sys_calls := (sys_calls (run_state c calls out))(t := None),
      sys_out := sys_out (run_state c calls out) @ [(0, mf_tail \<lparr>mf_tail = c\<rparr>, e)]\<rparr>)"
    by (intro meta_step.read_copied [where r = "Inr (Some e)"])
      (simp_all add: run_state_def vpipe_meta_read_finish_def)
  then show ?thesis by (simp add: run_state_def)
qed

lemma run_start: "reach1 (run_state 0 (\<lambda>_. None) [])" "reach (run_state 0 (\<lambda>_. None) [])"
proof -
  have o: "meta_step sys_init (sys_init\<lparr>sys_files := (sys_files sys_init)(0 \<mapsto> \<lparr>mf_tail = 0\<rparr>)\<rparr>)" (is "meta_step _ ?s")
    by (intro meta_step.opened) (simp_all add: sys_init_def vpipe_meta_open_def g_meta_init_def)
  have p: "meta_step ?s (?s\<lparr>sys_dev := vpipe_meta_publish zero_meta_entry (sys_dev ?s)\<rparr>)"
    by (intro meta_step.publish) (simp add: sys_init_def g_meta_init_def)
  have eq: "?s\<lparr>sys_dev := vpipe_meta_publish zero_meta_entry (sys_dev ?s)\<rparr> = run_state 0 (\<lambda>_. None) []"
    by (simp add: sys_init_def run_state_def)
  have one: "one_call_per_file ?s" "one_call_per_file (run_state 0 (\<lambda>_. None) [])"
    by (simp_all add: one_call_per_file_def sys_init_def run_state_def)
  show "reach1 (run_state 0 (\<lambda>_. None) [])"
    using reach1.step [OF reach1.step [OF reach1.start o one(1)] p] one(2) unfolding eq by blast
  show "reach (run_state 0 (\<lambda>_. None) [])"
    using reach.step [OF reach.step [OF reach.start o] p] unfolding eq .
qed

text \<open>A single reader receives the one published entry.\<close>

lemma run_single: "reach1 (run_state 1 (\<lambda>_. None) [(0, 0, normalize_entry zero_meta_entry)])"
proof -
  let ?E = "normalize_entry zero_meta_entry"
  have "meta_step (run_state 0 (\<lambda>_. None) []) (run_state 0 [7 \<mapsto> (0, ?E)] [])"
    using run_locked [of "\<lambda>_. None" 7 0 "[]"] by simp
  from reach1.step [OF run_start(1) this] have r: "reach1 (run_state 0 [7 \<mapsto> (0, ?E)] [])"
    by (simp add: one_call_per_file_def run_state_def)
  have "meta_step (run_state 0 [7 \<mapsto> (0, ?E)] []) (run_state 1 (\<lambda>_. None) [(0, 0, ?E)])"
    using run_copied [of "[7 \<mapsto> (0, ?E)]" 7 ?E 0 "[]"] by simp
  from reach1.step [OF r this] show ?thesis
    by (simp add: one_call_per_file_def run_state_def)
qed


text \<open>
  C28.  Two threads that read the same open file at once break the channel: after a single
  publication they both receive the one entry, the cursor moves past the head, and the next
  read delivers a slot that was never published (version 0), because the cursor is advanced
  outside the lock that the entry was chosen under.
\<close>

theorem meta_reads_race:
  "\<exists>s. reach s \<and> sys_out s =
     [(0, 0, normalize_entry zero_meta_entry), (0, 1, normalize_entry zero_meta_entry), (0, 2, zero_meta_entry)] \<and>
     md_head (sys_dev s) = 1"
proof -
  let ?E = "normalize_entry zero_meta_entry"
  have "reach (run_state 0 [7 \<mapsto> (0, ?E)] [])"
    using reach.step [OF run_start(2) run_locked [of "\<lambda>_. None" 7 0 "[]"]] by simp
  from reach.step [OF this run_locked [of _ 8 0]] have "reach (run_state 0 [7 \<mapsto> (0, ?E), 8 \<mapsto> (0, ?E)] [])"
    by simp
  from reach.step [OF this run_copied [of _ 7 ?E]] have "reach (run_state 1 [8 \<mapsto> (0, ?E)] [(0, 0, ?E)])"
    by (simp add: fun_upd_twist)
  from reach.step [OF this run_copied [of _ 8 ?E]] have "reach (run_state 2 (\<lambda>_. None) [(0, 0, ?E), (0, 1, ?E)])"
    by simp
  from reach.step [OF this run_locked [of _ 7 2]]
  have "reach (run_state 2 [7 \<mapsto> (0, zero_meta_entry)] [(0, 0, ?E), (0, 1, ?E)])"
    by simp
  from reach.step [OF this run_copied [of _ 7 zero_meta_entry]]
  have r: "reach (run_state 3 (\<lambda>_. None) [(0, 0, ?E), (0, 1, ?E), (0, 2, zero_meta_entry)])"
    by simp
  show ?thesis
    by (rule exI, rule conjI [OF r]) (simp add: run_state_def vpipe_meta_publish_def g_meta_init_def)
qed

end
