(* ===== verification/User_Steps.thy ===== *)
theory User_Steps
  imports Vpipe_Prelude
begin

text \<open>
  How the longer user-space programs are modelled: as steps on the program's local variables
  and the state of the system.  A step ends the program early when a call fails, which is the
  sources' \<open>goto cleanup\<close>; the rules here prove that programs made of such steps return.
\<close>

section \<open>Steps\<close>

text \<open>
  The value \<open>False\<close> is a jump to the label \<open>cleanup\<close>; \<open>None\<close> is a fault or a system call that
  never returns.
\<close>

type_synonym ('s, 'w) step = "'s \<times> 'w \<Rightarrow> (bool \<times> 's \<times> 'w) option"

definition andthen :: "('s, 'w) step \<Rightarrow> ('s, 'w) step \<Rightarrow> ('s, 'w) step" where
  "andthen f g s = do { (go, s) \<leftarrow> f s; if go then g s else Some (False, s) }"

fun each :: "('a \<Rightarrow> ('s, 'w) step) \<Rightarrow> 'a list \<Rightarrow> ('s, 'w) step" where
  "each f [] s = Some (True, s)"
| "each f (x # xs) s = do { (go, s) \<leftarrow> f x s; if go then each f xs s else Some (False, s) }"

text \<open>Assigning local variables, testing them, and a block of steps.\<close>

definition assign :: "('s \<Rightarrow> 's) \<Rightarrow> ('s, 'w) step" where
  "assign f = (\<lambda>(s, w). Some (True, f s, w))"

definition check :: "('s \<Rightarrow> bool) \<Rightarrow> ('s, 'w) step" where
  "check b = (\<lambda>(s, w). Some (b s, s, w))"

fun block :: "('s, 'w) step list \<Rightarrow> ('s, 'w) step" where
  "block [] s = Some (True, s)"
| "block (f # fs) s = andthen f (block fs) s"

text \<open>
  A call that may fail, and one whose value the rest of the block uses; a call without a value
  has failed.
\<close>

definition call :: "('s \<Rightarrow> 'w \<Rightarrow> (bool \<times> 'w) option) \<Rightarrow> ('s, 'w) step" where
  "call f = (\<lambda>(s, w). do { (go, w) \<leftarrow> f s w; Some (go, s, w) })"

definition fetch :: "('s \<Rightarrow> 'w \<Rightarrow> ('a option \<times> 'w) option) \<Rightarrow> ('a \<Rightarrow> ('s, 'w) step) \<Rightarrow> ('s, 'w) step" where
  "fetch f k = (\<lambda>(s, w). do {
     (r, w) \<leftarrow> f s w;
     (case r of None \<Rightarrow> Some (False, s, w) | Some a \<Rightarrow> k a (s, w)) })"

section \<open>Total correctness\<close>

text \<open>The calls that leave the resources of the process alone.\<close>

named_theorems quiet_calls

text \<open>From \<open>P\<close> the step ends without a fault, in \<open>Q\<close> when it goes on and in \<open>R\<close> when it leaves the program.\<close>

definition ends :: "('s \<times> 'w \<Rightarrow> bool) \<Rightarrow> ('s, 'w) step \<Rightarrow> ('s \<times> 'w \<Rightarrow> bool) \<Rightarrow> ('s \<times> 'w \<Rightarrow> bool) \<Rightarrow> bool" where
  "ends P f Q R \<longleftrightarrow> (\<forall>s. P s \<longrightarrow> (\<exists>go s'. f s = Some (go, s') \<and> (if go then Q s' else R s')))"

lemma ex_bool [simp]: "\<exists>b. \<not> b" "\<exists>b::bool. b" by blast+

lemma ends_andthen: "ends P f Q R \<Longrightarrow> ends Q g T R \<Longrightarrow> ends P (andthen f g) T R"
  unfolding ends_def
proof (intro allI impI)
  fix s assume f: "\<forall>s. P s \<longrightarrow> (\<exists>go s'. f s = Some (go, s') \<and> (if go then Q s' else R s'))"
    and g: "\<forall>s. Q s \<longrightarrow> (\<exists>go s'. g s = Some (go, s') \<and> (if go then T s' else R s'))" and "P s"
  then obtain go s1 where s1: "f s = Some (go, s1)" "if go then Q s1 else R s1" by blast
  show "\<exists>go s'. andthen f g s = Some (go, s') \<and> (if go then T s' else R s')"
  proof (cases go)
    case True
    then obtain go2 s2 where "g s1 = Some (go2, s2)" "if go2 then T s2 else R s2" using s1(2) g by (metis (full_types))
    then show ?thesis using s1 True by (simp add: andthen_def)
  qed (use s1 in \<open>auto simp: andthen_def\<close>)
qed

lemma ends_conseq: "ends P f Q R \<Longrightarrow> (\<And>s. P' s \<Longrightarrow> P s) \<Longrightarrow> (\<And>s. Q s \<Longrightarrow> Q' s) \<Longrightarrow> ends P' f Q' R"
  unfolding ends_def by (metis (full_types))

lemma ends_each:
  "(\<And>i. lo \<le> i \<Longrightarrow> i < hi \<Longrightarrow> ends (I i) (f i) (I (Suc i)) R) \<Longrightarrow> lo \<le> hi \<Longrightarrow> ends (I lo) (each f [lo..<hi]) (I hi) R"
proof (induction "hi - lo" arbitrary: lo)
  case 0
  then show ?case by (auto simp: ends_def)
next
  case (Suc k)
  then have lt: "lo < hi" by simp
  have "ends (I lo) (andthen (f lo) (each f [Suc lo..<hi])) (I hi) R"
  proof (rule ends_andthen)
    show "ends (I lo) (f lo) (I (Suc lo)) R" using Suc.prems lt by simp
    show "ends (I (Suc lo)) (each f [Suc lo..<hi]) (I hi) R" using Suc lt by (intro Suc.hyps) auto
  qed
  moreover have "each f [lo..<hi] s = andthen (f lo) (each f [Suc lo..<hi]) s" for s
    using lt by (simp add: upt_conv_Cons andthen_def)
  ultimately show ?case by (simp add: ends_def)
qed

lemma endsI: "(\<And>rs w. P (rs, w) \<Longrightarrow> \<exists>go rs' w'. f (rs, w) = Some (go, rs', w') \<and> (if go then Q (rs', w') else R (rs', w'))) \<Longrightarrow> ends P f Q R"
  by (fastforce simp: ends_def)

lemma endsD: "ends P f Q R \<Longrightarrow> P (s, w) \<Longrightarrow> \<exists>go s' w'. f (s, w) = Some (go, s', w') \<and> (if go then Q (s', w') else R (s', w'))"
  unfolding ends_def by (metis prod.collapse)

lemma ends_local: "(\<And>s w. P (s, w) \<Longrightarrow> f (s, w) = g s (s, w)) \<Longrightarrow> (\<And>s. ends P (g s) Q R) \<Longrightarrow> ends P f Q R"
  by (auto simp: ends_def)

lemma ends_block:
  "ends P (block []) P R"
  "ends P f Q R \<Longrightarrow> ends Q (block fs) T R \<Longrightarrow> ends P (block (f # fs)) T R"
  using ends_andthen [of P f Q R "block fs" T] by (auto simp: ends_def)

lemma ends_assign: "(\<And>s w. P (s, w) \<Longrightarrow> Q (f s, w)) \<Longrightarrow> ends P (assign f) Q R"
  by (simp add: ends_def assign_def)

lemma ends_check:
  "(\<And>s w. P (s, w) \<Longrightarrow> b s \<Longrightarrow> Q (s, w)) \<Longrightarrow> (\<And>s w. P (s, w) \<Longrightarrow> \<not> b s \<Longrightarrow> R (s, w)) \<Longrightarrow> ends P (check b) Q R"
  by (auto simp: ends_def check_def)

end
