(* ===== verification/User_V4l2.thy ===== *)
theory User_V4l2
  imports M2m_Format "HOL-Library.Multiset"
begin

text \<open>
  The video-device helpers of the user-space tools (user/vpipe-common.c): the retrying
  ioctl, format calls, and requesting, mapping, queueing and unmapping buffers.  The system
  calls are a parameter over an arbitrary state.
\<close>

unbundle bit_operations_syntax

section \<open>The system calls\<close>

text \<open>The requests the tools make of a device, with the fields they fill in.\<close>

record v4l2_buffer =
  ub_index :: u32
  ub_type :: buf_type
  ub_memory :: u32
  ub_bytesused :: u32
  ub_length :: u32
  ub_offset :: u32
  ub_userptr :: nat
  ub_fd :: int
  ub_sequence :: u32
  ub_timestamp :: "s64 \<times> s64"

abbreviation (input) V4L2_MEMORY_MMAP :: u32 where "V4L2_MEMORY_MMAP \<equiv> 1"
abbreviation (input) V4L2_MEMORY_USERPTR :: u32 where "V4L2_MEMORY_USERPTR \<equiv> 2"
abbreviation (input) V4L2_MEMORY_DMABUF :: u32 where "V4L2_MEMORY_DMABUF \<equiv> 4"

datatype v4l2_req =
    VIDIOC_S_FMT buf_type v4l2_pix_format
  | VIDIOC_G_FMT buf_type
  | VIDIOC_REQBUFS u32 buf_type u32
  | VIDIOC_QUERYBUF v4l2_buffer
  | VIDIOC_QBUF v4l2_buffer
  | VIDIOC_DQBUF v4l2_buffer
  | VIDIOC_EXPBUF buf_type u32
  | VIDIOC_STREAMON buf_type
  | VIDIOC_STREAMOFF buf_type
  | VIDIOC_S_CTRL u32 s32
  | IOC_SET_BACKEND u32
  | IOC_EXPORT_SRC_DMABUF
  | DMA_HEAP_IOCTL_ALLOC nat

text \<open>What the kernel writes back on success.\<close>

datatype v4l2_reply = Reply_Done | Reply_Fmt v4l2_pix_format | Reply_Count u32 | Reply_Buf v4l2_buffer | Reply_Fd int

record 'w sys =
  sys_ioctl :: "int \<Rightarrow> v4l2_req \<Rightarrow> 'w \<Rightarrow> v4l2_reply result \<times> 'w"
  sys_mmap :: "nat \<Rightarrow> int \<Rightarrow> nat \<Rightarrow> 'w \<Rightarrow> nat option \<times> 'w"
  sys_munmap :: "nat \<Rightarrow> nat \<Rightarrow> 'w \<Rightarrow> 'w"
  sys_close :: "int \<Rightarrow> 'w \<Rightarrow> 'w"

section \<open>The helpers\<close>

text \<open>The retry loop; a call that is interrupted forever has no result.\<close>

partial_function (option) vpipe_xioctl :: "('w, 'x) sys_scheme \<Rightarrow> int \<Rightarrow> v4l2_req \<Rightarrow> 'w \<Rightarrow> (v4l2_reply result \<times> 'w) option" where
  "vpipe_xioctl sys fd req w =
     (case sys_ioctl sys fd req w of (r, w') \<Rightarrow> if r = Inl EINTR then vpipe_xioctl sys fd req w' else Some (r, w'))"

text \<open>\<open>vpipe_now_monotonic_ns\<close> of the seconds and nanoseconds the clock returns.\<close>

definition vpipe_now_monotonic_ns :: "u64 \<times> u64 \<Rightarrow> u64" where
  "vpipe_now_monotonic_ns ts = fst ts * 1000000000 + snd ts"

definition zero_pix :: v4l2_pix_format where
  "zero_pix = \<lparr>pf_width = 0, pf_height = 0, pf_pixelformat = 0, pf_field = 0, pf_bytesperline = 0, pf_sizeimage = 0,
     pf_colorspace = 0, pf_ycbcr_enc = 0, pf_quantization = 0, pf_xfer_func = 0\<rparr>"

definition zero_buf :: "buf_type \<Rightarrow> u32 \<Rightarrow> u32 \<Rightarrow> v4l2_buffer" where
  "zero_buf type memory index = \<lparr>ub_index = index, ub_type = type, ub_memory = memory, ub_bytesused = 0, ub_length = 0,
     ub_offset = 0, ub_userptr = 0, ub_fd = 0, ub_sequence = 0, ub_timestamp = (0, 0)\<rparr>"

definition ok :: "'a result \<Rightarrow> bool" where
  "ok r = (case r of Inl _ \<Rightarrow> False | Inr _ \<Rightarrow> True)"

definition vpipe_set_format ::
    "('w, 'x) sys_scheme \<Rightarrow> int \<Rightarrow> buf_type \<Rightarrow> u32 \<Rightarrow> u32 \<Rightarrow> u32 \<Rightarrow> 'w \<Rightarrow> (bool \<times> 'w) option" where
  "vpipe_set_format sys fd type width height pixelformat w = do {
     let fmt = zero_pix\<lparr>pf_width := width, pf_height := height, pf_pixelformat := pixelformat, pf_field := V4L2_FIELD_NONE\<rparr>;
     (r, w) \<leftarrow> vpipe_xioctl sys fd (VIDIOC_S_FMT type fmt) w;
     Some (ok r, w) }"

definition vpipe_get_sizeimage :: "('w, 'x) sys_scheme \<Rightarrow> int \<Rightarrow> buf_type \<Rightarrow> 'w \<Rightarrow> (nat \<times> 'w) option" where
  "vpipe_get_sizeimage sys fd type w = do {
     (r, w) \<leftarrow> vpipe_xioctl sys fd (VIDIOC_G_FMT type) w;
     Some (case r of Inr (Reply_Fmt pix) \<Rightarrow> unat (pf_sizeimage pix) | _ \<Rightarrow> 0, w) }"

datatype uaddr = Null | Map_Failed | Addr nat

record vpipe_mmap_buffer =
  mb_addr :: uaddr
  mb_length :: nat
  mb_dmabuf_fd :: int

text \<open>
  The loop of \<open>vpipe_request_mmap_buffers\<close> over the indices the driver granted; storing behind
  the end of the caller's array is a fault.
\<close>

fun map_buffers ::
    "('w, 'x) sys_scheme \<Rightarrow> int \<Rightarrow> buf_type \<Rightarrow> nat list \<Rightarrow> vpipe_mmap_buffer list \<Rightarrow> 'w \<Rightarrow> (bool \<times> vpipe_mmap_buffer list \<times> 'w) option" where
  "map_buffers sys fd type [] buffers w = Some (True, buffers, w)"
| "map_buffers sys fd type (i # is) buffers w = do {
     (r, w) \<leftarrow> vpipe_xioctl sys fd (VIDIOC_QUERYBUF (zero_buf type V4L2_MEMORY_MMAP (of_nat i))) w;
     (case r of
        Inr (Reply_Buf buf) \<Rightarrow>
          if length buffers \<le> i then None
          else (let (addr, w) = sys_mmap sys (unat (ub_length buf)) fd (unat (ub_offset buf)) w;
                    entry = \<lparr>mb_addr = (case addr of None \<Rightarrow> Map_Failed | Some a \<Rightarrow> Addr a), mb_length = unat (ub_length buf),
                             mb_dmabuf_fd = -1\<rparr>;
                    buffers = buffers[i := entry]
                in if addr = None then Some (False, buffers, w) else map_buffers sys fd type is buffers w)
      | _ \<Rightarrow> Some (False, buffers, w)) }"

definition vpipe_request_mmap_buffers ::
    "('w, 'x) sys_scheme \<Rightarrow> int \<Rightarrow> buf_type \<Rightarrow> u32 \<Rightarrow> vpipe_mmap_buffer list \<Rightarrow> 'w \<Rightarrow> (u32 option \<times> vpipe_mmap_buffer list \<times> 'w) option" where
  "vpipe_request_mmap_buffers sys fd type nbufs buffers w = do {
     (r, w) \<leftarrow> vpipe_xioctl sys fd (VIDIOC_REQBUFS nbufs type V4L2_MEMORY_MMAP) w;
     (case r of
        Inr (Reply_Count n) \<Rightarrow> do {
          (done, buffers, w) \<leftarrow> map_buffers sys fd type [0..<unat n] buffers w;
          Some (if done then Some n else None, buffers, w) }
      | _ \<Rightarrow> Some (None, buffers, w)) }"

definition vpipe_queue_mmap_buffer ::
    "('w, 'x) sys_scheme \<Rightarrow> int \<Rightarrow> buf_type \<Rightarrow> u32 \<Rightarrow> u32 \<Rightarrow> int \<Rightarrow> 'w \<Rightarrow> (bool \<times> 'w) option" where
  "vpipe_queue_mmap_buffer sys fd type memory index dmabuf_fd w = do {
     let buf = zero_buf type memory index;
     let buf = (if memory = V4L2_MEMORY_DMABUF then buf\<lparr>ub_fd := dmabuf_fd\<rparr> else buf);
     (r, w) \<leftarrow> vpipe_xioctl sys fd (VIDIOC_QBUF buf) w;
     Some (ok r, w) }"

definition unmap_one :: "('w, 'x) sys_scheme \<Rightarrow> vpipe_mmap_buffer \<Rightarrow> 'w \<Rightarrow> 'w" where
  "unmap_one sys b w =
     (let w = (case mb_addr b of Addr a \<Rightarrow> sys_munmap sys a (mb_length b) w | _ \<Rightarrow> w)
      in if 0 \<le> mb_dmabuf_fd b then sys_close sys (mb_dmabuf_fd b) w else w)"

definition vpipe_unmap_buffers :: "('w, 'x) sys_scheme \<Rightarrow> vpipe_mmap_buffer list \<Rightarrow> nat \<Rightarrow> 'w \<Rightarrow> 'w option" where
  "vpipe_unmap_buffers sys buffers nbufs w =
     foreach (\<lambda>i w. if length buffers \<le> i then None else Some (unmap_one sys (buffers ! i) w)) [0..<nbufs] w"

section \<open>The retry loop\<close>

primrec interrupted :: "('w, 'x) sys_scheme \<Rightarrow> int \<Rightarrow> v4l2_req \<Rightarrow> nat \<Rightarrow> 'w \<Rightarrow> 'w option" where
  "interrupted sys fd req 0 w = Some w"
| "interrupted sys fd req (Suc n) w =
     (case sys_ioctl sys fd req w of (r, w') \<Rightarrow> if r = Inl EINTR then interrupted sys fd req n w' else None)"

lemma xioctl_after:
  "interrupted sys fd req n w = Some w' \<Longrightarrow> fst (sys_ioctl sys fd req w') \<noteq> Inl EINTR \<Longrightarrow>
   vpipe_xioctl sys fd req w = Some (sys_ioctl sys fd req w')"
proof (induction n arbitrary: w)
  case 0
  then show ?case by (subst vpipe_xioctl.simps) (auto split: prod.split)
next
  case (Suc n)
  then show ?case by (subst vpipe_xioctl.simps) (auto split: prod.splits if_splits)
qed

lemma xioctl_only:
  assumes "vpipe_xioctl sys fd req w = Some rw"
  shows "\<exists>n w'. interrupted sys fd req n w = Some w' \<and> sys_ioctl sys fd req w' = rw \<and> fst rw \<noteq> Inl EINTR"
proof (rule vpipe_xioctl.raw_induct [where P = "\<lambda>sys fd req w rw. \<exists>n w'. interrupted sys fd req n w = Some w' \<and>
    sys_ioctl sys fd req w' = rw \<and> fst rw \<noteq> Inl EINTR", OF _ assms])
  fix xi and sys :: "('a, 'b) sys_scheme" and fd req w rw
  assume IH: "\<And>sys fd req w rw. xi sys fd req w = Some rw \<Longrightarrow> \<exists>n w'. interrupted sys fd req n w = Some w' \<and>
      sys_ioctl sys fd req w' = rw \<and> fst rw \<noteq> Inl EINTR"
    and run: "(case sys_ioctl sys fd req w of (r, w') \<Rightarrow> if r = Inl EINTR then xi sys fd req w' else Some (r, w')) = Some rw"
  show "\<exists>n w'. interrupted sys fd req n w = Some w' \<and> sys_ioctl sys fd req w' = rw \<and> fst rw \<noteq> Inl EINTR"
  proof (cases "fst (sys_ioctl sys fd req w) = Inl EINTR")
    case True
    then obtain w1 where w1: "sys_ioctl sys fd req w = (Inl EINTR, w1)" by (metis prod.collapse)
    with run have "xi sys fd req w1 = Some rw" by simp
    from IH [OF this] obtain n w' where "interrupted sys fd req n w1 = Some w'" "sys_ioctl sys fd req w' = rw" "fst rw \<noteq> Inl EINTR"
      by blast
    then show ?thesis using w1 by (intro exI [of _ "Suc n"] exI [of _ w']) simp
  next
    case False
    then show ?thesis using run by (intro exI [of _ 0] exI [of _ w]) (cases "sys_ioctl sys fd req w"; auto)
  qed
qed

text \<open>
  C32.  Interrupted calls are retried.  \<open>vpipe_xioctl\<close> returns exactly when some finite number
  of attempts is interrupted and the next one is not; its result is then that of this first
  uninterrupted attempt, and the caller never sees \<open>EINTR\<close>.
\<close>

theorem xioctl_retries:
  "(vpipe_xioctl sys fd req w = Some rw) =
     (\<exists>n w'. interrupted sys fd req n w = Some w' \<and> sys_ioctl sys fd req w' = rw \<and> fst rw \<noteq> Inl EINTR)"
  using xioctl_only [of sys fd req w rw] xioctl_after [of sys fd req _ w] by blast

section \<open>Mappings\<close>

text \<open>
  What the helpers rely on: only \<open>mmap\<close> and \<open>munmap\<close> change the process's mappings, here a
  multiset of address and length, and no call is interrupted forever.
\<close>

definition sys_laws :: "('w, 'x) sys_scheme \<Rightarrow> ('w \<Rightarrow> (nat \<times> nat) multiset) \<Rightarrow> bool" where
  "sys_laws sys maps \<longleftrightarrow> (\<forall>w.
     (\<forall>fd req. maps (snd (sys_ioctl sys fd req w)) = maps w \<and> vpipe_xioctl sys fd req w \<noteq> None) \<and>
     (\<forall>n fd off. maps (snd (sys_mmap sys n fd off w)) =
        (case fst (sys_mmap sys n fd off w) of None \<Rightarrow> maps w | Some a \<Rightarrow> add_mset (a, n) (maps w))) \<and>
     (\<forall>a n. maps (sys_munmap sys a n w) = maps w - {#(a, n)#}) \<and>
     (\<forall>fd. maps (sys_close sys fd w) = maps w))"

lemma interrupted_maps:
  "sys_laws sys maps \<Longrightarrow> interrupted sys fd req n w = Some w' \<Longrightarrow> maps w' = maps w"
proof (induction n arbitrary: w)
  case (Suc n)
  obtain r w1 where io: "sys_ioctl sys fd req w = (r, w1)" by (cases "sys_ioctl sys fd req w")
  then have "maps w1 = maps w" using Suc.prems(1) unfolding sys_laws_def by (metis snd_conv)
  with Suc io show ?case by (auto split: if_splits)
qed simp

lemma xioctl_maps:
  assumes "sys_laws sys maps"
  obtains r w' where "vpipe_xioctl sys fd req w = Some (r, w')" "maps w' = maps w"
proof -
  obtain rw where rw: "vpipe_xioctl sys fd req w = Some rw" using assms unfolding sys_laws_def by blast
  then obtain n w1 where "interrupted sys fd req n w = Some w1" "sys_ioctl sys fd req w1 = rw"
    using xioctl_only [OF rw] by blast
  with interrupted_maps [OF assms] have "maps (snd rw) = maps w" using assms unfolding sys_laws_def by metis
  with rw that show ?thesis by (cases rw) auto
qed

definition mapped :: "vpipe_mmap_buffer list \<Rightarrow> (nat \<times> nat) multiset" where
  "mapped bufs = sum_list (map (\<lambda>b. case mb_addr b of Addr a \<Rightarrow> {#(a, mb_length b)#} | _ \<Rightarrow> {#}) bufs)"

definition unmapped_buffer :: "vpipe_mmap_buffer \<Rightarrow> bool" where
  "unmapped_buffer b = (case mb_addr b of Addr a \<Rightarrow> False | _ \<Rightarrow> True)"

lemma mapped_update:
  assumes "i < length bufs" "unmapped_buffer (bufs ! i)"
  shows "mapped (bufs[i := b]) = mapped bufs + (case mb_addr b of Addr a \<Rightarrow> {#(a, mb_length b)#} | _ \<Rightarrow> {#})"
proof -
  have split: "bufs = take i bufs @ bufs ! i # drop (Suc i) bufs" using assms(1) by (rule id_take_nth_drop)
  have "mapped (bufs[i := b]) = mapped (take i bufs @ b # drop (Suc i) bufs)" using assms(1) by (simp add: upd_conv_take_nth_drop)
  also have "mapped bufs = mapped (take i bufs @ bufs ! i # drop (Suc i) bufs)" using split by simp
  ultimately show ?thesis using assms(2) by (auto simp: mapped_def unmapped_buffer_def ac_simps split: uaddr.splits)
qed

lemma mmap_maps:
  "sys_laws sys maps \<Longrightarrow> sys_mmap sys n fd off w = (addr, w') \<Longrightarrow>
   maps w' = (case addr of None \<Rightarrow> maps w | Some a \<Rightarrow> add_mset (a, n) (maps w))"
  unfolding sys_laws_def by (metis fst_conv snd_conv)

lemma map_buffers_balanced:
  assumes laws: "sys_laws sys maps"
  shows "(\<forall>i\<in>set is. i < length bufs \<and> unmapped_buffer (bufs ! i)) \<Longrightarrow> distinct is \<Longrightarrow>
    \<exists>done bufs' w'. map_buffers sys fd type is bufs w = Some (done, bufs', w') \<and> length bufs' = length bufs \<and>
      maps w' + mapped bufs = maps w + mapped bufs' \<and> (\<forall>i. i \<notin> set is \<longrightarrow> bufs' ! i = bufs ! i) \<and>
      (\<forall>i\<in>set is. bufs' ! i = bufs ! i \<or> mb_dmabuf_fd (bufs' ! i) = -1) \<and>
      (done \<longrightarrow> (\<forall>i\<in>set is. \<not> unmapped_buffer (bufs' ! i)))"
proof (induction "is" arbitrary: bufs w)
  case (Cons i "is")
  obtain r w1 where io: "vpipe_xioctl sys fd (VIDIOC_QUERYBUF (zero_buf type V4L2_MEMORY_MMAP (of_nat i))) w = Some (r, w1)"
    "maps w1 = maps w"
    using xioctl_maps [OF laws] by blast
  show ?case
  proof (cases "\<exists>b. r = Inr (Reply_Buf b)")
    case False
    then show ?thesis using io by (auto split: sum.splits v4l2_reply.splits)
  next
    case True
    then obtain b where r: "r = Inr (Reply_Buf b)" by blast
    obtain addr w2 where mm: "sys_mmap sys (unat (ub_length b)) fd (unat (ub_offset b)) w1 = (addr, w2)" by fastforce
    define e where "e = \<lparr>mb_addr = (case addr of None \<Rightarrow> Map_Failed | Some a \<Rightarrow> Addr a), mb_length = unat (ub_length b), mb_dmabuf_fd = -1\<rparr>"
    have i: "i < length bufs" "unmapped_buffer (bufs ! i)" using Cons.prems by auto
    have m2: "maps w2 + mapped bufs = maps w + mapped (bufs[i := e])"
      using mmap_maps [OF laws mm] mapped_update [OF i] io(2) by (auto simp: e_def split: option.split)
    show ?thesis
    proof (cases addr)
      case None
      then show ?thesis using io(1) r mm i m2 by (intro exI [of _ False]) (simp add: e_def nth_list_update)
    next
      case (Some a)
      have "\<forall>j\<in>set is. j < length (bufs[i := e]) \<and> unmapped_buffer (bufs[i := e] ! j)" "distinct is"
        using Cons.prems by (auto simp: nth_list_update)
      note IH = Cons.IH [OF this, of w2, unfolded length_list_update]
      obtain dn bufs' w' where rec: "map_buffers sys fd type is (bufs[i := e]) w2 = Some (dn, bufs', w')"
        "length bufs' = length bufs" "maps w' + mapped (bufs[i := e]) = maps w2 + mapped bufs'"
        "\<forall>j. j \<notin> set is \<longrightarrow> bufs' ! j = bufs[i := e] ! j" "\<forall>j\<in>set is. bufs' ! j = bufs[i := e] ! j \<or> mb_dmabuf_fd (bufs' ! j) = -1"
        "dn \<longrightarrow> (\<forall>j\<in>set is. \<not> unmapped_buffer (bufs' ! j))"
        using IH by blast
      have bal: "maps w' + mapped bufs = maps w + mapped bufs'"
      proof (rule multiset_eqI)
        fix x
        have "count (maps w' + mapped (bufs[i := e])) x = count (maps w2 + mapped bufs') x" by (simp only: rec(3))
        moreover have "count (maps w2 + mapped bufs) x = count (maps w + mapped (bufs[i := e])) x" by (simp only: m2)
        ultimately show "count (maps w' + mapped bufs) x = count (maps w + mapped bufs') x" by simp
      qed
      have "bufs' ! i = e" using rec(4) i Cons.prems by simp
      then have "mb_dmabuf_fd (bufs' ! i) = -1" "\<not> unmapped_buffer (bufs' ! i)" by (simp_all add: e_def unmapped_buffer_def Some)
      moreover have "\<forall>j\<in>set is. bufs' ! j = bufs ! j \<or> mb_dmabuf_fd (bufs' ! j) = -1"
        using rec(5) Cons.prems(2) by (metis distinct.simps(2) nth_list_update_neq)
      moreover have "\<forall>j. j \<notin> set (i # is) \<longrightarrow> bufs' ! j = bufs ! j" using rec(4) by auto
      moreover have "map_buffers sys fd type (i # is) bufs w = Some (dn, bufs', w')"
        using io(1) r mm i rec(1) by (simp add: Some e_def)
      ultimately show ?thesis using rec(2,6) bal by auto
    qed
  qed
qed auto

lemma unmap_one_maps:
  assumes "sys_laws sys maps"
  shows "maps (unmap_one sys b w) = maps w - (case mb_addr b of Addr a \<Rightarrow> {#(a, mb_length b)#} | _ \<Rightarrow> {#})"
proof -
  have "maps (sys_munmap sys a n w) = maps w - {#(a, n)#}" "maps (sys_close sys fd w) = maps w" for a n fd w
    using assms unfolding sys_laws_def by blast+
  then show ?thesis by (simp add: unmap_one_def Let_def split: uaddr.split)
qed

lemma unmap_buffers_maps:
  assumes laws: "sys_laws sys maps" and n: "n \<le> length bufs"
  shows "\<exists>w'. vpipe_unmap_buffers sys bufs n w = Some w' \<and> maps w' = maps w - mapped (take n bufs)"
proof -
  have "\<exists>w'. foreach (\<lambda>i w. if length bufs \<le> i then None else Some (unmap_one sys (bufs ! i) w)) [0..<n] w = Some w' \<and>
      maps w' = maps w - mapped (take n bufs)"
  proof (rule foreach_upt [where I = "\<lambda>k v. maps v = maps w - mapped (take k bufs)"])
    fix k v assume "k < n" and v: "maps v = maps w - mapped (take k bufs)"
    then have k: "k < length bufs" using n by simp
    have "mapped (take (Suc k) bufs) = mapped (take k bufs) + (case mb_addr (bufs ! k) of Addr a \<Rightarrow> {#(a, mb_length (bufs ! k))#} | _ \<Rightarrow> {#})"
      using k by (simp add: mapped_def take_Suc_conv_app_nth)
    then show "\<exists>v'. (if length bufs \<le> k then None else Some (unmap_one sys (bufs ! k) v)) = Some v' \<and>
        maps v' = maps w - mapped (take (Suc k) bufs)"
      using k v unmap_one_maps [OF laws, of "bufs ! k" v] by simp
  qed (simp_all add: mapped_def)
  then show ?thesis by (simp add: vpipe_unmap_buffers_def)
qed

text \<open>
  Mapping and unmapping balance.  For an array of fresh entries that holds at least as
  many as the driver grants, requesting and mapping a queue stays inside the array, and
  whether it succeeds or fails half way, unmapping the array afterwards leaves exactly the
  mappings the process had before; on success every granted entry is mapped.
\<close>

theorem request_unmap_balanced:
  assumes "sys_laws sys maps" "\<forall>b\<in>set bufs. unmapped_buffer b"
    and "\<forall>n w'. vpipe_xioctl sys fd (VIDIOC_REQBUFS nbufs type V4L2_MEMORY_MMAP) w = Some (Inr (Reply_Count n), w') \<longrightarrow>
      unat n \<le> length bufs"
  shows "\<exists>res bufs' w1 w2. vpipe_request_mmap_buffers sys fd type nbufs bufs w = Some (res, bufs', w1) \<and>
      vpipe_unmap_buffers sys bufs' (length bufs) w1 = Some w2 \<and> maps w2 = maps w \<and>
      (case res of None \<Rightarrow> True | Some n \<Rightarrow> \<forall>i<unat n. \<not> unmapped_buffer (bufs' ! i))"
proof -
  have none: "mapped bufs = {#}"
    using assms(2) by (induction bufs) (auto simp: mapped_def unmapped_buffer_def split: uaddr.splits)
  obtain r w1 where io: "vpipe_xioctl sys fd (VIDIOC_REQBUFS nbufs type V4L2_MEMORY_MMAP) w = Some (r, w1)" "maps w1 = maps w"
    using xioctl_maps [OF assms(1)] by blast
  have close: "\<exists>w2. vpipe_unmap_buffers sys bufs' (length bufs) v = Some w2 \<and> maps w2 = maps w"
    if "length bufs' = length bufs" "maps v = maps w + mapped bufs'" for bufs' v
    using unmap_buffers_maps [OF assms(1), of "length bufs" bufs' v] that by auto
  show ?thesis
  proof (cases "\<exists>n. r = Inr (Reply_Count n)")
    case False
    then have "vpipe_request_mmap_buffers sys fd type nbufs bufs w = Some (None, bufs, w1)"
      using io(1) by (auto simp: vpipe_request_mmap_buffers_def split: sum.splits v4l2_reply.splits)
    then show ?thesis using close [of bufs w1] io(2) none by auto
  next
    case True
    then obtain n where r: "r = Inr (Reply_Count n)" by blast
    then have "\<forall>i\<in>set [0..<unat n]. i < length bufs \<and> unmapped_buffer (bufs ! i)" using assms(2,3) io(1) by fastforce
    from map_buffers_balanced [OF assms(1) this distinct_upt, of fd type w1] obtain dn bufs' w2 where
      m: "map_buffers sys fd type [0..<unat n] bufs w1 = Some (dn, bufs', w2)" "length bufs' = length bufs"
      "maps w2 + mapped bufs = maps w1 + mapped bufs'" "dn \<longrightarrow> (\<forall>i\<in>set [0..<unat n]. \<not> unmapped_buffer (bufs' ! i))"
      by blast
    have "vpipe_request_mmap_buffers sys fd type nbufs bufs w = Some (if dn then Some n else None, bufs', w2)"
      using io(1) r m(1) by (simp add: vpipe_request_mmap_buffers_def)
    moreover obtain w3 where "vpipe_unmap_buffers sys bufs' (length bufs) w2 = Some w3" "maps w3 = maps w"
      using close [OF m(2), of w2] m(3) none io(2) by auto
    ultimately show ?thesis using m(4) by (cases dn) auto
  qed
qed

text \<open>
  A device that grants what \<open>grant\<close> says and maps each buffer at the next free address.
\<close>

record demo_world =
  dw_next :: nat
  dw_maps :: "(nat \<times> nat) multiset"

definition demo_sys :: "(u32 \<Rightarrow> u32) \<Rightarrow> demo_world sys" where
  "demo_sys grant = \<lparr>sys_ioctl = (\<lambda>fd req w. (case req of VIDIOC_REQBUFS n t m \<Rightarrow> Inr (Reply_Count (grant n))
       | VIDIOC_QUERYBUF b \<Rightarrow> Inr (Reply_Buf (b\<lparr>ub_length := 4096\<rparr>)) | _ \<Rightarrow> Inr Reply_Done, w)),
     sys_mmap = (\<lambda>n fd off w. (Some (dw_next w), w\<lparr>dw_next := dw_next w + n, dw_maps := add_mset (dw_next w, n) (dw_maps w)\<rparr>)),
     sys_munmap = (\<lambda>a n w. w\<lparr>dw_maps := dw_maps w - {#(a, n)#}\<rparr>),
     sys_close = (\<lambda>fd w. w)\<rparr>"

lemma demo_xioctl: "vpipe_xioctl (demo_sys grant) fd req w = Some (sys_ioctl (demo_sys grant) fd req w)"
  by (rule xioctl_after [where n = 0]) (auto simp: demo_sys_def split: v4l2_req.split)

lemma demo_sys_simps:
  "sys_ioctl (demo_sys grant) fd (VIDIOC_REQBUFS n t m) w = (Inr (Reply_Count (grant n)), w)"
  "sys_ioctl (demo_sys grant) fd (VIDIOC_QUERYBUF b) w = (Inr (Reply_Buf (b\<lparr>ub_length := 4096\<rparr>)), w)"
  "sys_mmap (demo_sys grant) k fd off w =
     (Some (dw_next w), w\<lparr>dw_next := dw_next w + k, dw_maps := add_mset (dw_next w, k) (dw_maps w)\<rparr>)"
  by (simp_all add: demo_sys_def)

lemma demo_sys_laws: "sys_laws (demo_sys grant) dw_maps"
  by (auto simp: sys_laws_def demo_xioctl) (simp_all add: demo_sys_def split: v4l2_req.split)

definition fresh_buffer :: vpipe_mmap_buffer where
  "fresh_buffer = \<lparr>mb_addr = Null, mb_length = 0, mb_dmabuf_fd = -1\<rparr>"

theorem request_unmap_balanced_witness:
  "\<exists>res bufs' w1 w2. vpipe_request_mmap_buffers (demo_sys id) 3 V4L2_BUF_TYPE_VIDEO_CAPTURE 2 [fresh_buffer, fresh_buffer]
      \<lparr>dw_next = 100, dw_maps = {#}\<rparr> = Some (res, bufs', w1) \<and>
    vpipe_unmap_buffers (demo_sys id) bufs' 2 w1 = Some w2 \<and> dw_maps w2 = {#}"
  using request_unmap_balanced [OF demo_sys_laws, of "[fresh_buffer, fresh_buffer]" id 3 2 V4L2_BUF_TYPE_VIDEO_CAPTURE
      "\<lparr>dw_next = 100, dw_maps = {#}\<rparr>"]
  by (auto simp: demo_xioctl demo_sys_simps fresh_buffer_def unmapped_buffer_def numeral_2_eq_2)

text \<open>
  A driver may grant more buffers than were asked for, and this one does when asked for one;
  the helper then stores behind the end of an array of the requested size.
\<close>

lemma request_overruns_array:
  "vpipe_queue_setup default_ctx V4L2_BUF_TYPE_VIDEO_CAPTURE 1 0 0 = Inr (2, 1, 307200)"
  "vpipe_request_mmap_buffers (demo_sys (\<lambda>n. if n < 2 then 2 else n)) 3 V4L2_BUF_TYPE_VIDEO_CAPTURE 1 [fresh_buffer] w = None"
  by (simp_all add: vpipe_queue_setup_def vpipe_get_q_data_def default_ctx_def Let_def vpipe_request_mmap_buffers_def demo_xioctl
      demo_sys_simps upt_rec)

end
