(* ===== verification/User_Crc.thy ===== *)
theory User_Crc
  imports Vpipe_Types
begin

text \<open>
  The checksum of the user-space tools (user/vpipe-common.c, \<open>vpipe_crc32_init\<close> and
  \<open>vpipe_crc32\<close>): its lazily filled table, its equality with the bit-by-bit division that
  defines the checksum, and the errors it detects.
\<close>

unbundle bit_operations_syntax

section \<open>The checksum routine\<close>

text \<open>The table and the flag that says it is filled.\<close>

record crc32_state =
  crc32_table :: "u32 list"
  crc32_ready :: bool

definition crc32_state_init :: crc32_state where
  "crc32_state_init = \<lparr>crc32_table = replicate 256 0, crc32_ready = False\<rparr>"

text \<open>One turn of the inner loop: divide by the reflected polynomial, one bit.\<close>

definition crc_bit :: "u32 \<Rightarrow> u32" where
  "crc_bit c = (if c AND 1 \<noteq> 0 then 0xedb88320 XOR drop_bit 1 c else drop_bit 1 c)"

definition vpipe_crc32_init :: "crc32_state \<Rightarrow> crc32_state" where
  "vpipe_crc32_init st =
     (if crc32_ready st then st
      else st\<lparr>crc32_table := fold (\<lambda>i t. t[i := (crc_bit ^^ 8) (of_nat i)]) [0..<256] (crc32_table st),
              crc32_ready := True\<rparr>)"

definition vpipe_crc32 :: "u8 list \<Rightarrow> crc32_state \<Rightarrow> u32 \<times> crc32_state" where
  "vpipe_crc32 data st =
     (let st = vpipe_crc32_init st;
          crc = foldl (\<lambda>crc b. crc32_table st ! unat ((crc XOR ucast b) AND 0xff) XOR drop_bit 8 crc) (NOT 0) data
      in (NOT crc, st))"

section \<open>The reference: division bit by bit\<close>

text \<open>
  The defining algorithm: each byte is added to the low end of the register, which is then
  divided eight times.
\<close>

definition crc_byte :: "u32 \<Rightarrow> u8 \<Rightarrow> u32" where
  "crc_byte crc b = (crc_bit ^^ 8) (crc XOR ucast b)"

definition crc32_bitwise :: "u32 \<Rightarrow> u8 list \<Rightarrow> u32" where
  "crc32_bitwise crc bs = foldl crc_byte crc bs"

definition crc_ok :: "crc32_state \<Rightarrow> bool" where
  "crc_ok st \<longleftrightarrow> length (crc32_table st) = 256 \<and>
     (crc32_ready st \<longrightarrow> (\<forall>i<256. crc32_table st ! i = (crc_bit ^^ 8) (of_nat i)))"

lemma fold_update_nth:
  "n \<le> length t \<Longrightarrow> length (fold (\<lambda>i t. t[i := f i]) [0..<n] t) = length t \<and>
   (\<forall>i<length t. fold (\<lambda>i t. t[i := f i]) [0..<n] t ! i = (if i < n then f i else t ! i))"
  by (induction n) (auto simp: nth_list_update)

lemma crc32_init_ok:
  assumes "crc_ok st"
  shows "crc_ok (vpipe_crc32_init st) \<and> crc32_ready (vpipe_crc32_init st)"
proof (cases "crc32_ready st")
  case False
  define f where "f i = (crc_bit ^^ 8) (of_nat i)" for i
  define t where "t = fold (\<lambda>i t. t[i := f i]) [0..<256] (crc32_table st)"
  have "vpipe_crc32_init st = st\<lparr>crc32_table := t, crc32_ready := True\<rparr>"
    using False unfolding vpipe_crc32_init_def t_def f_def by (simp only: if_False)
  moreover have "length t = 256" "\<forall>i<256. t ! i = f i"
    using fold_update_nth [of 256 "crc32_table st" f, folded t_def] assms by (simp_all add: crc_ok_def)
  ultimately show ?thesis by (simp add: crc_ok_def f_def)
next
  case True
  then show ?thesis using assms by (simp add: vpipe_crc32_init_def)
qed

lemma low_bit: "((c :: u32) AND 1 \<noteq> 0) = bit c 0"
  by (simp add: and_one_eq bit_0 even_iff_mod_2_eq_zero)

lemma ff_mask: "(0xff :: u32) = mask 8"
  by (simp add: mask_eq_exp_minus_1)

lemma crc_bit_xor: "crc_bit (x XOR y) = crc_bit x XOR crc_bit y"
  unfolding crc_bit_def low_bit drop_bit_xor bit_xor_iff
  by (cases "bit x 0"; cases "bit y 0") (simp_all add: ac_simps)

lemma crc_bits_xor: "(crc_bit ^^ n) (x XOR y) = (crc_bit ^^ n) x XOR (crc_bit ^^ n) y"
  by (induction n) (auto simp: crc_bit_xor)

lemma crc_bits_shift: "(\<forall>i<n. \<not> bit x i) \<Longrightarrow> (crc_bit ^^ n) x = drop_bit n x"
proof (induction n)
  case (Suc n)
  then have "(crc_bit ^^ n) x = drop_bit n x" by simp
  moreover have "\<not> bit (drop_bit n x) 0" using Suc.prems by (simp add: bit_drop_bit_eq)
  then have "crc_bit (drop_bit n x) = drop_bit (Suc n) x"
    unfolding crc_bit_def low_bit by simp
  ultimately show ?case by simp
qed simp

lemma table_step:
  assumes "crc_ok st" "crc32_ready st"
  shows "crc32_table st ! unat ((crc XOR ucast b) AND 0xff) XOR drop_bit 8 crc = crc_byte crc b"
proof -
  let ?x = "crc XOR ucast b"
  have split: "?x = (?x AND 0xff) XOR (?x AND NOT 0xff)"
    unfolding ff_mask by (rule bit_word_eqI) (auto simp: bit_simps)
  have low: "unat (?x AND 0xff) < 256"
  proof -
    have "?x AND 0xff = take_bit 8 ?x" by (simp only: ff_mask take_bit_eq_mask)
    then have "unat (?x AND 0xff) = take_bit 8 (unat ?x)" by (simp only: unsigned_take_bit_eq)
    also have "\<dots> < 2 ^ 8" by (rule take_bit_nat_less_exp)
    finally show ?thesis by simp
  qed
  have "(crc_bit ^^ 8) (?x AND NOT 0xff) = drop_bit 8 (?x AND NOT 0xff)"
    unfolding ff_mask by (rule crc_bits_shift) (auto simp: bit_simps)
  also have "\<dots> = drop_bit 8 crc"
    unfolding ff_mask by (rule bit_word_eqI) (auto simp: bit_simps dest: bit_imp_le_length)
  finally have hi: "(crc_bit ^^ 8) (?x AND NOT 0xff) = drop_bit 8 crc" .
  have "(crc_bit ^^ 8) ?x = (crc_bit ^^ 8) ((?x AND 0xff) XOR (?x AND NOT 0xff))" using split by (rule arg_cong)
  also have "\<dots> = (crc_bit ^^ 8) (?x AND 0xff) XOR drop_bit 8 crc" by (simp only: crc_bits_xor hi)
  finally have "(crc_bit ^^ 8) ?x = (crc_bit ^^ 8) (?x AND 0xff) XOR drop_bit 8 crc" .
  moreover have "crc32_table st ! unat (?x AND 0xff) = (crc_bit ^^ 8) (?x AND 0xff)"
    using assms low by (simp add: crc_ok_def)
  ultimately show ?thesis by (simp add: crc_byte_def)
qed

lemma vpipe_crc32_bitwise:
  assumes "crc_ok st"
  shows "fst (vpipe_crc32 data st) = NOT (crc32_bitwise (NOT 0) data) \<and> crc_ok (snd (vpipe_crc32 data st))"
proof -
  note init = crc32_init_ok [OF assms]
  have "(\<lambda>crc b. crc32_table (vpipe_crc32_init st) ! unat ((crc XOR ucast b) AND 0xff) XOR drop_bit 8 crc) = crc_byte"
    by (intro ext table_step) (use init in simp_all)
  then show ?thesis using init by (simp add: vpipe_crc32_def Let_def crc32_bitwise_def)
qed

text \<open>
  C11.  The table-driven checksum is the bit-by-bit division.  In every state the routine can
  be in, before or after its table is filled, it returns the complement of the reference
  register for any data, and leaves the table valid.
\<close>

theorem crc32_table_driven:
  assumes "crc_ok st"
  shows "\<exists>st'. vpipe_crc32 data st = (NOT (crc32_bitwise (NOT 0) data), st') \<and> crc_ok st'"
  using vpipe_crc32_bitwise [OF assms, of data] by (cases "vpipe_crc32 data st") auto

lemma crc32_state_init_ok: "crc_ok crc32_state_init"
  by (simp add: crc_ok_def crc32_state_init_def)

lemma crc_bits_8: "(crc_bit ^^ 8) c = crc_bit (crc_bit (crc_bit (crc_bit (crc_bit (crc_bit (crc_bit (crc_bit c)))))))"
  by (simp add: eval_nat_numeral)

text \<open>The published check value of this checksum.\<close>

theorem crc32_table_driven_witness:
  "\<exists>st'. vpipe_crc32 [0x31, 0x32, 0x33, 0x34, 0x35, 0x36, 0x37, 0x38, 0x39] crc32_state_init = (0xcbf43926, st') \<and> crc_ok st'"
proof -
  have "NOT (crc32_bitwise (NOT 0) [0x31, 0x32, 0x33, 0x34, 0x35, 0x36, 0x37, 0x38, 0x39]) = 0xcbf43926"
    by (simp add: crc32_bitwise_def crc_byte_def crc_bits_8 crc_bit_def)
  with crc32_table_driven [OF crc32_state_init_ok, of "[0x31, 0x32, 0x33, 0x34, 0x35, 0x36, 0x37, 0x38, 0x39]"]
  show ?thesis by simp
qed

section \<open>What the checksum detects\<close>

lemma crc_bit_top: "bit (crc_bit x) 31 = bit x 0"
proof -
  have "\<not> bit (drop_bit 1 x) 31" by (auto simp: bit_drop_bit_eq dest: bit_imp_le_length)
  moreover have "bit (0xedb88320 :: u32) 31" by simp
  ultimately show ?thesis unfolding crc_bit_def low_bit by (auto simp: bit_xor_iff)
qed

lemma xor_cancel: "((p :: u32) XOR a = p XOR b) = (a = b)"
  by (metis xor.assoc xor.left_neutral xor_self_eq)

lemma inj_crc_bit: "inj crc_bit"
proof (rule injI)
  fix x y assume eq: "crc_bit x = crc_bit y"
  then have low: "bit x 0 = bit y 0" by (metis crc_bit_top)
  with eq have high: "drop_bit 1 x = drop_bit 1 y"
    unfolding crc_bit_def low_bit by (simp add: xor_cancel split: if_splits)
  show "x = y"
  proof (rule bit_word_eqI)
    fix n
    show "bit x n = bit y n"
      using low high by (cases n) (metis, metis bit_drop_bit_eq comp_apply plus_1_eq_Suc)
  qed
qed

lemma inj_crc_bits: "inj (crc_bit ^^ n)"
proof (induction n)
  case (Suc n)
  then have "inj (crc_bit \<circ> (crc_bit ^^ n))" by (intro inj_compose inj_crc_bit)
  then show ?case by (simp only: funpow.simps)
qed simp

text \<open>Up to four bytes as one number, first byte lowest.\<close>

fun le_word :: "u8 list \<Rightarrow> u32" where
  "le_word [] = 0"
| "le_word (b # bs) = ucast b XOR push_bit 8 (le_word bs)"

lemma bit_le_word: "bit (le_word bs) n \<Longrightarrow> n < 8 * length bs"
proof (induction bs arbitrary: n)
  case (Cons b bs)
  then have "bit b n \<or> (8 \<le> n \<and> bit (le_word bs) (n - 8))" by (auto simp: bit_simps)
  then show ?case using Cons.IH [of "n - 8"] by (auto dest: bit_imp_le_length)
qed simp

lemma drop_push_low:
  assumes "\<And>n. bit w n \<Longrightarrow> n < 24"
  shows "drop_bit 8 (push_bit 8 w) = (w :: u32)"
  using assms by (intro bit_word_eqI) (auto simp: bit_simps)

lemma crc32_short:
  "length bs \<le> 4 \<Longrightarrow> crc32_bitwise crc bs = (crc_bit ^^ (8 * length bs)) (crc XOR le_word bs)"
proof (induction bs arbitrary: crc)
  case (Cons b bs)
  let ?w = "le_word bs" and ?n = "8 * length bs"
  have "drop_bit 8 (push_bit 8 ?w) = ?w"
  proof (rule drop_push_low)
    fix n assume "bit ?w n"
    then show "n < 24" using bit_le_word [of bs n] Cons.prems by simp
  qed
  then have w: "(crc_bit ^^ 8) (push_bit 8 ?w) = ?w"
    using crc_bits_shift [of 8 "push_bit 8 ?w"] by (simp add: bit_push_bit_iff)
  have "crc32_bitwise crc (b # bs) = crc32_bitwise (crc_byte crc b) bs" by (simp add: crc32_bitwise_def)
  also have "\<dots> = (crc_bit ^^ ?n) ((crc_bit ^^ 8) (crc XOR ucast b) XOR (crc_bit ^^ 8) (push_bit 8 ?w))"
    using Cons by (simp only: crc_byte_def w length_Cons)
  also have "\<dots> = (crc_bit ^^ (?n + 8)) (crc XOR le_word (b # bs))"
    by (simp only: crc_bits_xor [symmetric] funpow_add comp_apply le_word.simps xor.assoc)
  finally show ?case by (simp only: length_Cons mult_Suc_right add.commute)
qed (simp add: crc32_bitwise_def)

lemma le_word_inj: "length bs = length cs \<Longrightarrow> length bs \<le> 4 \<Longrightarrow> le_word bs = le_word cs \<Longrightarrow> bs = cs"
proof (induction bs cs rule: list_induct2)
  case (Cons b bs c cs)
  have eq: "bit (ucast b XOR push_bit 8 (le_word bs) :: u32) n = bit (ucast c XOR push_bit 8 (le_word cs) :: u32) n" for n
    using Cons.prems by simp
  have "b = c"
  proof (rule bit_word_eqI)
    fix n assume "n < LENGTH(8)"
    with eq [of n] show "bit b n = bit c n" by (simp add: bit_simps)
  qed
  moreover have "bit (le_word bs) n = bit (le_word cs) n" for n
  proof (cases "n < 24")
    case True
    then show ?thesis using eq [of "n + 8"] by (auto simp: bit_simps dest: bit_imp_le_length)
  next
    case False
    then show ?thesis using bit_le_word [of bs n] bit_le_word [of cs n] Cons.prems Cons.hyps by auto
  qed
  ultimately show ?case using Cons by (auto intro: bit_word_eqI)
qed simp

lemma inj_crc32_bitwise: "inj (\<lambda>crc. crc32_bitwise crc bs)"
proof (induction bs)
  case (Cons b bs)
  have "inj (\<lambda>crc. crc_byte crc b)"
    by (rule injI) (auto simp: crc_byte_def xor.commute [of _ "ucast b"] xor_cancel dest!: injD [OF inj_crc_bits])
  from inj_compose [OF Cons this] show ?case by (simp add: crc32_bitwise_def comp_def)
qed (simp add: crc32_bitwise_def)

text \<open>
  C26.  The checksum detects every error burst of up to four bytes: two buffers that differ
  only inside a window of at most four bytes never have the same checksum.
\<close>

theorem crc32_detects_bursts:
  assumes "crc_ok st" "crc_ok st'" "length mid = length mid'" "length mid \<le> 4" "mid \<noteq> mid'"
  shows "fst (vpipe_crc32 (pre @ mid @ post) st) \<noteq> fst (vpipe_crc32 (pre @ mid' @ post) st')"
proof
  assume "fst (vpipe_crc32 (pre @ mid @ post) st) = fst (vpipe_crc32 (pre @ mid' @ post) st')"
  then have "crc32_bitwise (NOT 0) (pre @ mid @ post) = crc32_bitwise (NOT 0) (pre @ mid' @ post)"
    using vpipe_crc32_bitwise [OF assms(1)] vpipe_crc32_bitwise [OF assms(2)] by simp
  then have "crc32_bitwise (crc32_bitwise (crc32_bitwise (NOT 0) pre) mid) post =
      crc32_bitwise (crc32_bitwise (crc32_bitwise (NOT 0) pre) mid') post"
    by (simp add: crc32_bitwise_def)
  then have "crc32_bitwise (crc32_bitwise (NOT 0) pre) mid = crc32_bitwise (crc32_bitwise (NOT 0) pre) mid'"
    by (rule injD [OF inj_crc32_bitwise])
  then have "(crc_bit ^^ (8 * length mid')) (crc32_bitwise (NOT 0) pre XOR le_word mid) =
      (crc_bit ^^ (8 * length mid')) (crc32_bitwise (NOT 0) pre XOR le_word mid')"
    using assms(3,4) by (simp add: crc32_short)
  then have "crc32_bitwise (NOT 0) pre XOR le_word mid = crc32_bitwise (NOT 0) pre XOR le_word mid'"
    by (rule injD [OF inj_crc_bits])
  then have "le_word mid = le_word mid'" by (simp only: xor_cancel)
  with le_word_inj [OF assms(3,4)] assms(5) show False by simp
qed

theorem crc32_detects_bursts_witness:
  "fst (vpipe_crc32 ([7] @ [1, 2] @ [9, 9]) crc32_state_init) \<noteq> fst (vpipe_crc32 ([7] @ [2, 2] @ [9, 9]) crc32_state_init)"
  by (rule crc32_detects_bursts [OF crc32_state_init_ok crc32_state_init_ok]) simp_all

end
