(* ===== verification/User_Files.thy ===== *)
theory User_Files
  imports Vpipe_Types
begin

text \<open>
  The file-system helpers of the user-space tools (user/vpipe-common.c):
  \<open>vpipe_ensure_parent_dir\<close> and \<open>vpipe_open_csv\<close>, over the calls they make, and what the
  tools rely on from those calls.
\<close>

section \<open>Files and directories\<close>

text \<open>
  What the tools use of the file system: \<open>mkdir\<close>, opening a file for writing (which empties
  it) and writing bytes, over an arbitrary state.
\<close>

record 's fs_api =
  os_mkdir :: "string \<Rightarrow> 's \<Rightarrow> unit result \<times> 's"
  os_fopen_w :: "string \<Rightarrow> 's \<Rightarrow> 's option"
  os_fwrite :: "string \<Rightarrow> u8 list \<Rightarrow> 's \<Rightarrow> nat \<times> 's"

definition strrchr :: "string \<Rightarrow> char \<Rightarrow> nat option" where
  "strrchr path ch = (if ch \<in> set path then Some (length path - Suc (length (takeWhile (\<lambda>c. c \<noteq> ch) (rev path)))) else None)"

definition mkdir_ok :: "unit result \<Rightarrow> bool" where
  "mkdir_ok r \<longleftrightarrow> r = Inr () \<or> r = Inl EEXIST"

text \<open>The loop of \<open>vpipe_ensure_parent_dir\<close> over the positions of the truncated path.\<close>

fun mkdir_walk :: "'s fs_api \<Rightarrow> string \<Rightarrow> nat list \<Rightarrow> 's \<Rightarrow> bool \<times> 's" where
  "mkdir_walk api dir [] s = (True, s)"
| "mkdir_walk api dir (p # ps) s =
     (if dir ! p \<noteq> CHR ''/'' then mkdir_walk api dir ps s
      else case os_mkdir api (take p dir) s of (r, s) \<Rightarrow>
        if mkdir_ok r then mkdir_walk api dir ps s else (False, s))"

text \<open>\<open>dup\<close>: whether \<open>strdup\<close> succeeds.  The result says whether the return value is 0.\<close>

definition vpipe_ensure_parent_dir :: "'s fs_api \<Rightarrow> bool \<Rightarrow> string \<Rightarrow> 's \<Rightarrow> bool \<times> 's" where
  "vpipe_ensure_parent_dir api dup path s =
     (if \<not> dup then (False, s)
      else case strrchr path (CHR ''/'') of
        None \<Rightarrow> (True, s)
      | Some slash \<Rightarrow>
         (let dir = take slash path
          in if dir = [] then (True, s)
             else case mkdir_walk api dir [1..<length dir] s of
               (False, s) \<Rightarrow> (False, s)
             | (True, s) \<Rightarrow> (case os_mkdir api dir s of (r, s) \<Rightarrow> (mkdir_ok r, s))))"

text \<open>\<open>vpipe_open_csv\<close>: the header line goes into the new file; the result says whether it is open.\<close>

definition bytes_of :: "string \<Rightarrow> u8 list" where
  "bytes_of cs = map (\<lambda>c. of_nat (of_char c)) cs"

definition vpipe_open_csv :: "'s fs_api \<Rightarrow> bool \<Rightarrow> string \<Rightarrow> string option \<Rightarrow> 's \<Rightarrow> bool \<times> 's" where
  "vpipe_open_csv api dup path header s =
     (case vpipe_ensure_parent_dir api dup path s of
        (False, s) \<Rightarrow> (False, s)
      | (True, s) \<Rightarrow>
         (case os_fopen_w api path s of None \<Rightarrow> (False, s)
          | Some s \<Rightarrow> (case header of None \<Rightarrow> (True, s)
              | Some h \<Rightarrow> (True, snd (os_fwrite api path (bytes_of h @ [10]) s)))))"

section \<open>Directories\<close>

text \<open>The directories above a path, outermost first, and creating them in order.\<close>

definition ancestors :: "string \<Rightarrow> string list" where
  "ancestors path = map (\<lambda>p. take p path) (filter (\<lambda>p. path ! p = CHR ''/'') [1..<length path])"

fun mkdir_all :: "'s fs_api \<Rightarrow> string list \<Rightarrow> 's \<Rightarrow> bool \<times> 's" where
  "mkdir_all api [] s = (True, s)"
| "mkdir_all api (d # ds) s = (case os_mkdir api d s of (r, s) \<Rightarrow> if mkdir_ok r then mkdir_all api ds s else (False, s))"

lemma mkdir_walk_all:
  "\<forall>p\<in>set ps. p < length dir \<Longrightarrow> mkdir_walk api dir ps s = mkdir_all api (map (\<lambda>p. take p dir) (filter (\<lambda>p. dir ! p = CHR ''/'') ps)) s"
  by (induction ps arbitrary: s) (auto split: prod.split)

lemma mkdir_all_append:
  "mkdir_all api (ds @ es) s = (case mkdir_all api ds s of (ok, s) \<Rightarrow> if ok then mkdir_all api es s else (False, s))"
  by (induction ds arbitrary: s) (auto split: prod.split)

lemma strrchr_None: "strrchr path ch = None \<longleftrightarrow> ch \<notin> set path"
  by (simp add: strrchr_def)

lemma strrchr_Some:
  assumes "strrchr path ch = Some k"
  shows "k < length path \<and> path ! k = ch \<and> (\<forall>p. k < p \<and> p < length path \<longrightarrow> path ! p \<noteq> ch)"
proof -
  let ?r = "takeWhile (\<lambda>c. c \<noteq> ch) (rev path)"
  have mem: "ch \<in> set path" and k: "k = length path - Suc (length ?r)"
    using assms by (auto simp: strrchr_def split: if_splits)
  have len: "length ?r < length path"
  proof (rule ccontr)
    assume "\<not> length ?r < length path"
    then have "?r = rev path"
      using takeWhile_eq_take [of "\<lambda>c. c \<noteq> ch" "rev path"] by simp
    then show False using mem by (metis (mono_tags, lifting) set_rev set_takeWhileD)
  qed
  have "rev path ! length ?r = ch" using nth_length_takeWhile [of "\<lambda>c. c \<noteq> ch" "rev path"] len by simp
  then have "path ! k = ch" using len by (simp add: rev_nth k)
  moreover have "path ! p \<noteq> ch" if p: "k < p" "p < length path" for p
  proof -
    have i: "length path - Suc p < length ?r" using p len by (simp add: k)
    then have "?r ! (length path - Suc p) = rev path ! (length path - Suc p)" by (rule takeWhile_nth)
    moreover have "?r ! (length path - Suc p) \<in> set ?r" using i by (rule nth_mem)
    ultimately show ?thesis using p by (auto simp: rev_nth dest: set_takeWhileD)
  qed
  ultimately show ?thesis using len by (simp add: k)
qed

lemma ensure_parent_dir_all: "vpipe_ensure_parent_dir api True path s = mkdir_all api (ancestors path) s"
proof (cases "strrchr path (CHR ''/'')")
  case None
  then have "\<forall>p<length path. path ! p \<noteq> CHR ''/''" by (metis strrchr_None nth_mem)
  then have "ancestors path = []" by (simp add: ancestors_def filter_empty_conv)
  then show ?thesis using None by (simp add: vpipe_ensure_parent_dir_def)
next
  case (Some k)
  note k = strrchr_Some [OF Some]
  let ?slash = "\<lambda>p. path ! p = CHR ''/''"
  show ?thesis
  proof (cases "k = 0")
    case True
    then have "ancestors path = []" using k by (simp add: ancestors_def filter_empty_conv)
    then show ?thesis using Some True by (simp add: vpipe_ensure_parent_dir_def)
  next
    case False
    have "[1..<length path] = [1..<k] @ [k] @ [Suc k..<length path]"
      using k False upt_add_eq_append [of 1 k "length path - k"] upt_conv_Cons [of k "length path"] by simp
    moreover have "filter ?slash [Suc k..<length path] = []" using k by (auto simp: filter_empty_conv)
    ultimately have "filter ?slash [1..<length path] = filter ?slash [1..<k] @ [k]" using k by simp
    then have "ancestors path = map (\<lambda>p. take p path) (filter ?slash [1..<k]) @ [take k path]" by (simp add: ancestors_def)
    also have "map (\<lambda>p. take p path) (filter ?slash [1..<k]) =
        map (\<lambda>p. take p (take k path)) (filter (\<lambda>p. take k path ! p = CHR ''/'') [1..<k])"
      by (intro map_cong filter_cong) (auto simp: min_def)
    finally show ?thesis
      using Some False k mkdir_walk_all [of "[1..<k]" "take k path" api s]
      by (auto simp: vpipe_ensure_parent_dir_def Let_def mkdir_all_append split: prod.split bool.split)
  qed
qed

section \<open>What the tools rely on\<close>

text \<open>
  The documented behaviour of the three calls, through two views of the state: which paths
  exist, and the contents of regular files.
\<close>

definition fs_laws :: "'s fs_api \<Rightarrow> ('s \<Rightarrow> string \<Rightarrow> bool) \<Rightarrow> ('s \<Rightarrow> string \<rightharpoonup> u8 list) \<Rightarrow> bool" where
  "fs_laws api exists files \<longleftrightarrow> (\<forall>p s.
     (mkdir_ok (fst (os_mkdir api p s)) \<longrightarrow> exists (snd (os_mkdir api p s)) p) \<and>
     (\<forall>d. exists s d \<longrightarrow> exists (snd (os_mkdir api p s)) d) \<and>
     files (snd (os_mkdir api p s)) = files s \<and>
     (\<forall>s'. os_fopen_w api p s = Some s' \<longrightarrow> files s' = (files s)(p \<mapsto> [])) \<and>
     (\<forall>bs old. files s p = Some old \<longrightarrow>
        files (snd (os_fwrite api p bs s)) = (files s)(p \<mapsto> old @ take (fst (os_fwrite api p bs s)) bs)))"

text \<open>No call fails.\<close>

definition fs_healthy :: "'s fs_api \<Rightarrow> bool" where
  "fs_healthy api \<longleftrightarrow> (\<forall>p s bs. mkdir_ok (fst (os_mkdir api p s)) \<and> os_fopen_w api p s \<noteq> None \<and>
     fst (os_fwrite api p bs s) = length bs)"

lemma fs_mkdirD:
  assumes "fs_laws api exists files" "os_mkdir api p s = (r, s')"
  shows "mkdir_ok r \<Longrightarrow> exists s' p" "exists s d \<Longrightarrow> exists s' d" "files s' = files s"
proof -
  have "(mkdir_ok (fst (os_mkdir api p s)) \<longrightarrow> exists (snd (os_mkdir api p s)) p) \<and>
     (\<forall>d. exists s d \<longrightarrow> exists (snd (os_mkdir api p s)) d) \<and> files (snd (os_mkdir api p s)) = files s"
    using assms(1) unfolding fs_laws_def by blast
  then show "mkdir_ok r \<Longrightarrow> exists s' p" "exists s d \<Longrightarrow> exists s' d" "files s' = files s" using assms(2) by simp_all
qed

lemma mkdir_all_exists:
  assumes "fs_laws api exists files" "fst (mkdir_all api ds s)"
  shows "(\<forall>d\<in>set ds. exists (snd (mkdir_all api ds s)) d) \<and> (\<forall>d. exists s d \<longrightarrow> exists (snd (mkdir_all api ds s)) d)"
  using assms(2)
proof (induction ds arbitrary: s)
  case (Cons d ds)
  obtain r s1 where m: "os_mkdir api d s = (r, s1)" by (cases "os_mkdir api d s")
  with Cons.prems have "mkdir_ok r" "fst (mkdir_all api ds s1)" by (auto split: if_splits)
  with Cons.IH [OF this(2)] m show ?case using fs_mkdirD [OF assms(1) m] by simp
qed simp

lemma mkdir_all_healthy:
  "fs_laws api exists files \<Longrightarrow> fs_healthy api \<Longrightarrow>
     fst (mkdir_all api ds s) \<and> files (snd (mkdir_all api ds s)) = files s"
proof (induction ds arbitrary: s)
  case (Cons d ds)
  obtain r s1 where m: "os_mkdir api d s = (r, s1)" by (cases "os_mkdir api d s")
  then have "mkdir_ok r" using Cons.prems(2) unfolding fs_healthy_def by (metis fst_conv)
  moreover have "files s1 = files s" using fs_mkdirD(3) [OF Cons.prems(1) m] .
  ultimately show ?case using Cons m by simp
qed simp

text \<open>
  C33.  Parent directories.  \<open>vpipe_ensure_parent_dir\<close> calls \<open>mkdir\<close> on exactly the directories
  above the path, outermost first, and stops at the first error other than \<open>EEXIST\<close>; when it
  reports success all of them exist.
\<close>

theorem ensure_parent_dir_creates:
  assumes "fs_laws api exists files"
  shows "vpipe_ensure_parent_dir api dup path s = (if dup then mkdir_all api (ancestors path) s else (False, s)) \<and>
    (fst (vpipe_ensure_parent_dir api dup path s) \<longrightarrow>
      (\<forall>d\<in>set (ancestors path). exists (snd (vpipe_ensure_parent_dir api dup path s)) d))"
proof (cases dup)
  case True
  then show ?thesis using ensure_parent_dir_all [of api path s] mkdir_all_exists [OF assms, of "ancestors path" s] by simp
qed (simp add: vpipe_ensure_parent_dir_def)

text \<open>A file system held in memory, on which the examples run.\<close>

record mem_fs =
  mf_dirs :: "string list"
  mf_files :: "string \<rightharpoonup> u8 list"

definition mem_api :: "mem_fs fs_api" where
  "mem_api = \<lparr>os_mkdir = (\<lambda>d s. if d \<in> set (mf_dirs s) then (Inl EEXIST, s) else (Inr (), s\<lparr>mf_dirs := mf_dirs s @ [d]\<rparr>)),
     os_fopen_w = (\<lambda>p s. Some (s\<lparr>mf_files := (mf_files s)(p \<mapsto> [])\<rparr>)),
     os_fwrite = (\<lambda>p bs s. (length bs, case mf_files s p of None \<Rightarrow> s | Some old \<Rightarrow> s\<lparr>mf_files := (mf_files s)(p \<mapsto> old @ bs)\<rparr>))\<rparr>"

definition mem_fs_empty :: mem_fs where
  "mem_fs_empty = \<lparr>mf_dirs = [''out''], mf_files = Map.empty\<rparr>"

lemma mem_api_laws: "fs_laws mem_api (\<lambda>s d. d \<in> set (mf_dirs s)) mf_files" "fs_healthy mem_api"
  by (auto simp: fs_laws_def fs_healthy_def mem_api_def mkdir_ok_def)

theorem ensure_parent_dir_creates_witness:
  "vpipe_ensure_parent_dir mem_api True ''out/a/f'' mem_fs_empty = (True, mem_fs_empty\<lparr>mf_dirs := [''out'', ''out/a'']\<rparr>)"
proof -
  have "ancestors ''out/a/f'' = [''out'', ''out/a'']" by (simp add: ancestors_def upt_rec)
  with ensure_parent_dir_creates [OF mem_api_laws(1), of True "''out/a/f''" mem_fs_empty]
  show ?thesis by (simp add: mem_api_def mem_fs_empty_def mkdir_ok_def)
qed

end
