(* ===== verification/User_Pgm.thy ===== *)
theory User_Pgm
  imports User_Files "HOL-Library.Sublist"
begin

text \<open>
  The image files of the user-space tools (user/vpipe-common.c): \<open>vpipe_write_pgm\<close>,
  \<open>vpipe_read_pgm\<close> with \<open>vpipe_skip_space\<close>, \<open>vpipe_free_pgm\<close> and \<open>vpipe_write_diff_pgm\<close>, with
  the number formatting and scanning of the C library they use.
\<close>

section \<open>Images\<close>

text \<open>
  \<open>struct vpipe_pgm_image\<close>; a null pixel pointer is \<open>None\<close>.  Sizes are products of two 32-bit
  numbers, which the 64-bit \<open>size_t\<close> holds, so they are natural numbers here.
\<close>

record vpipe_pgm_image =
  pgm_width :: u32
  pgm_height :: u32
  pgm_pixels :: "u8 list option"
  pgm_size :: nat

definition zero_image :: vpipe_pgm_image where
  "zero_image = \<lparr>pgm_width = 0, pgm_height = 0, pgm_pixels = None, pgm_size = 0\<rparr>"

text \<open>\<open>%u\<close> on output.\<close>

fun dec :: "nat \<Rightarrow> u8 list" where
  "dec n = (if n < 10 then [48 + of_nat n] else dec (n div 10) @ [48 + of_nat (n mod 10)])"

declare dec.simps [simp del]

definition pgm_header :: "u32 \<Rightarrow> u32 \<Rightarrow> u8 list" where
  "pgm_header width height =
     [0x50, 0x35, 10] @ dec (unat width) @ [32] @ dec (unat height) @ [10, 0x32, 0x35, 0x35, 10]"

definition vpipe_write_pgm :: "'s fs_api \<Rightarrow> bool \<Rightarrow> string \<Rightarrow> u8 list \<Rightarrow> u32 \<Rightarrow> u32 \<Rightarrow> 's \<Rightarrow> (bool \<times> 's) option" where
  "vpipe_write_pgm api dup path data width height s =
     (let n = unat width * unat height
      in case vpipe_ensure_parent_dir api dup path s of
        (False, s) \<Rightarrow> Some (False, s)
      | (True, s) \<Rightarrow>
         (case os_fopen_w api path s of None \<Rightarrow> Some (False, s)
          | Some s \<Rightarrow>
             (let s = snd (os_fwrite api path (pgm_header width height) s)
              in if length data < n then None
                 else case os_fwrite api path (take n data) s of (k, s) \<Rightarrow> Some (k = n, s))))"

section \<open>Reading\<close>

text \<open>A stream is the list of bytes not yet read; \<open>None\<close> is the end of file.\<close>

definition fgetc :: "u8 list \<Rightarrow> u8 option \<times> u8 list" where
  "fgetc cs = (case cs of [] \<Rightarrow> (None, []) | c # cs \<Rightarrow> (Some c, cs))"

definition ungetc :: "u8 option \<Rightarrow> u8 list \<Rightarrow> u8 list" where
  "ungetc c cs = (case c of None \<Rightarrow> cs | Some c \<Rightarrow> c # cs)"

definition is_space :: "u8 \<Rightarrow> bool" where
  "is_space c \<longleftrightarrow> c = 32 \<or> (9 \<le> c \<and> c \<le> 13)"

definition is_digit :: "u8 \<Rightarrow> bool" where
  "is_digit c \<longleftrightarrow> 48 \<le> c \<and> c \<le> 57"

fun skip_line :: "u8 list \<Rightarrow> u8 option \<times> u8 list" where
  "skip_line [] = (None, [])"
| "skip_line (c # cs) = (if c = 10 then (Some c, cs) else skip_line cs)"

lemma skip_line_length: "skip_line cs = (c, ds) \<Longrightarrow> length ds \<le> length cs"
  by (induction cs) (auto split: if_splits)

function vpipe_skip_space :: "u8 list \<Rightarrow> u8 option \<times> u8 list" where
  "vpipe_skip_space cs =
     (case cs of [] \<Rightarrow> (None, [])
      | c # cs \<Rightarrow>
         (case (if c = 0x23 then skip_line cs else (Some c, cs)) of
            (None, cs) \<Rightarrow> (None, cs)
          | (Some c, cs) \<Rightarrow> if is_space c then vpipe_skip_space cs else (Some c, cs)))"
  by auto
termination
  by (relation "measure length") (auto split: if_splits dest!: skip_line_length [OF sym])

declare vpipe_skip_space.simps [simp del]

text \<open>
  \<open>%u\<close> on input: white space, an optional sign, digits; the number is converted as \<open>strtoul\<close>
  does in 64 bits and then stored in 32.
\<close>

definition digits_value :: "u8 list \<Rightarrow> nat" where
  "digits_value ds = foldl (\<lambda>v d. 10 * v + (unat d - 48)) 0 ds"

definition strtoul_value :: "bool \<Rightarrow> nat \<Rightarrow> u64" where
  "strtoul_value neg v = (if 2 ^ 64 \<le> v then - 1 else if neg then - of_nat v else of_nat v)"

definition scan_u32 :: "u8 list \<Rightarrow> (u32 \<times> u8 list) option" where
  "scan_u32 cs =
     (let cs = dropWhile is_space cs;
          (neg, cs) = (case cs of [] \<Rightarrow> (False, cs)
            | c # cs' \<Rightarrow> if c = 0x2d then (True, cs') else if c = 0x2b then (False, cs') else (False, cs));
          ds = takeWhile is_digit cs
      in if ds = [] then None else Some (ucast (strtoul_value neg (digits_value ds)), dropWhile is_digit cs))"

abbreviation (input) VPIPE_PGM_MAX_DIM :: u32 where "VPIPE_PGM_MAX_DIM \<equiv> 4096"

text \<open>\<open>file\<close>: the contents if the file can be opened; \<open>alloc\<close>: whether \<open>malloc\<close> succeeds.\<close>

definition vpipe_read_pgm :: "u8 list option \<Rightarrow> bool \<Rightarrow> bool \<times> vpipe_pgm_image" where
  "vpipe_read_pgm file alloc =
     (case file of None \<Rightarrow> (False, zero_image)
      | Some cs \<Rightarrow>
        (case fgetc cs of (c, cs) \<Rightarrow>
         case fgetc cs of (c', cs) \<Rightarrow>
         if c \<noteq> Some 0x50 \<or> c' \<noteq> Some 0x35 then (False, zero_image)
         else let (c, cs) = vpipe_skip_space cs; cs = ungetc c cs
         in case scan_u32 cs of None \<Rightarrow> (False, zero_image)
         | Some (w, cs) \<Rightarrow>
           (let img = zero_image\<lparr>pgm_width := w\<rparr>
            in case scan_u32 (dropWhile is_space cs) of None \<Rightarrow> (False, img)
            | Some (h, cs) \<Rightarrow>
              (let img = img\<lparr>pgm_height := h\<rparr>
               in if w = 0 \<or> h = 0 \<or> w > VPIPE_PGM_MAX_DIM \<or> h > VPIPE_PGM_MAX_DIM then (False, img)
               else let (c, cs) = vpipe_skip_space cs; cs = ungetc c cs
               in case scan_u32 cs of None \<Rightarrow> (False, img)
               | Some (maxval, cs) \<Rightarrow>
                  if maxval \<noteq> 255 then (False, img)
                  else let cs = snd (fgetc cs); n = unat w * unat h
                  in if \<not> alloc then (False, img)
                  else if length cs < n then (False, img)
                  else (True, img\<lparr>pgm_pixels := Some (take n cs), pgm_size := n\<rparr>)))))"

definition vpipe_free_pgm :: "vpipe_pgm_image \<Rightarrow> vpipe_pgm_image" where
  "vpipe_free_pgm img = zero_image"

text \<open>
  \<open>vpipe_write_diff_pgm\<close>: the loop reads the pixels of both images; reading behind the end of
  one is a fault.
\<close>

definition abs_delta :: "u8 \<Rightarrow> u8 \<Rightarrow> u8" where
  "abs_delta a b = (let delta = uint a - uint b in word_of_int (if delta < 0 then - delta else delta))"

definition vpipe_write_diff_pgm ::
    "'s fs_api \<Rightarrow> bool \<Rightarrow> bool \<Rightarrow> string \<Rightarrow> vpipe_pgm_image \<Rightarrow> vpipe_pgm_image \<Rightarrow> 's \<Rightarrow> (bool \<times> 's) option" where
  "vpipe_write_diff_pgm api dup alloc path lhs rhs s =
     (if pgm_width lhs \<noteq> pgm_width rhs \<or> pgm_height lhs \<noteq> pgm_height rhs then Some (False, s)
      else if \<not> alloc then Some (False, s)
      else do {
        a \<leftarrow> (case pgm_pixels lhs of None \<Rightarrow> if pgm_size lhs = 0 then Some [] else None | Some a \<Rightarrow> Some a);
        b \<leftarrow> (case pgm_pixels rhs of None \<Rightarrow> if pgm_size lhs = 0 then Some [] else None | Some b \<Rightarrow> Some b);
        if length a < pgm_size lhs \<or> length b < pgm_size lhs then None
        else let pixels = map (\<lambda>i. abs_delta (a ! i) (b ! i)) [0..<pgm_size lhs]
             in vpipe_write_pgm api dup path pixels (pgm_width lhs) (pgm_height lhs) s })"

section \<open>Decimal numbers\<close>

lemma dec_digits: "\<forall>d\<in>set (dec n). is_digit d"
proof (induction n rule: dec.induct)
  case (1 n)
  have digit: "is_digit (48 + of_nat k)" if "k < 10" for k
  proof -
    have "unat (48 + of_nat k :: u8) = 48 + k" using that by (simp add: unat_word_ariths unat_of_nat)
    then show ?thesis using that by (simp add: is_digit_def word_le_nat_alt)
  qed
  show ?case
  proof (cases "n < 10")
    case True
    then show ?thesis using digit by (simp add: dec.simps [of n])
  next
    case False
    then show ?thesis using 1 digit [of "n mod 10"] by (simp add: dec.simps [of n])
  qed
qed

lemma dec_nonempty: "dec n \<noteq> []"
  by (subst dec.simps) simp

lemma digits_value_snoc: "digits_value (ds @ [d]) = 10 * digits_value ds + (unat d - 48)"
  by (simp add: digits_value_def)

lemma digits_value_dec: "digits_value (dec n) = n"
proof (induction n rule: dec.induct)
  case (1 n)
  have digit: "unat (48 + of_nat k :: u8) - 48 = k" if "k < 10" for k
    using that by (simp add: unat_word_ariths unat_of_nat)
  show ?case
  proof (cases "n < 10")
    case True
    then show ?thesis using digit by (simp add: dec.simps [of n] digits_value_def)
  next
    case False
    then show ?thesis using 1 digit [of "n mod 10"] by (simp add: dec.simps [of n] digits_value_snoc)
  qed
qed

lemma digit_not_space: "is_digit d \<Longrightarrow> \<not> is_space d \<and> d \<noteq> 0x2d \<and> d \<noteq> 0x2b \<and> d \<noteq> 0x23"
  by (auto simp: is_digit_def is_space_def word_le_nat_alt word_unat_eq_iff)

lemma scan_dec:
  assumes "n < 2 ^ 32" "\<forall>s\<in>set sp. is_space s" "rest = [] \<or> \<not> is_digit (hd rest)"
  shows "scan_u32 (sp @ dec n @ rest) = Some (of_nat n, rest)"
proof -
  obtain d ds where dec: "dec n = d # ds" using dec_nonempty [of n] by (cases "dec n") auto
  have digits: "\<forall>x\<in>set (d # ds). is_digit x" using dec_digits [of n] dec by simp
  then have d: "\<not> is_space d" "d \<noteq> 0x2d" "d \<noteq> 0x2b" using digit_not_space [of d] by simp_all
  have sp: "dropWhile is_space (sp @ d # ds @ rest) = d # ds @ rest" using assms(2) d by (simp add: dropWhile_append1 dropWhile_append)
  have tw: "is_digit d" "takeWhile is_digit (ds @ rest) = ds" "dropWhile is_digit (ds @ rest) = rest"
    using digits assms(3) by (cases rest; auto simp: takeWhile_append dropWhile_append)+
  have "ucast (strtoul_value False n) = (of_nat n :: u32)"
    using assms(1) by (simp add: strtoul_value_def unsigned_of_nat take_bit_nat_eq_self)
  then show ?thesis
    using digits_value_dec [of n] by (simp add: scan_u32_def dec sp tw d Let_def)
qed

section \<open>Reading what was written\<close>

lemma skip_space_single: "is_space c \<Longrightarrow> c \<noteq> 0x23 \<Longrightarrow> vpipe_skip_space (c # cs) = vpipe_skip_space cs"
  by (subst vpipe_skip_space.simps) simp

lemma skip_space_stop: "\<not> is_space c \<Longrightarrow> c \<noteq> 0x23 \<Longrightarrow> vpipe_skip_space (c # cs) = (Some c, cs)"
  by (subst vpipe_skip_space.simps) simp

lemma skip_space_dec:
  assumes "is_space c" "c \<noteq> 0x23"
  shows "(case vpipe_skip_space (c # dec n @ cs) of (c, cs) \<Rightarrow> ungetc c cs) = dec n @ cs"
proof -
  obtain d ds where dec: "dec n = d # ds" using dec_nonempty [of n] by (cases "dec n") auto
  then have "is_digit d" using dec_digits [of n] by simp
  then show ?thesis using assms digit_not_space [of d] by (simp add: dec skip_space_single skip_space_stop ungetc_def)
qed

lemma dec_255: "dec 255 = [0x32, 0x35, 0x35]"
  by (simp add: dec.simps)

lemma read_header:
  assumes "0 < unat w" "unat w \<le> 4096" "0 < unat h" "unat h \<le> 4096" "unat w * unat h \<le> length data"
  shows "vpipe_read_pgm (Some (pgm_header w h @ data)) True =
    (True, \<lparr>pgm_width = w, pgm_height = h, pgm_pixels = Some (take (unat w * unat h) data), pgm_size = unat w * unat h\<rparr>)"
proof -
  let ?tail = "10 # dec 255 @ 10 # data"
  have hdr: "pgm_header w h @ data = 0x50 # 0x35 # 10 # dec (unat w) @ 32 # dec (unat h) @ ?tail"
    by (simp add: pgm_header_def dec_255)
  have sp: "is_space 10" "is_space 32" "\<not> is_digit 32" "\<not> is_digit 10" by (simp_all add: is_space_def is_digit_def)
  have lt: "unat w < 2 ^ 32" "unat h < 2 ^ 32" using assms by simp_all
  have w: "scan_u32 (dec (unat w) @ 32 # dec (unat h) @ ?tail) = Some (w, 32 # dec (unat h) @ ?tail)"
    using scan_dec [of "unat w" "[]" "32 # dec (unat h) @ ?tail"] lt sp by simp
  have "dropWhile is_space (32 # dec (unat h) @ ?tail) = dec (unat h) @ ?tail"
    using dec_digits [of "unat h"] dec_nonempty [of "unat h"] digit_not_space sp by (cases "dec (unat h)") auto
  then have h: "scan_u32 (dropWhile is_space (32 # dec (unat h) @ ?tail)) = Some (h, ?tail)"
    using scan_dec [of "unat h" "[]" ?tail] lt sp by simp
  have m: "scan_u32 (dec 255 @ 10 # data) = Some (255, 10 # data)"
    using scan_dec [of 255 "[]" "10 # data"] sp by simp
  have dims: "w \<noteq> 0" "h \<noteq> 0" "\<not> 4096 < w" "\<not> 4096 < h" using assms by (auto simp: word_less_nat_alt unat_gt_0)
  have s1: "(case vpipe_skip_space (10 # dec (unat w) @ 32 # dec (unat h) @ ?tail) of (c, cs) \<Rightarrow> ungetc c cs) =
      dec (unat w) @ 32 # dec (unat h) @ ?tail"
    and s2: "(case vpipe_skip_space ?tail of (c, cs) \<Rightarrow> ungetc c cs) = dec 255 @ 10 # data"
    using skip_space_dec sp by simp_all
  show ?thesis
    unfolding hdr vpipe_read_pgm_def Let_def
    using w h m dims assms(5) s1 s2
    by (simp add: fgetc_def zero_image_def split_beta)
qed

lemma fs_writeD:
  assumes "fs_laws api exists files" "fs_healthy api"
  shows "\<exists>s'. os_fopen_w api p s = Some s' \<and> files s' = (files s)(p \<mapsto> [])"
    and "files s p = Some old \<Longrightarrow> files (snd (os_fwrite api p bs s)) = (files s)(p \<mapsto> old @ bs) \<and> fst (os_fwrite api p bs s) = length bs"
proof -
  have laws: "os_fopen_w api p s = Some s' \<longrightarrow> files s' = (files s)(p \<mapsto> [])"
    "files s p = Some old \<longrightarrow> files (snd (os_fwrite api p bs s)) = (files s)(p \<mapsto> old @ take (fst (os_fwrite api p bs s)) bs)" for s'
    using assms(1) unfolding fs_laws_def by blast+
  have "os_fopen_w api p s \<noteq> None" "fst (os_fwrite api p bs s) = length bs"
    using assms(2) unfolding fs_healthy_def by blast+
  then show "\<exists>s'. os_fopen_w api p s = Some s' \<and> files s' = (files s)(p \<mapsto> [])"
    "files s p = Some old \<Longrightarrow> files (snd (os_fwrite api p bs s)) = (files s)(p \<mapsto> old @ bs) \<and> fst (os_fwrite api p bs s) = length bs"
    using laws by auto
qed

lemma write_pgm_contents:
  assumes fs: "fs_laws api exists files" "fs_healthy api" and len: "unat w * unat h \<le> length data"
  shows "\<exists>s'. vpipe_write_pgm api True path data w h s = Some (True, s') \<and>
    files s' = (files s)(path \<mapsto> pgm_header w h @ take (unat w * unat h) data)"
proof -
  let ?n = "unat w * unat h"
  obtain s1 where s1: "vpipe_ensure_parent_dir api True path s = (True, s1)" "files s1 = files s"
    using mkdir_all_healthy [OF fs, of "ancestors path" s] ensure_parent_dir_all [of api path s]
    by (cases "mkdir_all api (ancestors path) s") auto
  obtain s2 where s2: "os_fopen_w api path s1 = Some s2" "files s2 = (files s)(path \<mapsto> [])"
    using fs_writeD(1) [OF fs, of path s1] s1 by auto
  obtain s3 where s3: "snd (os_fwrite api path (pgm_header w h) s2) = s3" "files s3 = (files s)(path \<mapsto> pgm_header w h)"
    using fs_writeD(2) [OF fs, of s2 path "[]" "pgm_header w h"] s2 by auto
  have "fst (os_fwrite api path (take ?n data) s3) = ?n"
    "files (snd (os_fwrite api path (take ?n data) s3)) = (files s)(path \<mapsto> pgm_header w h @ take ?n data)"
    using fs_writeD(2) [OF fs, of s3 path "pgm_header w h" "take ?n data"] s3 len by auto
  then show ?thesis using s1 s2 s3 len by (simp add: vpipe_write_pgm_def Let_def split_beta)
qed

definition pgm_ok :: "vpipe_pgm_image \<Rightarrow> bool" where
  "pgm_ok img \<longleftrightarrow> 0 < unat (pgm_width img) \<and> unat (pgm_width img) \<le> 4096 \<and> 0 < unat (pgm_height img) \<and>
     unat (pgm_height img) \<le> 4096 \<and> pgm_size img = unat (pgm_width img) * unat (pgm_height img) \<and>
     (\<exists>px. pgm_pixels img = Some px \<and> length px = pgm_size img)"

lemma pgm_written:
  assumes "fs_laws api exists files" "fs_healthy api" "pgm_ok img" "pgm_pixels img = Some px"
  shows "\<exists>s'. vpipe_write_pgm api True path px (pgm_width img) (pgm_height img) s = Some (True, s') \<and>
    vpipe_read_pgm (files s' path) True = (True, img)"
proof -
  have len: "length px = unat (pgm_width img) * unat (pgm_height img)" using assms(3,4) by (auto simp: pgm_ok_def)
  then obtain s' where s': "vpipe_write_pgm api True path px (pgm_width img) (pgm_height img) s = Some (True, s')"
    "files s' path = Some (pgm_header (pgm_width img) (pgm_height img) @ px)"
    using write_pgm_contents [OF assms(1,2), of "pgm_width img" "pgm_height img" px path s] by auto
  have "img = \<lparr>pgm_width = pgm_width img, pgm_height = pgm_height img, pgm_pixels = Some px, pgm_size = length px\<rparr>"
    using assms(3,4) by (cases img) (auto simp: pgm_ok_def)
  moreover have "vpipe_read_pgm (Some (pgm_header (pgm_width img) (pgm_height img) @ px)) True =
      (True, \<lparr>pgm_width = pgm_width img, pgm_height = pgm_height img, pgm_pixels = Some px, pgm_size = length px\<rparr>)"
    using read_header [of "pgm_width img" "pgm_height img" px] assms(3) by (simp add: pgm_ok_def flip: len)
  ultimately have "vpipe_read_pgm (Some (pgm_header (pgm_width img) (pgm_height img) @ px)) True = (True, img)" by metis
  with s' show ?thesis by simp
qed

text \<open>
  C13.  The image files round trip.  On a file system where no call fails, writing any
  well-formed image succeeds, and reading the file back gives the same image: the printed
  dimensions are scanned as written and the pixels start right behind the header, whatever
  bytes they begin with.
\<close>

theorem pgm_roundtrip:
  assumes "fs_laws api exists files" "fs_healthy api" "pgm_ok img" "pgm_pixels img = Some px"
  shows "\<exists>s'. vpipe_write_pgm api True path px (pgm_width img) (pgm_height img) s = Some (True, s') \<and>
    vpipe_read_pgm (files s' path) True = (True, img)"
  using pgm_written [OF assms] .

theorem pgm_roundtrip_witness:
  "\<exists>s'. vpipe_write_pgm mem_api True ''out/a.pgm'' [10, 32] 2 1 mem_fs_empty = Some (True, s') \<and>
    vpipe_read_pgm (mf_files s' ''out/a.pgm'') True =
      (True, \<lparr>pgm_width = 2, pgm_height = 1, pgm_pixels = Some [10, 32], pgm_size = 2\<rparr>)"
  using pgm_roundtrip [OF mem_api_laws, of "\<lparr>pgm_width = 2, pgm_height = 1, pgm_pixels = Some [10, 32], pgm_size = 2\<rparr>"
      "[10, 32]" "''out/a.pgm''" mem_fs_empty]
  by (simp add: pgm_ok_def)

section \<open>Reading anything\<close>

text \<open>Every reading step leaves a tail of the stream.\<close>

lemma skip_line_suffix: "skip_line cs = (c, ds) \<Longrightarrow> suffix ds cs"
  by (induction cs) (auto split: if_splits intro: suffix_ConsI)

lemma skip_space_suffix: "vpipe_skip_space cs = (c, ds) \<Longrightarrow> suffix (ungetc c ds) cs"
proof (induction cs arbitrary: c ds rule: vpipe_skip_space.induct)
  case (1 cs)
  show ?case
  proof (cases cs)
    case Nil
    then show ?thesis using 1(2) by (subst (asm) vpipe_skip_space.simps) (simp add: ungetc_def)
  next
    case (Cons a as)
    obtain c' ds' where step: "(if a = 0x23 then skip_line as else (Some a, as)) = (c', ds')" by fastforce
    have suf: "suffix ds' as" using step skip_line_suffix [of as c' ds'] by (auto split: if_splits)
    show ?thesis
    proof (cases "\<exists>x. c' = Some x \<and> is_space x")
      case True
      then obtain x where x: "c' = Some x" "is_space x" by blast
      have "vpipe_skip_space ds' = (c, ds)"
        using 1(2) x step unfolding Cons by (subst (asm) vpipe_skip_space.simps) simp
      from 1(1) [OF Cons step [symmetric] x(1) x(2) this] suf show ?thesis
        unfolding Cons by (meson suffix_ConsI suffix_order.trans)
    next
      case False
      have eq: "c = c'" "ds = ds'"
        using 1(2) False step unfolding Cons by (subst (asm) vpipe_skip_space.simps, auto split: option.splits)+
      show ?thesis
      proof (cases "a = 0x23")
        case True
        then have "c' = None \<or> c' = Some 10" using step by (induction as) (auto split: if_splits)
        with False eq suf show ?thesis unfolding Cons by (auto simp: ungetc_def is_space_def intro: suffix_ConsI)
      next
        case False
        then show ?thesis using step eq unfolding Cons by (auto simp: ungetc_def)
      qed
    qed
  qed
qed

lemma scan_suffix: "scan_u32 cs = Some (v, ds) \<Longrightarrow> suffix ds cs"
proof -
  assume *: "scan_u32 cs = Some (v, ds)"
  let ?cs = "dropWhile is_space cs"
  have "ds = dropWhile is_digit ?cs \<or> (\<exists>c cs'. ?cs = c # cs' \<and> ds = dropWhile is_digit cs')"
    using * by (cases ?cs) (auto simp: scan_u32_def Let_def split: if_splits)
  moreover have "suffix ?cs cs" by (rule suffix_dropWhile)
  ultimately show ?thesis by (metis suffix_dropWhile suffix_order.trans suffix_ConsI)
qed

text \<open>
  C25.  Hostile image files.  For any bytes and any outcome of the allocation, an accepted
  file starts with the magic number, its dimensions are in 1..4096, and the pixels are
  exactly width times height consecutive bytes of the file; a rejected file leaves no pixel
  buffer behind.
\<close>

theorem read_pgm_sound:
  "case vpipe_read_pgm file alloc of
     (True, img) \<Rightarrow> pgm_ok img \<and> alloc \<and>
       (\<exists>pre px post. file = Some ([0x50, 0x35] @ pre @ px @ post) \<and> pgm_pixels img = Some px)
   | (False, img) \<Rightarrow> pgm_pixels img = None"
proof (cases "vpipe_read_pgm file alloc")
  case (Pair ok img)
  show ?thesis
  proof (cases ok)
    case False
    then show ?thesis
      using Pair by (auto simp: vpipe_read_pgm_def Let_def zero_image_def split: option.splits prod.splits if_splits)
  next
    case True
    with Pair obtain cs1 c2 cs2 w cs3 h cs4 c5 cs5 cs6 where
      f: "file = Some (0x50 # 0x35 # cs1)" and
      st: "vpipe_skip_space cs1 = (c2, cs2)" "scan_u32 (ungetc c2 cs2) = Some (w, cs3)"
        "scan_u32 (dropWhile is_space cs3) = Some (h, cs4)" "vpipe_skip_space cs4 = (c5, cs5)"
        "scan_u32 (ungetc c5 cs5) = Some (255, cs6)" and
      d: "w \<noteq> 0" "h \<noteq> 0" "\<not> 4096 < w" "\<not> 4096 < h" "alloc" "unat w * unat h \<le> length (snd (fgetc cs6))" and
      img: "img = \<lparr>pgm_width = w, pgm_height = h, pgm_pixels = Some (take (unat w * unat h) (snd (fgetc cs6))),
         pgm_size = unat w * unat h\<rparr>"
      by (auto simp: vpipe_read_pgm_def Let_def zero_image_def fgetc_def not_less split: option.splits prod.splits if_splits list.splits)
    have "suffix (snd (fgetc cs6)) cs6" by (auto simp: fgetc_def suffix_def split: list.split)
    moreover have "suffix cs6 (ungetc c5 cs5)" "suffix (ungetc c5 cs5) cs4" "suffix cs4 (dropWhile is_space cs3)"
      "suffix (dropWhile is_space cs3) cs3" "suffix cs3 (ungetc c2 cs2)" "suffix (ungetc c2 cs2) cs1"
      using st by (auto intro: scan_suffix skip_space_suffix suffix_dropWhile)
    ultimately have "suffix (snd (fgetc cs6)) cs1" by (meson suffix_order.trans)
    then obtain pre where "cs1 = pre @ snd (fgetc cs6)" by (auto simp: suffix_def)
    then obtain post where "cs1 = pre @ take (unat w * unat h) (snd (fgetc cs6)) @ post" by (metis append_take_drop_id)
    then have "file = Some ([0x50, 0x35] @ pre @ take (unat w * unat h) (snd (fgetc cs6)) @ post)" using f by simp
    moreover have "pgm_ok img" using d by (simp add: img pgm_ok_def unat_gt_0 word_less_nat_alt not_less)
    moreover have "pgm_pixels img = Some (take (unat w * unat h) (snd (fgetc cs6)))" by (simp add: img)
    ultimately show ?thesis unfolding Pair using True d(5) by simp blast
  qed
qed

section \<open>Difference images\<close>

lemma abs_delta_zero: "abs_delta a b = 0 \<longleftrightarrow> a = b"
proof -
  have r: "0 \<le> \<bar>uint a - uint b\<bar>" "\<bar>uint a - uint b\<bar> < 256"
    using uint_lt2p [of a, simplified] uint_lt2p [of b, simplified] uint_ge_0 [of a] uint_ge_0 [of b] by arith+
  have "abs_delta a b = word_of_int \<bar>uint a - uint b\<bar>" by (auto simp: abs_delta_def Let_def abs_if)
  then have "uint (abs_delta a b) = \<bar>uint a - uint b\<bar>" using r by (simp add: unsigned_of_int take_bit_int_eq_self)
  moreover have "(abs_delta a b = 0) = (uint (abs_delta a b) = 0)" by (simp add: uint_0_iff)
  ultimately show ?thesis by (simp add: word_uint_eq_iff)
qed

text \<open>
  Difference images.  For two well-formed images of equal dimensions the tool writes an
  image that reads back with the absolute difference at every pixel, and it is all black
  exactly when the two images are equal; images of different dimensions are refused and no
  file is touched.
\<close>

theorem diff_pgm_compares:
  assumes "fs_laws api exists files" "fs_healthy api" "pgm_ok lhs" "pgm_ok rhs"
    and "pgm_pixels lhs = Some a" "pgm_pixels rhs = Some b"
  shows "if pgm_width lhs = pgm_width rhs \<and> pgm_height lhs = pgm_height rhs
    then \<exists>s'. vpipe_write_diff_pgm api True True path lhs rhs s = Some (True, s') \<and>
      vpipe_read_pgm (files s' path) True = (True, lhs\<lparr>pgm_pixels := Some (map2 abs_delta a b)\<rparr>) \<and>
      ((\<forall>d\<in>set (map2 abs_delta a b). d = 0) \<longleftrightarrow> lhs = rhs)
    else vpipe_write_diff_pgm api True True path lhs rhs s = Some (False, s)"
proof (cases "pgm_width lhs = pgm_width rhs \<and> pgm_height lhs = pgm_height rhs")
  case True
  have len: "length a = pgm_size lhs" "length b = pgm_size lhs" "pgm_size rhs = pgm_size lhs"
    using assms(3-6) True by (auto simp: pgm_ok_def)
  have px: "map (\<lambda>i. abs_delta (a ! i) (b ! i)) [0..<pgm_size lhs] = map2 abs_delta a b"
    using len by (intro nth_equalityI) simp_all
  let ?img = "lhs\<lparr>pgm_pixels := Some (map2 abs_delta a b)\<rparr>"
  have "pgm_ok ?img" using assms(3) len by (simp add: pgm_ok_def)
  from pgm_written [OF assms(1,2) this, of "map2 abs_delta a b" path s] obtain s' where
    "vpipe_write_pgm api True path (map2 abs_delta a b) (pgm_width lhs) (pgm_height lhs) s = Some (True, s')"
    "vpipe_read_pgm (files s' path) True = (True, ?img)" by auto
  moreover have "(\<forall>d\<in>set (map2 abs_delta a b). d = 0) \<longleftrightarrow> a = b"
    using len by (auto simp: set_zip abs_delta_zero list_eq_iff_nth_eq)
  moreover have "a = b \<longleftrightarrow> lhs = rhs" using True len assms(5,6) by (cases lhs; cases rhs) auto
  ultimately show ?thesis
    using True len assms(5,6) by (simp add: vpipe_write_diff_pgm_def px)
qed (auto simp: vpipe_write_diff_pgm_def)

theorem diff_pgm_compares_witness:
  "\<exists>s'. vpipe_write_diff_pgm mem_api True True ''d''
      \<lparr>pgm_width = 2, pgm_height = 1, pgm_pixels = Some [7, 9], pgm_size = 2\<rparr>
      \<lparr>pgm_width = 2, pgm_height = 1, pgm_pixels = Some [9, 9], pgm_size = 2\<rparr> mem_fs_empty = Some (True, s') \<and>
    vpipe_read_pgm (mf_files s' ''d'') True = (True, \<lparr>pgm_width = 2, pgm_height = 1, pgm_pixels = Some [2, 0], pgm_size = 2\<rparr>)"
  using diff_pgm_compares [OF mem_api_laws, of "\<lparr>pgm_width = 2, pgm_height = 1, pgm_pixels = Some [7, 9], pgm_size = 2\<rparr>"
      "\<lparr>pgm_width = 2, pgm_height = 1, pgm_pixels = Some [9, 9], pgm_size = 2\<rparr>" "[7, 9]" "[9, 9]" "''d''" mem_fs_empty]
  by (auto simp: pgm_ok_def abs_delta_def)

end
