(* ===== verification/User_Threshold.thy ===== *)
theory User_Threshold
  imports User_Pgm Tiny_Cv
begin

text \<open>
  The user-space threshold reference (user/vpipe-common.c, \<open>vpipe_threshold_reference\<close>) and
  its agreement with the kernel's threshold step.
\<close>

unbundle bit_operations_syntax

section \<open>The reference routine\<close>

text \<open>The window, in 32-bit unsigned arithmetic.\<close>

definition reference_window :: "u32 \<Rightarrow> u32 \<Rightarrow> s32 \<Rightarrow> s32 \<Rightarrow> s32 \<Rightarrow> s32 \<Rightarrow> u32 \<times> u32 \<times> u32 \<times> u32" where
  "reference_window w h rl rt rw rh =
     (if rw \<le>s 0 \<or> rh \<le>s 0 then (0, 0, w, h)
      else let left = (if rl <s 0 then 0 else if rl > w then w else rl);
               top = (if rt <s 0 then 0 else if rt > h then h else rt)
           in (left, top, if rw > w - left then w else left + rw, if rh > h - top then h else top + rh))"

text \<open>
  \<open>vpipe_threshold_reference\<close>; reading or writing outside an image is a fault.
\<close>

definition vpipe_threshold_reference ::
    "bool \<Rightarrow> vpipe_pgm_image \<Rightarrow> u8 \<Rightarrow> s32 \<Rightarrow> s32 \<Rightarrow> s32 \<Rightarrow> s32 \<Rightarrow> (bool \<times> vpipe_pgm_image) option" where
  "vpipe_threshold_reference alloc src threshold rl rt rw rh =
     (if \<not> alloc then Some (False, zero_image)
      else do {
        px \<leftarrow> (case pgm_pixels src of None \<Rightarrow> if pgm_size src = 0 then Some [] else None | Some px \<Rightarrow> Some px);
        if length px < pgm_size src then None
        else do {
          let w = pgm_width src;
          let h = pgm_height src;
          let (left, top, right, bottom) = reference_window w h rl rt rw rh;
          pixels \<leftarrow> foreach (\<lambda>y. foreach (\<lambda>x d. do {
                let idx = y * unat w + x;
                if idx < length px \<and> idx < length d then Some (d[idx := if px ! idx > threshold then 255 else 0]) else None })
              [unat left..<unat right]) [unat top..<unat bottom] (take (pgm_size src) px);
          Some (True, \<lparr>pgm_width = w, pgm_height = h, pgm_pixels = Some pixels, pgm_size = pgm_size src\<rparr>) } })"

section \<open>Its window\<close>

lemma int_unat: "int (unat (w :: u32)) = uint w"
  by simp

lemma ref_axis:
  fixes f :: u32 and p n :: s32
  assumes f: "uint f < 2147483648" and n: "0 < sint n"
  defines "lo \<equiv> if p <s 0 then 0 else if p > f then f else p"
  defines "hi \<equiv> if n > f - lo then f else lo + n"
  shows "uint lo = win_lo (uint f) (sint p)" "uint hi = win_hi (uint f) (sint p) (sint n)"
proof -
  have nn: "sint n = uint n" using n by (intro sint_nonneg_uint) simp
  have p: "sint p = uint p" if "\<not> p <s 0" using that by (intro sint_nonneg_uint) (simp add: word_sless_alt not_less)
  show lo: "uint lo = win_lo (uint f) (sint p)"
  proof (cases "p <s 0")
    case True
    then have "min (uint f) (sint p) < 0" by (simp add: word_sless_alt min_less_iff_disj)
    then show ?thesis using True by (simp add: lo_def win_lo_def)
  next
    case False
    then show ?thesis using p by (simp add: lo_def win_lo_def word_less_def min_def)
  qed
  then have le: "uint lo \<le> uint f" by (simp add: win_lo_def)
  then have sub: "uint (f - lo) = uint f - uint lo" by (simp flip: uint_sub_lem)
  have "uint (lo + n) = uint lo + uint n" if "\<not> n > f - lo"
  proof -
    have "uint n \<le> uint f - uint lo" using that sub by (simp add: word_less_def)
    then have "uint lo + uint n < 2 ^ 32" using f by simp
    then show ?thesis by (simp flip: uint_add_lem)
  qed
  then show "uint hi = win_hi (uint f) (sint p) (sint n)"
    using sub lo nn unfolding hi_def win_hi_def by (auto simp: word_less_def min_def)
qed

lemma reference_loop:
  assumes "0 < w" "r \<le> w" "b * w \<le> length px" "length D = length px"
  shows "foreach (\<lambda>y. foreach (\<lambda>x d. do {
       let idx = y * w + x;
       if idx < length px \<and> idx < length d then Some (d[idx := f x y]) else None }) [l..<r]) [t..<b] D =
     Some (draw l t r b w f D)"
proof (cases "t \<le> b \<and> l \<le> r")
  case True
  let ?body = "\<lambda>y x d. do { let idx = y * w + x; if idx < length px \<and> idx < length d then Some (d[idx := f x y]) else None }"
  have "\<exists>s'. foreach (\<lambda>y. foreach (?body y) [l..<r]) [t..<b] D = Some s' \<and> s' = draw l t r b w f D"
  proof (rule foreach_upt [where I = "\<lambda>k s. s = draw l t r k w f D"])
    fix y s assume y: "t \<le> y" "y < b" and s: "s = draw l t r y w f D"
    have "\<exists>s'. foreach (?body y) [l..<r] s = Some s' \<and> s' = draw l y r (Suc y) w f s"
    proof (rule foreach_upt [where I = "\<lambda>k v. v = draw l y k (Suc y) w f s"])
      fix x v assume x: "l \<le> x" "x < r" and v: "v = draw l y x (Suc y) w f s"
      have "y * w + x < b * w" using index_less [of y b x w] y x assms by simp
      then have "y * w + x < length px" "y * w + x < length s" using assms s by simp_all
      then show "\<exists>v'. ?body y x v = Some v' \<and> v' = draw l y (Suc x) (Suc y) w f s"
        using x v assms draw_step_x [of l x w y f s] by simp
    qed (use True in simp_all)
    then show "\<exists>s'. foreach (?body y) [l..<r] s = Some s' \<and> s' = draw l t r (Suc y) w f D"
      using s y draw_step_y [of t y l r w f D] by simp
  qed (use True in simp_all)
  then show ?thesis by blast
next
  case False
  have skip: "foreach (\<lambda>y. foreach (g y) [l..<r]) ys s = Some s" if "r < l" for g :: "nat \<Rightarrow> nat \<Rightarrow> u8 list \<Rightarrow> u8 list option" and ys s
    using that by (induction ys) simp_all
  show ?thesis
  proof (cases "r < l")
    case True
    then have d: "draw l t r b w f D = D" by simp
    show ?thesis unfolding d by (rule skip [OF True])
  next
    case False
    then show ?thesis using \<open>\<not> (t \<le> b \<and> l \<le> r)\<close> by simp
  qed
qed

lemma reference_window_roi:
  assumes "uint w < 2147483648" "uint h < 2147483648" "reference_window w h rl rt rw rh = (l, t, r, b)"
  shows "roi_window (unat w) (unat h) (sint rl, sint rt, sint rw, sint rh) = (unat l, unat t, unat r, unat b)"
proof (cases "rw \<le>s 0 \<or> rh \<le>s 0")
  case True
  then show ?thesis using assms(3) by (auto simp: reference_window_def roi_window_def word_sle_eq)
next
  case False
  then have pos: "0 < sint rw" "0 < sint rh" by (simp_all add: word_sle_eq)
  note x = ref_axis [OF assms(1) pos(1), of rl] and y = ref_axis [OF assms(2) pos(2), of rt]
  have "nat (uint v) = unat v" for v :: u32 by simp
  then show ?thesis
    using assms(3) False pos unfolding reference_window_def Let_def roi_window_def
    by (simp only: if_False prod.inject prod.case int_unat x [symmetric] y [symmetric]) auto
qed

lemma small_dim: "unat v \<le> 4096 \<Longrightarrow> uint (v :: u32) < 2147483648"
proof -
  assume "unat v \<le> 4096"
  then have "uint v \<le> int 4096" by (simp only: int_unat [symmetric] of_nat_le_iff)
  then show ?thesis by simp
qed

lemma reference_draws:
  assumes img: "pgm_ok src" "pgm_pixels src = Some S"
    and win: "roi_window (unat (pgm_width src)) (unat (pgm_height src)) (sint rl, sint rt, sint rw, sint rh) = (l, t, r, b)"
  shows "vpipe_threshold_reference True src th rl rt rw rh = Some (True, src\<lparr>pgm_pixels :=
    Some (draw l t r b (unat (pgm_width src)) (\<lambda>x y. if S ! (y * unat (pgm_width src) + x) > th then 255 else 0) S)\<rparr>)"
proof -
  let ?w = "unat (pgm_width src)" and ?h = "unat (pgm_height src)"
  have len: "length S = ?w * ?h" "pgm_size src = length S" and dims: "0 < ?w" "?w \<le> 4096" "?h \<le> 4096"
    using img by (auto simp: pgm_ok_def)
  obtain l' t' r' b' where w': "reference_window (pgm_width src) (pgm_height src) rl rt rw rh = (l', t', r', b')" by (metis prod_cases4)
  have eq: "unat l' = l" "unat t' = t" "unat r' = r" "unat b' = b"
    using reference_window_roi [OF small_dim [OF dims(2)] small_dim [OF dims(3)] w', simplified] win by simp_all
  have "r \<le> ?w" "b * ?w \<le> length S"
    using roi_window_bounds [OF win] len by (simp_all add: mult.commute)
  then have loop: "foreach (\<lambda>y. foreach (\<lambda>x d. do {
       let idx = y * ?w + x;
       if idx < length S \<and> idx < length d then Some (d[idx := if S ! idx > th then 255 else 0]) else None }) [l..<r]) [t..<b] S =
     Some (draw l t r b ?w (\<lambda>x y. if S ! (y * ?w + x) > th then 255 else 0) S)"
    using reference_loop [of ?w r b S S "\<lambda>x y. if S ! (y * ?w + x) > th then 255 else 0" l t] dims by simp
  have "src\<lparr>pgm_pixels := Some d\<rparr> = \<lparr>pgm_width = pgm_width src, pgm_height = pgm_height src, pgm_pixels = Some d, pgm_size = pgm_size src\<rparr>" for d
    by (cases src) simp
  then show ?thesis
    using loop img(2) len(2) by (simp add: vpipe_threshold_reference_def w' eq Let_def)
qed

lemma pgm_job_ok:
  assumes "pgm_ok src" "pgm_pixels src = Some S" "m sb = Some S" "m db = Some D" "sb \<noteq> db" "length S \<le> length D"
  shows "job_ok m \<lparr>j_src = (sb, 0), j_dst = (db, 0), j_width = pgm_width src, j_height = pgm_height src,
     j_src_stride = pgm_width src, j_dst_stride = pgm_width src\<rparr> sb db S D"
proof -
  have "unat (pgm_height src) * unat (pgm_width src) \<le> 4096 * 4096"
    using assms(1) by (intro mult_le_mono) (auto simp: pgm_ok_def)
  moreover have "uint (pgm_width src) < 2147483648" "uint (pgm_height src) < 2147483648"
    using assms(1) small_dim by (auto simp: pgm_ok_def)
  ultimately show ?thesis using assms by (auto simp: job_ok_def pgm_ok_def mult.commute)
qed

lemma threshold_u8: "threshold_pixel (ucast th) px = (if px > th then 255 else 0)"
proof -
  have "unat (ucast v :: u32) = unat v" for v :: u8
  proof -
    have "unat v < 2 ^ 8" using unsigned_less [of v] by simp
    then show ?thesis by (simp add: unsigned_ucast_eq take_bit_nat_eq_self)
  qed
  then have "(ucast th < (ucast px :: u32)) = (th < px)" by (simp add: word_less_nat_alt)
  then show ?thesis by (simp add: threshold_pixel_def)
qed

lemma picture_eq:
  assumes "0 < w" "length S = w * h" "length D = length S"
  shows "draw 0 0 w h w (cv_pixel VPIPE_ALGO_THRESHOLD (ucast th) (l, t, r, b) w S) D =
    draw l t r b w (\<lambda>x y. if S ! (y * w + x) > th then 255 else 0) S"
proof (rule nth_equalityI)
  fix i assume "i < length (draw 0 0 w h w (cv_pixel VPIPE_ALGO_THRESHOLD (ucast th) (l, t, r, b) w S) D)"
  then have i: "i < length S" using assms by simp
  then have "i mod w < w" "i div w < h" using assms by (simp_all add: less_mult_imp_div_less mult.commute)
  then show "draw 0 0 w h w (cv_pixel VPIPE_ALGO_THRESHOLD (ucast th) (l, t, r, b) w S) D ! i =
      draw l t r b w (\<lambda>x y. if S ! (y * w + x) > th then 255 else 0) S ! i"
    using i assms by (simp add: nth_draw cv_pixel_def threshold_u8)
qed (use assms in simp)

text \<open>
  C10.  The user-space reference and the kernel agree.  For every well-formed image, every
  region (any signed 32-bit numbers) and every 8-bit threshold, the reference routine and
  the kernel's threshold step on the same pixels both end without a fault and produce the
  same image, byte for byte.
\<close>

theorem threshold_reference_matches_kernel:
  assumes "pgm_ok src" "pgm_pixels src = Some S"
    and "m sb = Some S" "m db = Some D" "sb \<noteq> db" "length D = length S"
  shows "\<exists>px res. vpipe_threshold_reference True src th rl rt rw rh = Some (True, src\<lparr>pgm_pixels := Some px\<rparr>) \<and>
    vpipe_cv_process \<lparr>j_src = (sb, 0), j_dst = (db, 0), j_width = pgm_width src, j_height = pgm_height src,
       j_src_stride = pgm_width src, j_dst_stride = pgm_width src\<rparr> VPIPE_ALGO_THRESHOLD (ucast th)
      (Some \<lparr>roi_left = rl, roi_top = rt, roi_width = rw, roi_height = rh\<rparr>) m = Some (Inr res, m(db \<mapsto> px))"
proof -
  let ?w = "unat (pgm_width src)" and ?h = "unat (pgm_height src)"
  let ?job = "\<lparr>j_src = (sb, 0), j_dst = (db, 0), j_width = pgm_width src, j_height = pgm_height src,
     j_src_stride = pgm_width src, j_dst_stride = pgm_width src\<rparr>"
  let ?roi = "Some \<lparr>roi_left = rl, roi_top = rt, roi_width = rw, roi_height = rh\<rparr>"
  obtain l t r b where win: "roi_window ?w ?h (sint rl, sint rt, sint rw, sint rh) = (l, t, r, b)" by (metis prod_cases4)
  let ?px = "draw l t r b ?w (\<lambda>x y. if S ! (y * ?w + x) > th then 255 else 0) S"
  have ok: "job_ok m ?job sb db S D" using pgm_job_ok [OF assms(1,2)] assms by simp
  then obtain res where "vpipe_cv_process ?job VPIPE_ALGO_THRESHOLD (ucast th) ?roi m =
      Some (Inr res, m(db \<mapsto> draw 0 0 ?w ?h ?w (cv_pixel VPIPE_ALGO_THRESHOLD (ucast th) (l, t, r, b) ?w S) D))"
    using cv_process_picture [OF ok, of VPIPE_ALGO_THRESHOLD "ucast th" ?roi] win by (auto simp: roi_ints_def)
  moreover have "draw 0 0 ?w ?h ?w (cv_pixel VPIPE_ALGO_THRESHOLD (ucast th) (l, t, r, b) ?w S) D = ?px"
    using assms by (intro picture_eq) (auto simp: pgm_ok_def)
  ultimately show ?thesis using reference_draws [OF assms(1,2) win, of th] by auto
qed

theorem threshold_reference_matches_kernel_witness:
  "\<exists>px res. vpipe_threshold_reference True \<lparr>pgm_width = 2, pgm_height = 2, pgm_pixels = Some [10, 200, 200, 10], pgm_size = 4\<rparr>
      127 1 (-5) 9 6 = Some (True, \<lparr>pgm_width = 2, pgm_height = 2, pgm_pixels = Some px, pgm_size = 4\<rparr>) \<and>
    vpipe_cv_process \<lparr>j_src = (3, 0), j_dst = (4, 0), j_width = 2, j_height = 2, j_src_stride = 2, j_dst_stride = 2\<rparr>
      VPIPE_ALGO_THRESHOLD 127 (Some \<lparr>roi_left = 1, roi_top = -5, roi_width = 9, roi_height = 6\<rparr>)
      [3 \<mapsto> [10, 200, 200, 10], 4 \<mapsto> [1, 1, 1, 1]] = Some (Inr res, [3 \<mapsto> [10, 200, 200, 10], 4 \<mapsto> px])"
  using threshold_reference_matches_kernel [of "\<lparr>pgm_width = 2, pgm_height = 2, pgm_pixels = Some [10, 200, 200, 10], pgm_size = 4\<rparr>"
      "[10, 200, 200, 10]" "[3 \<mapsto> [10, 200, 200, 10], 4 \<mapsto> [1, 1, 1, 1]]" 3 4 "[1, 1, 1, 1]" 127 1 "-5" 9 6]
  by (simp add: pgm_ok_def)

end
