(* ===== verification/User_Tools.thy ===== *)
theory User_Tools
  imports User_Threshold Meta_Ring
begin

text \<open>
  The command lines of the user-space tools and their image tools: number and name parsing
  as the capture and benchmark tools do it, and the programs vpipe-cv-ref, vpipe-pgm-diff,
  vpipe-dump-pgm and vpipe-meta-drain.
\<close>

unbundle bit_operations_syntax

section \<open>Numbers on the command line\<close>

text \<open>
  \<open>strtoul\<close> of the C library on a byte string: white space, an optional sign, a base prefix
  when the base is 0, digits; it returns the number, what follows it, and whether it was out
  of range.  Without digits it returns 0 and the whole string.
\<close>

definition digit_of :: "u8 \<Rightarrow> nat option" where
  "digit_of c = (if is_digit c then Some (unat c - 48)
     else if 0x61 \<le> c \<and> c \<le> 0x7a then Some (unat c - 87)
     else if 0x41 \<le> c \<and> c \<le> 0x5a then Some (unat c - 55) else None)"

definition base_digit :: "nat \<Rightarrow> u8 \<Rightarrow> bool" where
  "base_digit base c = (case digit_of c of None \<Rightarrow> False | Some d \<Rightarrow> d < base)"

definition digits_in :: "nat \<Rightarrow> u8 list \<Rightarrow> nat" where
  "digits_in base ds = foldl (\<lambda>v c. base * v + (case digit_of c of None \<Rightarrow> 0 | Some d \<Rightarrow> d)) 0 ds"

definition split_sign :: "u8 list \<Rightarrow> bool \<times> u8 list" where
  "split_sign cs = (case cs of [] \<Rightarrow> (False, cs)
     | c # cs' \<Rightarrow> if c = 0x2d then (True, cs') else if c = 0x2b then (False, cs') else (False, cs))"

definition base_prefix :: "nat \<Rightarrow> u8 list \<Rightarrow> nat \<times> u8 list" where
  "base_prefix base cs =
     (if base \<noteq> 0 then (base, cs)
      else case cs of
        z # x # d # rest \<Rightarrow>
          if z = 0x30 \<and> (x = 0x78 \<or> x = 0x58) \<and> base_digit 16 d then (16, d # rest)
          else if z = 0x30 then (8, cs) else (10, cs)
      | z # rest \<Rightarrow> if z = 0x30 then (8, cs) else (10, cs)
      | [] \<Rightarrow> (10, cs))"

definition strtoul :: "nat \<Rightarrow> u8 list \<Rightarrow> u64 \<times> u8 list \<times> bool" where
  "strtoul base s =
     (let (neg, cs) = split_sign (dropWhile is_space s);
          (base, cs) = base_prefix base cs;
          ds = takeWhile (base_digit base) cs
      in if ds = [] then (0, s, False)
         else (strtoul_value neg (digits_in base ds), dropWhile (base_digit base) cs, 2 ^ 64 \<le> digits_in base ds))"

text \<open>\<open>parse_uint_range\<close>, and \<open>parse_uint\<close> which stores the number in 32 bits.\<close>

definition parse_uint_range :: "u8 list option \<Rightarrow> u64 \<Rightarrow> u64 \<Rightarrow> u64 option" where
  "parse_uint_range arg lo hi =
     (case arg of None \<Rightarrow> None
      | Some s \<Rightarrow>
         if s = [] \<or> hd s = 0x2d then None
         else case strtoul 10 s of (v, rest, range_error) \<Rightarrow>
           if range_error \<or> rest \<noteq> [] \<or> v < lo \<or> v > hi then None else Some v)"

definition parse_uint :: "u8 list option \<Rightarrow> u64 \<Rightarrow> u64 \<Rightarrow> u32 option" where
  "parse_uint arg lo hi =
     (case arg of None \<Rightarrow> None
      | Some s \<Rightarrow>
         if s = [] \<or> hd s = 0x2d then None
         else case strtoul 10 s of (v, rest, range_error) \<Rightarrow>
           if range_error \<or> rest \<noteq> [] \<or> v < lo \<or> v > hi then None else Some (ucast v))"

definition parse_algo :: "string \<Rightarrow> u32 option" where
  "parse_algo arg = (if arg = ''none'' then Some VPIPE_ALGO_NONE
     else if arg = ''threshold'' then Some VPIPE_ALGO_THRESHOLD else None)"

datatype transport_mode = TRANSPORT_DMABUF | TRANSPORT_MMAP

definition parse_transport :: "string \<Rightarrow> transport_mode option" where
  "parse_transport arg = (if arg = ''dmabuf'' then Some TRANSPORT_DMABUF
     else if arg = ''mmap'' then Some TRANSPORT_MMAP else None)"

section \<open>The image tools\<close>

text \<open>
  An argument or its default; argument 0 is the program name.  The exit status is the
  result, or \<open>None\<close> when the program reads outside a buffer.
\<close>

definition arg_or :: "nat \<Rightarrow> 'a list \<Rightarrow> 'a \<Rightarrow> 'a" where
  "arg_or i argv d = (if length argv > i then argv ! i else d)"

definition uint_arg :: "nat \<Rightarrow> string list \<Rightarrow> u32 \<Rightarrow> u32" where
  "uint_arg i argv d = (if length argv > i then ucast (fst (strtoul 0 (bytes_of (argv ! i)))) else d)"

text \<open>
  user/vpipe-cv-ref.c.  \<open>files\<close> reads a file; \<open>alloc1\<close>, \<open>alloc2\<close> and \<open>dup\<close>: whether the
  allocations succeed.
\<close>

definition cv_ref_main ::
    "'s fs_api \<Rightarrow> ('s \<Rightarrow> string \<rightharpoonup> u8 list) \<Rightarrow> bool \<Rightarrow> bool \<Rightarrow> bool \<Rightarrow> string list \<Rightarrow> 's \<Rightarrow> (nat \<times> 's) option" where
  "cv_ref_main api files alloc1 alloc2 dup argv s = do {
     let input = arg_or 1 argv ''tests/fixtures/ramp.pgm'';
     let output = arg_or 2 argv ''bench/ramp.reference.pgm'';
     let threshold = uint_arg 3 argv 127;
     (case vpipe_read_pgm (files s input) alloc1 of
        (False, src) \<Rightarrow> Some (1, s)
      | (True, src) \<Rightarrow> do {
          (done, dst) \<leftarrow> vpipe_threshold_reference alloc2 src (ucast threshold) 0 0 (pgm_width src) (pgm_height src);
          if \<not> done then Some (1, s)
          else do {
            px \<leftarrow> pgm_pixels dst;
            (written, s) \<leftarrow> vpipe_write_pgm api dup output px (pgm_width dst) (pgm_height dst) s;
            Some (if written then 0 else 1, s) } }) }"

text \<open>user/vpipe-pgm-diff.c.\<close>

definition pgm_diff_main ::
    "'s fs_api \<Rightarrow> ('s \<Rightarrow> string \<rightharpoonup> u8 list) \<Rightarrow> bool \<Rightarrow> bool \<Rightarrow> bool \<Rightarrow> bool \<Rightarrow> string list \<Rightarrow> 's \<Rightarrow> (nat \<times> 's) option" where
  "pgm_diff_main api files alloc1 alloc2 alloc3 dup argv s =
     (if length argv \<noteq> 4 then Some (1, s)
      else case vpipe_read_pgm (files s (argv ! 1)) alloc1 of
        (False, lhs) \<Rightarrow> Some (1, s)
      | (True, lhs) \<Rightarrow>
         (case vpipe_read_pgm (files s (argv ! 2)) alloc2 of
            (False, rhs) \<Rightarrow> Some (1, s)
          | (True, rhs) \<Rightarrow> do {
              (done, s) \<leftarrow> vpipe_write_diff_pgm api dup alloc3 (argv ! 3) lhs rhs s;
              Some (if done then 0 else 1, s) }))"

text \<open>user/vpipe-dump-pgm.c.\<close>

definition dump_pgm_main ::
    "'s fs_api \<Rightarrow> ('s \<Rightarrow> string \<rightharpoonup> u8 list) \<Rightarrow> bool \<Rightarrow> bool \<Rightarrow> string list \<Rightarrow> 's \<Rightarrow> (nat \<times> 's) option" where
  "dump_pgm_main api files alloc dup argv s = do {
     let output = arg_or 2 argv ''dump.pgm'';
     let width = uint_arg 3 argv 640;
     let height = uint_arg 4 argv 480;
     let n = unat width * unat height;
     if length argv \<le> 1 then Some (1, s)
     else case files s (argv ! 1) of
       None \<Rightarrow> Some (1, s)
     | Some data \<Rightarrow>
         if \<not> alloc then Some (1, s)
         else if length data < n then Some (1, s)
         else do {
           (done, s) \<leftarrow> vpipe_write_pgm api dup output (take n data) width height s;
           Some (if done then 0 else 1, s) } }"

section \<open>Accepted numbers\<close>

lemma parse_uint_range_bounds: "parse_uint_range arg lo hi = Some v \<Longrightarrow> lo \<le> v \<and> v \<le> hi"
  by (auto simp: parse_uint_range_def not_less split: option.splits if_splits prod.splits)

lemma decimal_digit: "is_digit c \<Longrightarrow> digit_of c = Some (unat c - 48) \<and> base_digit 10 c"
proof -
  assume "is_digit c"
  moreover from this have "unat c - 48 < 10" by (auto simp: is_digit_def word_le_nat_alt)
  ultimately show ?thesis by (simp add: digit_of_def base_digit_def)
qed

lemma digits_in_decimal: "\<forall>c\<in>set ds. is_digit c \<Longrightarrow> digits_in 10 ds = digits_value ds"
proof (induction ds rule: rev_induct)
  case (snoc d ds)
  then show ?case using decimal_digit [of d] by (simp add: digits_in_def digits_value_def)
qed (simp add: digits_in_def digits_value_def)

lemma parse_dec:
  assumes "n < 2 ^ 64" "lo \<le> of_nat n" "of_nat n \<le> hi"
  shows "parse_uint_range (Some (dec n)) lo hi = Some (of_nat n)"
proof -
  obtain d ds where dec: "dec n = d # ds" using dec_nonempty [of n] by (cases "dec n") auto
  have digits: "\<forall>x\<in>set (d # ds). is_digit x" using dec_digits [of n] dec by simp
  then have d: "\<not> is_space d" "d \<noteq> 0x2d" "d \<noteq> 0x2b" using digit_not_space [of d] by simp_all
  have tw: "base_digit 10 d" "takeWhile (base_digit 10) ds = ds" "dropWhile (base_digit 10) ds = []"
    using digits decimal_digit by (auto simp: takeWhile_eq_all_conv dropWhile_eq_Nil_conv)
  have "digits_in 10 (d # ds) = n" using digits_in_decimal [OF digits] digits_value_dec [of n] dec by simp
  then have "strtoul 10 (dec n) = (of_nat n, [], False)"
    using assms(1) d unfolding dec strtoul_def Let_def
    by (simp add: tw split_sign_def base_prefix_def strtoul_value_def)
  then show ?thesis using assms(2,3) d by (simp add: parse_uint_range_def dec not_less)
qed

text \<open>
  The guard against negative numbers looks at the first byte only: behind a blank the sign
  reaches \<open>strtoul\<close>, which negates, and the result can be in range.
\<close>

lemma parse_uint_range_negative:
  "parse_uint_range (Some (bytes_of '' -18446744073709551615'')) 1 600 = Some 1"
  by (simp add: parse_uint_range_def strtoul_def bytes_of_def split_sign_def base_prefix_def base_digit_def digit_of_def
      is_digit_def is_space_def strtoul_value_def digits_in_def)

section \<open>The metadata drain\<close>

text \<open>One CSV row of user/vpipe-meta-drain.c: decimal fields between commas, ended by a newline.\<close>

definition dec_int :: "int \<Rightarrow> u8 list" where
  "dec_int v = (if v < 0 then 0x2d # dec (nat (- v)) else dec (nat v))"

fun csv_join :: "u8 list list \<Rightarrow> u8 list" where
  "csv_join [] = [10]"
| "csv_join [f] = f @ [10]"
| "csv_join (f # fs) = f @ 0x2c # csv_join fs"

definition meta_csv_fields :: "vpipe_meta_entry \<Rightarrow> u8 list list" where
  "meta_csv_fields e =
     [dec (unat (me_seq e)), dec (unat (me_src_v4l2_sequence e)), dec (unat (me_buffer_index e)),
      dec (unat (me_source_timestamp_ns e)), dec (unat (me_qbuf_timestamp_ns e)), dec (unat (me_capture_done_ns e)),
      dec (unat (me_dqbuf_timestamp_ns e)), dec (unat (me_bytesused e)), dec (unat (me_crc32 e)), dec (unat (me_algo_id e)),
      dec (unat (me_algo_status e)), dec_int (sint (me_roi_left e)), dec_int (sint (me_roi_top e)),
      dec_int (sint (me_roi_width e)), dec_int (sint (me_roi_height e)), dec (unat (me_algo_value0 e)),
      dec (unat (me_algo_value1 e)), dec (unat (me_source_backend e)), dec (unat (me_buffer_type e)),
      dec (unat (me_queue_depth e)), dec (unat (me_cpu_id e)), dec (unat (me_flags e))]"

definition meta_csv_row :: "vpipe_meta_entry \<Rightarrow> u8 list" where
  "meta_csv_row e = csv_join (meta_csv_fields e)"

definition meta_csv_header :: string where
  "meta_csv_header = ''seq,src_v4l2_sequence,buffer_index,source_timestamp_ns,qbuf_timestamp_ns,'' @
     ''capture_done_ns,dqbuf_timestamp_ns,bytesused,crc32,algo_id,algo_status,roi_left,roi_top,roi_width,'' @
     ''roi_height,algo_value0,algo_value1,source_backend,buffer_type,queue_depth,cpu_id,flags''"

text \<open>
  The program.  \<open>opened\<close>: what opening the metadata device gives; \<open>gs\<close>: the device states its
  reads observe.  It has no exit status while a read waits.
\<close>

definition meta_drain_main ::
    "'s fs_api \<Rightarrow> bool \<Rightarrow> vpipe_meta_file result \<Rightarrow> vpipe_meta_dev list \<Rightarrow> string list \<Rightarrow> 's \<Rightarrow> (nat \<times> 's) option" where
  "meta_drain_main api dup opened gs argv s =
     (let csv = arg_or 2 argv ''bench/meta.csv'';
          frames = uint_arg 3 argv 600
      in case opened of
           Inl e \<Rightarrow> Some (1, s)
         | Inr f \<Rightarrow>
            (case vpipe_open_csv api dup csv (Some meta_csv_header) s of
               (False, s) \<Rightarrow> Some (1, s)
             | (True, s) \<Rightarrow>
                (let (es, x) = meta_drain_loop (unat frames) gs f;
                     s = fold (\<lambda>e s. snd (os_fwrite api csv (meta_csv_row e) s)) es s
                 in case x of Drained \<Rightarrow> Some (0, s) | Drain_Failed e \<Rightarrow> Some (1, s) | Drain_Waiting \<Rightarrow> None)))"

text \<open>A row determines every field that is printed.\<close>

definition csv_safe :: "u8 list \<Rightarrow> bool" where
  "csv_safe f \<longleftrightarrow> 0x2c \<notin> set f \<and> 10 \<notin> set f"

lemma csv_split:
  assumes "csv_safe f" "csv_safe g" "f @ c # xs = g @ d # ys" "c = 0x2c \<or> c = 10" "d = 0x2c \<or> d = 10"
  shows "f = g \<and> c = d \<and> xs = ys"
proof -
  let ?P = "\<lambda>x. x \<noteq> 0x2c \<and> x \<noteq> (10 :: u8)"
  have tf: "takeWhile ?P (f @ c # xs) = f" if "csv_safe f" "c = 0x2c \<or> c = 10" for f c xs
    using that by (subst takeWhile_append2) (auto simp: csv_safe_def)
  from tf [OF assms(1,4), of xs] tf [OF assms(2,5), of ys] assms(3) show ?thesis by simp
qed

lemma csv_join_cons: "csv_join (f # fs) = f @ (if fs = [] then 10 else 0x2c) # (if fs = [] then [] else csv_join fs)"
  by (cases fs) simp_all

lemma csv_join_inj:
  "length fs = length gs \<Longrightarrow> \<forall>f\<in>set fs \<union> set gs. csv_safe f \<Longrightarrow> csv_join fs = csv_join gs \<Longrightarrow> fs = gs"
proof (induction fs gs rule: list_induct2)
  case (Cons f fs g gs)
  have "f = g \<and> (if fs = [] then [] else csv_join fs) = (if gs = [] then [] else csv_join gs)"
    using csv_split [of f g "if fs = [] then 10 else 0x2c" "if fs = [] then [] else csv_join fs"
        "if gs = [] then 10 else 0x2c" "if gs = [] then [] else csv_join gs"] Cons.prems
    unfolding csv_join_cons by auto
  then show ?case using Cons by (cases "fs = []"; cases "gs = []") auto
qed simp

lemma dec_safe: "csv_safe (dec n)"
  using dec_digits [of n] by (auto simp: csv_safe_def is_digit_def)

lemma dec_int_safe: "csv_safe (dec_int v)"
  using dec_safe [of "nat v"] dec_safe [of "nat (- v)"] by (auto simp: dec_int_def csv_safe_def)

lemma dec_inj: "dec m = dec n \<Longrightarrow> m = n"
  by (metis digits_value_dec)

lemma dec_int_inj: "dec_int v = dec_int u \<Longrightarrow> v = u"
proof -
  have h: "dec n \<noteq> 0x2d # xs" for n xs using dec_digits [of n] by (auto simp: is_digit_def)
  assume "dec_int v = dec_int u"
  then show ?thesis using h [of "nat v"] h [of "nat u"] h [of "nat v", symmetric] h [of "nat u", symmetric]
    by (auto simp: dec_int_def dest!: dec_inj split: if_splits)
qed

lemma csv_row_inj:
  assumes "meta_csv_row d = meta_csv_row e"
  shows "d\<lparr>me_version := v, me_entry_size := n\<rparr> = e\<lparr>me_version := v, me_entry_size := n\<rparr>"
proof -
  have "\<forall>f\<in>set (meta_csv_fields d) \<union> set (meta_csv_fields e). csv_safe f"
    by (auto simp: meta_csv_fields_def dec_safe dec_int_safe)
  then have "meta_csv_fields d = meta_csv_fields e"
    using csv_join_inj [of "meta_csv_fields d" "meta_csv_fields e"] assms by (simp add: meta_csv_row_def meta_csv_fields_def)
  then show ?thesis
    by (cases d; cases e) (auto simp: meta_csv_fields_def dest!: dec_inj dec_int_inj signed_word_eqI simp: word_unat_eq_iff)
qed

end
