(* ===== verification/User_Device.thy ===== *)
theory User_Device
  imports User_Steps User_V4l2 User_Crc User_Tools
begin

text \<open>
  What the programs that stream frames through a device share: their view of the system, the
  small calls they are made of, the laws of the system they rely on, and the effect of every
  call on the mappings and descriptors of the process.
\<close>

unbundle bit_operations_syntax

section \<open>The system of the programs\<close>

definition WIDTH :: nat where "WIDTH = 640"
definition HEIGHT :: nat where "HEIGHT = 480"

text \<open>
  The system: the calls of the helpers, opening a device, the file system of
  the result files, the clock, sleeping, reading one whole metadata entry, and the memory of the
  process, where the driver writes too.
\<close>

record 'w run_sys = "'w sys" +
  run_open :: "string \<Rightarrow> 'w \<Rightarrow> int result \<times> 'w"
  run_fs :: "'w fs_api"
  run_clock :: "'w \<Rightarrow> (u64 \<times> u64) \<times> 'w"
  run_sleep :: "u64 \<Rightarrow> 'w \<Rightarrow> 'w"
  run_read :: "int \<Rightarrow> 'w \<Rightarrow> vpipe_meta_entry option \<times> 'w"
  run_mem :: "'w \<Rightarrow> mem"
  run_put :: "mem \<Rightarrow> 'w \<Rightarrow> 'w"

section \<open>Calls\<close>

definition now_ns :: "('w, 'x) run_sys_scheme \<Rightarrow> 'w \<Rightarrow> u64 \<times> 'w" where
  "now_ns sys w = (case run_clock sys w of (ts, w) \<Rightarrow> (vpipe_now_monotonic_ns ts, w))"

definition set_backend :: "('w, 'x) run_sys_scheme \<Rightarrow> int \<Rightarrow> u32 \<Rightarrow> 'w \<Rightarrow> (bool \<times> 'w) option" where
  "set_backend sys fd backend w = do { (r, w) \<leftarrow> vpipe_xioctl sys fd (IOC_SET_BACKEND backend) w; Some (ok r, w) }"

definition set_ctrl :: "('w, 'x) run_sys_scheme \<Rightarrow> int \<Rightarrow> u32 \<Rightarrow> s32 \<Rightarrow> 'w \<Rightarrow> (bool \<times> 'w) option" where
  "set_ctrl sys fd cid v w = do { (r, w) \<leftarrow> vpipe_xioctl sys fd (VIDIOC_S_CTRL cid v) w; Some (ok r, w) }"

definition stream_on :: "('w, 'x) run_sys_scheme \<Rightarrow> int \<Rightarrow> buf_type \<Rightarrow> 'w \<Rightarrow> (bool \<times> 'w) option" where
  "stream_on sys fd type w = do { (r, w) \<leftarrow> vpipe_xioctl sys fd (VIDIOC_STREAMON type) w; Some (ok r, w) }"

definition stream_off :: "('w, 'x) run_sys_scheme \<Rightarrow> bool \<Rightarrow> int \<Rightarrow> buf_type \<Rightarrow> 'w \<Rightarrow> 'w option" where
  "stream_off sys streaming fd type w =
     (if streaming then do { (r, w) \<leftarrow> vpipe_xioctl sys fd (VIDIOC_STREAMOFF type) w; Some w } else Some w)"

definition request_bufs :: "('w, 'x) run_sys_scheme \<Rightarrow> int \<Rightarrow> u32 \<Rightarrow> buf_type \<Rightarrow> u32 \<Rightarrow> 'w \<Rightarrow> (u32 option \<times> 'w) option" where
  "request_bufs sys fd n type memory w = do {
     (r, w) \<leftarrow> vpipe_xioctl sys fd (VIDIOC_REQBUFS n type memory) w;
     Some (case r of Inr (Reply_Count k) \<Rightarrow> Some k | _ \<Rightarrow> None, w) }"

definition qbuf :: "('w, 'x) run_sys_scheme \<Rightarrow> int \<Rightarrow> v4l2_buffer \<Rightarrow> 'w \<Rightarrow> (bool \<times> 'w) option" where
  "qbuf sys fd b w = do { (r, w) \<leftarrow> vpipe_xioctl sys fd (VIDIOC_QBUF b) w; Some (ok r, w) }"

definition dqbuf :: "('w, 'x) run_sys_scheme \<Rightarrow> int \<Rightarrow> buf_type \<Rightarrow> u32 \<Rightarrow> 'w \<Rightarrow> (v4l2_buffer option \<times> 'w) option" where
  "dqbuf sys fd type memory w = do {
     (r, w) \<leftarrow> vpipe_xioctl sys fd (VIDIOC_DQBUF (zero_buf type memory 0)) w;
     Some (case r of Inr (Reply_Buf b) \<Rightarrow> Some b | _ \<Rightarrow> None, w) }"

text \<open>The address of a mapped buffer of an array.\<close>

definition buf_addr :: "vpipe_mmap_buffer list \<Rightarrow> nat \<Rightarrow> ptr option" where
  "buf_addr bufs i = (if i < length bufs then case mb_addr (bufs ! i) of Addr a \<Rightarrow> Some (a, 0) | _ \<Rightarrow> None else None)"

text \<open>The bytes of a buffer that the checksum reads; none when the driver reports none.\<close>

definition buf_bytes :: "mem \<Rightarrow> vpipe_mmap_buffer list \<Rightarrow> nat \<Rightarrow> nat \<Rightarrow> u8 list option" where
  "buf_bytes m bufs i n = (if n = 0 then Some [] else do { p \<leftarrow> buf_addr bufs i; load_bytes m p n })"

definition close_fd :: "('w, 'x) run_sys_scheme \<Rightarrow> int \<Rightarrow> 'w \<Rightarrow> 'w" where
  "close_fd sys fd w = (if 0 \<le> fd then sys_close sys fd w else w)"

text \<open>
  Calls whose result goes into local variables: opening a device, requesting and mapping a
  queue into an array, and asking for the size of a frame.
\<close>

definition open_into :: "('w, 'x) run_sys_scheme \<Rightarrow> string \<Rightarrow> (int \<Rightarrow> 's \<Rightarrow> 's) \<Rightarrow> ('s, 'w) step" where
  "open_into sys path put = (\<lambda>(s, w). case run_open sys path w of
     (Inl _, w) \<Rightarrow> Some (False, s, w) | (Inr fd, w) \<Rightarrow> Some (True, put fd s, w))"

definition request_into ::
    "('w, 'x) run_sys_scheme \<Rightarrow> u32 \<Rightarrow> buf_type \<Rightarrow> ('s \<Rightarrow> int) \<Rightarrow> ('s \<Rightarrow> vpipe_mmap_buffer list) \<Rightarrow>
     (vpipe_mmap_buffer list \<Rightarrow> 's \<Rightarrow> 's) \<Rightarrow> ('s, 'w) step" where
  "request_into sys n type fd get put = (\<lambda>(s, w). do {
     (k, bufs, w) \<leftarrow> vpipe_request_mmap_buffers sys (fd s) type n (get s) w;
     Some (k \<noteq> None, put bufs s, w) })"

definition sizeimage_into :: "('w, 'x) run_sys_scheme \<Rightarrow> ('s \<Rightarrow> int) \<Rightarrow> buf_type \<Rightarrow> (nat \<Rightarrow> 's \<Rightarrow> 's) \<Rightarrow> ('s, 'w) step" where
  "sizeimage_into sys fd type put = (\<lambda>(s, w). do {
     (n, w) \<leftarrow> vpipe_get_sizeimage sys (fd s) type w;
     Some (True, put n s, w) })"

text \<open>An array of buffers as the programs start with.\<close>

definition no_bufs :: "nat \<Rightarrow> vpipe_mmap_buffer list" where
  "no_bufs n = replicate n \<lparr>mb_addr = Null, mb_length = 0, mb_dmabuf_fd = -1\<rparr>"

text \<open>
  Opening the CSV file; writing a line of it, whose success is not looked at; and the time.
\<close>

definition tool_csv :: "('w, 'x) run_sys_scheme \<Rightarrow> bool \<Rightarrow> string \<Rightarrow> string \<Rightarrow> ('s, 'w) step" where
  "tool_csv sys dup csv header = call (\<lambda>s w. Some (vpipe_open_csv (run_fs sys) dup csv (Some header) w))"

definition tool_row :: "('w, 'x) run_sys_scheme \<Rightarrow> string \<Rightarrow> u8 list \<Rightarrow> ('s, 'w) step" where
  "tool_row sys csv row = call (\<lambda>s w. Some (True, snd (os_fwrite (run_fs sys) csv row w)))"

definition tool_now :: "('w, 'x) run_sys_scheme \<Rightarrow> (u64 \<Rightarrow> ('s, 'w) step) \<Rightarrow> ('s, 'w) step" where
  "tool_now sys = fetch (\<lambda>s w. case now_ns sys w of (t, w) \<Rightarrow> Some (Some t, w))"

text \<open>The number of frames on the command line.\<close>

definition frames_arg :: "nat \<Rightarrow> string list \<Rightarrow> u64 \<Rightarrow> nat option" where
  "frames_arg i argv d = (if length argv > i then
       (case parse_uint_range (Some (bytes_of (argv ! i))) 1 0xFFFFFFFF of None \<Rightarrow> None | Some v \<Rightarrow> Some (unat v))
     else Some (unat d))"

text \<open>The end of a program: its body, the label \<open>cleanup\<close>, and the exit status.\<close>

definition run_program :: "('s, 'w) step \<Rightarrow> ('s \<Rightarrow> 'w \<Rightarrow> 'w option) \<Rightarrow> 's \<Rightarrow> 'w \<Rightarrow> (nat \<times> 'w) option" where
  "run_program body cleanup s w = do {
     (done, s, w) \<leftarrow> body (s, w);
     w \<leftarrow> cleanup s w;
     Some (if done then 0 else 1, w) }"

text \<open>Hexadecimal numbers of eight digits, as the result files have them.\<close>

definition hex_digit :: "nat \<Rightarrow> u8" where
  "hex_digit d = of_nat (if d < 10 then 48 + d else 87 + d)"

definition hex8 :: "u32 \<Rightarrow> u8 list" where
  "hex8 v = 48 # 120 # map (\<lambda>k. hex_digit (unat v div 16 ^ k mod 16)) [7, 6, 5, 4, 3, 2, 1, 0]"

section \<open>The laws of the system\<close>

text \<open>
  Every mapping is backed by at least its length of memory.  The other laws: apart from
  \<open>open\<close>, \<open>close\<close> and the export call nothing changes the descriptors of the process, apart
  from \<open>mmap\<close> and \<open>munmap\<close> nothing its mappings; the driver grants as many buffers as asked
  for when that is at least its minimum, two; a buffer holds a frame; a dequeued OUTPUT
  buffer has the index of a requested one; and a captured frame is no larger than a frame.
\<close>

definition mem_valid :: "('w, 'x) run_sys_scheme \<Rightarrow> ('w \<Rightarrow> (nat \<times> nat) multiset) \<Rightarrow> 'w \<Rightarrow> bool" where
  "mem_valid sys maps w \<longleftrightarrow> (\<forall>a n. (a, n) \<in># maps w \<longrightarrow> (\<exists>D. run_mem sys w a = Some D \<and> n \<le> length D))"

text \<open>A call that changes neither.\<close>

definition quiet :: "('w, 'x) run_sys_scheme \<Rightarrow> ('w \<Rightarrow> (nat \<times> nat) multiset) \<Rightarrow> ('w \<Rightarrow> int multiset) \<Rightarrow> 'w \<Rightarrow> 'w \<Rightarrow> bool" where
  "quiet sys maps fds w w' \<longleftrightarrow> maps w' = maps w \<and> fds w' = fds w \<and> (mem_valid sys maps w \<longrightarrow> mem_valid sys maps w')"

definition exported :: "v4l2_reply result \<Rightarrow> int multiset" where
  "exported r = (case r of Inr (Reply_Fd f) \<Rightarrow> (if 0 \<le> f then {#f#} else {#}) | _ \<Rightarrow> {#})"

definition exports :: "v4l2_req \<Rightarrow> bool" where
  [simp]: "exports req = (case req of IOC_EXPORT_SRC_DMABUF \<Rightarrow> True | VIDIOC_EXPBUF _ _ \<Rightarrow> True | DMA_HEAP_IOCTL_ALLOC _ \<Rightarrow> True | _ \<Rightarrow> False)"

definition device_laws :: "('w, 'x) sys_scheme \<Rightarrow> u32 \<Rightarrow> nat \<Rightarrow> bool" where
  "device_laws sys depth frame \<longleftrightarrow> (\<forall>fd w.
     (\<forall>req f. fst (sys_ioctl sys fd req w) = Inr (Reply_Fd f) \<longrightarrow> exports req) \<and>
     (\<forall>type n k. fst (sys_ioctl sys fd (VIDIOC_REQBUFS n type V4L2_MEMORY_MMAP) w) = Inr (Reply_Count k) \<longrightarrow> 2 \<le> n \<longrightarrow> k = n) \<and>
     (\<forall>b b'. fst (sys_ioctl sys fd (VIDIOC_QUERYBUF b) w) = Inr (Reply_Buf b') \<longrightarrow> frame \<le> unat (ub_length b')) \<and>
     (\<forall>b b'. fst (sys_ioctl sys fd (VIDIOC_DQBUF b) w) = Inr (Reply_Buf b') \<longrightarrow>
        (if ub_type b = V4L2_BUF_TYPE_VIDEO_OUTPUT then ub_index b' < depth else unat (ub_bytesused b') \<le> frame)))"

definition run_laws ::
    "('w, 'x) run_sys_scheme \<Rightarrow> ('w \<Rightarrow> (nat \<times> nat) multiset) \<Rightarrow> ('w \<Rightarrow> int multiset) \<Rightarrow> bool" where
  "run_laws sys maps fds \<longleftrightarrow> (\<forall>w.
     (\<forall>fd req. fds (snd (sys_ioctl sys fd req w)) = fds w + exported (fst (sys_ioctl sys fd req w)) \<and>
        (mem_valid sys maps w \<longrightarrow> mem_valid sys maps (snd (sys_ioctl sys fd req w)))) \<and>
     (\<forall>n fd off. fds (snd (sys_mmap sys n fd off w)) = fds w \<and>
        (mem_valid sys maps w \<longrightarrow> mem_valid sys maps (snd (sys_mmap sys n fd off w)))) \<and>
     (\<forall>a n. fds (sys_munmap sys a n w) = fds w \<and> (mem_valid sys maps w \<longrightarrow> mem_valid sys maps (sys_munmap sys a n w))) \<and>
     (\<forall>fd. fds (sys_close sys fd w) = fds w - {#fd#} \<and> (mem_valid sys maps w \<longrightarrow> mem_valid sys maps (sys_close sys fd w))) \<and>
     (\<forall>p. maps (snd (run_open sys p w)) = maps w \<and> (mem_valid sys maps w \<longrightarrow> mem_valid sys maps (snd (run_open sys p w))) \<and>
        (case fst (run_open sys p w) of Inl _ \<Rightarrow> fds (snd (run_open sys p w)) = fds w
         | Inr fd \<Rightarrow> 0 \<le> fd \<and> fds (snd (run_open sys p w)) = add_mset fd (fds w))) \<and>
     quiet sys maps fds w (snd (run_clock sys w)) \<and>
     (\<forall>t. quiet sys maps fds w (run_sleep sys t w)) \<and>
     (\<forall>fd. quiet sys maps fds w (snd (run_read sys fd w))) \<and>
     (\<forall>p. quiet sys maps fds w (snd (os_mkdir (run_fs sys) p w))) \<and>
     (\<forall>p w'. os_fopen_w (run_fs sys) p w = Some w' \<longrightarrow> quiet sys maps fds w w') \<and>
     (\<forall>p bs. quiet sys maps fds w (snd (os_fwrite (run_fs sys) p bs w))) \<and>
     (\<forall>m. maps (run_put sys m w) = maps w \<and> fds (run_put sys m w) = fds w \<and> run_mem sys (run_put sys m w) = m))"

lemma quiet_refl [simp]: "quiet sys maps fds w w" by (simp add: quiet_def)

lemma quiet_trans: "quiet sys maps fds u v \<Longrightarrow> quiet sys maps fds v w \<Longrightarrow> quiet sys maps fds u w"
  by (simp add: quiet_def)

lemma run_laws_ioctl:
  "run_laws sys maps fds \<Longrightarrow> fds (snd (sys_ioctl sys fd req w)) = fds w + exported (fst (sys_ioctl sys fd req w))"
  "run_laws sys maps fds \<Longrightarrow> mem_valid sys maps w \<Longrightarrow> mem_valid sys maps (snd (sys_ioctl sys fd req w))"
  unfolding run_laws_def by blast+

lemma run_laws_mmap:
  "run_laws sys maps fds \<Longrightarrow> fds (snd (sys_mmap sys n fd off w)) = fds w"
  "run_laws sys maps fds \<Longrightarrow> mem_valid sys maps w \<Longrightarrow> mem_valid sys maps (snd (sys_mmap sys n fd off w))"
  "run_laws sys maps fds \<Longrightarrow> fds (sys_munmap sys a n w) = fds w"
  "run_laws sys maps fds \<Longrightarrow> fds (sys_close sys f w) = fds w - {#f#}"
  "run_laws sys maps fds \<Longrightarrow> mem_valid sys maps w \<Longrightarrow> mem_valid sys maps (sys_munmap sys a n w)"
  "run_laws sys maps fds \<Longrightarrow> mem_valid sys maps w \<Longrightarrow> mem_valid sys maps (sys_close sys f w)"
  unfolding run_laws_def by blast+

lemma run_laws_open:
  assumes "run_laws sys maps fds"
  shows "maps (snd (run_open sys p w)) = maps w"
    "mem_valid sys maps w \<Longrightarrow> mem_valid sys maps (snd (run_open sys p w))"
    "case fst (run_open sys p w) of Inl _ \<Rightarrow> fds (snd (run_open sys p w)) = fds w
       | Inr fd \<Rightarrow> 0 \<le> fd \<and> fds (snd (run_open sys p w)) = add_mset fd (fds w)"
  using assms unfolding run_laws_def by blast+

lemma run_laws_quiet:
  assumes "run_laws sys maps fds"
  shows "quiet sys maps fds w (snd (run_clock sys w))" "quiet sys maps fds w (run_sleep sys t w)"
    "quiet sys maps fds w (snd (run_read sys fd w))" "quiet sys maps fds w (snd (os_mkdir (run_fs sys) p w))"
    "os_fopen_w (run_fs sys) p w = Some w' \<Longrightarrow> quiet sys maps fds w w'"
    "quiet sys maps fds w (snd (os_fwrite (run_fs sys) p bs w))"
  using assms unfolding run_laws_def by blast+

lemma run_laws_put:
  assumes "run_laws sys maps fds"
  shows "maps (run_put sys m w) = maps w" "fds (run_put sys m w) = fds w" "run_mem sys (run_put sys m w) = m"
  using assms unfolding run_laws_def by blast+

lemma put_quiet:
  assumes "run_laws sys maps fds" "run_mem sys w a = Some D" "length D' = length D"
  shows "quiet sys maps fds w (run_put sys ((run_mem sys w)(a \<mapsto> D')) w)"
  using assms(2,3) by (fastforce simp: quiet_def mem_valid_def run_laws_put [OF assms(1)])

lemma now_quiet: "run_laws sys maps fds \<Longrightarrow> now_ns sys w = (t, w') \<Longrightarrow> quiet sys maps fds w w'"
  using run_laws_quiet(1) [of sys maps fds w] by (cases "run_clock sys w") (simp add: now_ns_def)

lemma mkdir_walk_quiet:
  "run_laws sys maps fds \<Longrightarrow> quiet sys maps fds w (snd (mkdir_walk (run_fs sys) path ps w))"
proof (induction ps arbitrary: w)
  case (Cons p ps)
  have q: "quiet sys maps fds w (snd (os_mkdir (run_fs sys) q w))" for q by (rule run_laws_quiet [OF Cons.prems])
  show ?case
    using q quiet_trans [OF q Cons.IH [OF Cons.prems]] Cons.IH [OF Cons.prems]
    by (auto split: prod.splits if_splits) (metis snd_conv)+
qed simp

lemma parent_dir_quiet:
  assumes laws: "run_laws sys maps fds"
  shows "quiet sys maps fds w (snd (vpipe_ensure_parent_dir (run_fs sys) dup path w))"
proof (cases "\<not> dup \<or> strrchr path (CHR ''/'') = None")
  case False
  then obtain slash where s: "dup" "strrchr path (CHR ''/'') = Some slash" by auto
  let ?dir = "take slash path"
  obtain b u where u: "mkdir_walk (run_fs sys) ?dir [1..<length ?dir] w = (b, u)" by fastforce
  then have q: "quiet sys maps fds w u" using mkdir_walk_quiet [OF laws, of w ?dir "[1..<length ?dir]"] by simp
  obtain r u' where u': "os_mkdir (run_fs sys) ?dir u = (r, u')" by fastforce
  then have "quiet sys maps fds u u'" using run_laws_quiet(4) [OF laws, of u ?dir] by simp
  then have "quiet sys maps fds w u'" by (rule quiet_trans [OF q])
  then show ?thesis using s u u' q unfolding vpipe_ensure_parent_dir_def Let_def by (simp split: bool.split)
qed (auto simp: vpipe_ensure_parent_dir_def)

lemma open_csv_quiet:
  assumes laws: "run_laws sys maps fds" and run: "vpipe_open_csv (run_fs sys) dup path header w = (opened, w')"
  shows "quiet sys maps fds w w'"
proof -
  obtain made v where v: "vpipe_ensure_parent_dir (run_fs sys) dup path w = (made, v)" by fastforce
  have "quiet sys maps fds w v" using parent_dir_quiet [OF laws, of w dup path] v by simp
  moreover have "quiet sys maps fds v w'"
  proof (cases made)
    case False
    then show ?thesis using run v by (simp add: vpipe_open_csv_def)
  next
    case True
    have op: "quiet sys maps fds v u" if "os_fopen_w (run_fs sys) path v = Some u" for u
      by (rule run_laws_quiet(5) [OF laws that])
    have wr: "quiet sys maps fds u (snd (os_fwrite (run_fs sys) path bs u))" for bs u by (rule run_laws_quiet(6) [OF laws])
    show ?thesis
    proof (cases "os_fopen_w (run_fs sys) path v")
      case None
      then show ?thesis using run v True by (simp add: vpipe_open_csv_def)
    next
      case (Some u)
      then show ?thesis
        using run v True op [OF Some] quiet_trans [OF op [OF Some] wr] by (cases header) (auto simp: vpipe_open_csv_def)
    qed
  qed
  ultimately show ?thesis by (rule quiet_trans)
qed

lemma interrupted_quiet:
  "sys_laws sys maps \<Longrightarrow> run_laws sys maps fds \<Longrightarrow> interrupted sys fd req n w = Some w' \<Longrightarrow> quiet sys maps fds w w'"
proof (induction n arbitrary: w)
  case (Suc n)
  obtain r w1 where io: "sys_ioctl sys fd req w = (r, w1)" by fastforce
  then have r: "r = Inl EINTR" "interrupted sys fd req n w1 = Some w'" using Suc.prems(3) by (auto split: if_splits)
  have "maps (snd (sys_ioctl sys fd req w)) = maps w" using Suc.prems(1) unfolding sys_laws_def by blast
  then have "quiet sys maps fds w w1"
    using run_laws_ioctl [OF Suc.prems(2), where fd = fd and req = req and w = w] io r(1) by (simp add: quiet_def exported_def)
  then show ?case using Suc.IH [OF Suc.prems(1,2) r(2)] by (rule quiet_trans)
qed simp

lemma xioctl_run:
  assumes "sys_laws sys maps" "run_laws sys maps fds"
  obtains r w' v where "vpipe_xioctl sys fd req w = Some (r, w')" "sys_ioctl sys fd req v = (r, w')"
    "maps w' = maps w" "fds w' = fds w + exported r" "mem_valid sys maps w \<longrightarrow> mem_valid sys maps w'"
proof -
  obtain r w' where x: "vpipe_xioctl sys fd req w = Some (r, w')" "maps w' = maps w" by (rule xioctl_maps [OF assms(1)])
  then obtain n v where v: "interrupted sys fd req n w = Some v" "sys_ioctl sys fd req v = (r, w')"
    using xioctl_only [OF x(1)] by auto
  note q = interrupted_quiet [OF assms v(1)]
  have "fds w' = fds w + exported r" "mem_valid sys maps w \<longrightarrow> mem_valid sys maps w'"
    using q v(2) run_laws_ioctl [OF assms(2), where fd = fd and req = req and w = v] by (auto simp: quiet_def)
  with that [OF x(1) v(2) x(2)] show ?thesis by blast
qed

lemma exported_none: "device_laws sys depth frame \<Longrightarrow> sys_ioctl sys fd req v = (r, w') \<Longrightarrow> \<not> exports req \<Longrightarrow> exported r = {#}"
  unfolding device_laws_def exported_def by (auto split: sum.splits v4l2_reply.splits) (metis fst_conv)

text \<open>Every request but the export is quiet.\<close>

lemma xioctl_quiet:
  assumes "sys_laws sys maps" "run_laws sys maps fds" "device_laws sys depth frame" "\<not> exports req"
  obtains r w' v where "vpipe_xioctl sys fd req w = Some (r, w')" "sys_ioctl sys fd req v = (r, w')" "quiet sys maps fds w w'"
proof -
  obtain r w' v where *: "vpipe_xioctl sys fd req w = Some (r, w')" "sys_ioctl sys fd req v = (r, w')"
    "maps w' = maps w" "fds w' = fds w + exported r" "mem_valid sys maps w \<longrightarrow> mem_valid sys maps w'"
    by (rule xioctl_run [OF assms(1,2), of fd req w]) blast
  then have "quiet sys maps fds w w'" using exported_none [OF assms(3) *(2) assms(4)] by (simp add: quiet_def)
  then show ?thesis using that [OF *(1,2)] by blast
qed

definition tool_system ::
    "('w, 'x) run_sys_scheme \<Rightarrow> ('w \<Rightarrow> (nat \<times> nat) multiset) \<Rightarrow> ('w \<Rightarrow> int multiset) \<Rightarrow> u32 \<Rightarrow> nat \<Rightarrow> bool" where
  "tool_system sys maps fds depth frame \<longleftrightarrow> sys_laws sys maps \<and> run_laws sys maps fds \<and> device_laws sys depth frame"

lemma system_xioctl:
  assumes "tool_system sys maps fds depth frame" "\<not> exports req"
  shows "\<exists>r w' v. vpipe_xioctl sys fd req w = Some (r, w') \<and> sys_ioctl sys fd req v = (r, w') \<and> quiet sys maps fds w w'"
proof -
  have "sys_laws sys maps" "run_laws sys maps fds" "device_laws sys depth frame" using assms(1) by (simp_all add: tool_system_def)
  from xioctl_quiet [OF this assms(2), of fd w] show ?thesis by metis
qed

lemma system_calls:
  assumes sys: "tool_system sys maps fds depth frame"
  shows set_format_quiet: "\<exists>go w'. vpipe_set_format sys fd type width height pf w = Some (go, w') \<and> quiet sys maps fds w w'"
    and get_sizeimage_quiet: "\<exists>n w'. vpipe_get_sizeimage sys fd type w = Some (n, w') \<and> quiet sys maps fds w w'"
    and set_backend_quiet: "\<exists>go w'. set_backend sys fd backend w = Some (go, w') \<and> quiet sys maps fds w w'"
    and set_ctrl_quiet: "\<exists>go w'. set_ctrl sys fd cid v w = Some (go, w') \<and> quiet sys maps fds w w'"
    and queue_mmap_quiet: "\<exists>go w'. vpipe_queue_mmap_buffer sys fd type memory index dfd w = Some (go, w') \<and> quiet sys maps fds w w'"
    and qbuf_quiet: "\<exists>go w'. qbuf sys fd b w = Some (go, w') \<and> quiet sys maps fds w w'"
    and request_bufs_quiet: "\<exists>k w'. request_bufs sys fd n type memory w = Some (k, w') \<and> quiet sys maps fds w w'"
    and stream_on_quiet: "\<exists>go w'. stream_on sys fd type w = Some (go, w') \<and> quiet sys maps fds w w'"
    and stream_off_quiet: "\<exists>w'. stream_off sys streaming fd type w = Some w' \<and> quiet sys maps fds w w'"
proof -
  note x = system_xioctl [OF sys, of _ fd w]
  show "\<exists>go w'. vpipe_set_format sys fd type width height pf w = Some (go, w') \<and> quiet sys maps fds w w'"
    unfolding vpipe_set_format_def Let_def
    using x [of "VIDIOC_S_FMT type (zero_pix\<lparr>pf_width := width, pf_height := height, pf_pixelformat := pf, pf_field := V4L2_FIELD_NONE\<rparr>)"]
    by fastforce
  show "\<exists>n w'. vpipe_get_sizeimage sys fd type w = Some (n, w') \<and> quiet sys maps fds w w'"
    unfolding vpipe_get_sizeimage_def using x [of "VIDIOC_G_FMT type"] by fastforce
  show "\<exists>go w'. set_backend sys fd backend w = Some (go, w') \<and> quiet sys maps fds w w'"
    unfolding set_backend_def using x [of "IOC_SET_BACKEND backend"] by fastforce
  show "\<exists>go w'. set_ctrl sys fd cid v w = Some (go, w') \<and> quiet sys maps fds w w'"
    unfolding set_ctrl_def using x [of "VIDIOC_S_CTRL cid v"] by fastforce
  show "\<exists>go w'. vpipe_queue_mmap_buffer sys fd type memory index dfd w = Some (go, w') \<and> quiet sys maps fds w w'"
    unfolding vpipe_queue_mmap_buffer_def Let_def
    using x [of "VIDIOC_QBUF (if memory = V4L2_MEMORY_DMABUF then (zero_buf type memory index)\<lparr>ub_fd := dfd\<rparr> else zero_buf type memory index)"]
    by fastforce
  show "\<exists>go w'. qbuf sys fd b w = Some (go, w') \<and> quiet sys maps fds w w'"
    unfolding qbuf_def using x [of "VIDIOC_QBUF b"] by fastforce
  show "\<exists>k w'. request_bufs sys fd n type memory w = Some (k, w') \<and> quiet sys maps fds w w'"
    unfolding request_bufs_def using x [of "VIDIOC_REQBUFS n type memory"] by fastforce
  show "\<exists>go w'. stream_on sys fd type w = Some (go, w') \<and> quiet sys maps fds w w'"
    unfolding stream_on_def using x [of "VIDIOC_STREAMON type"] by fastforce
  show "\<exists>w'. stream_off sys streaming fd type w = Some w' \<and> quiet sys maps fds w w'"
    unfolding stream_off_def using x [of "VIDIOC_STREAMOFF type"] by fastforce
qed

lemma dqbuf_quiet:
  assumes sys: "tool_system sys maps fds depth frame"
  shows "\<exists>b w'. dqbuf sys fd type memory w = Some (b, w') \<and> quiet sys maps fds w w' \<and>
    (case b of None \<Rightarrow> True
     | Some b \<Rightarrow> if type = V4L2_BUF_TYPE_VIDEO_OUTPUT then ub_index b < depth else unat (ub_bytesused b) \<le> frame)"
proof -
  obtain r w' v where x: "vpipe_xioctl sys fd (VIDIOC_DQBUF (zero_buf type memory 0)) w = Some (r, w')"
    "sys_ioctl sys fd (VIDIOC_DQBUF (zero_buf type memory 0)) v = (r, w')" "quiet sys maps fds w w'"
    using system_xioctl [OF sys, of "VIDIOC_DQBUF (zero_buf type memory 0)" fd w] by auto
  have law: "\<forall>b b'. fst (sys_ioctl sys fd (VIDIOC_DQBUF b) v) = Inr (Reply_Buf b') \<longrightarrow>
        (if ub_type b = V4L2_BUF_TYPE_VIDEO_OUTPUT then ub_index b' < depth else unat (ub_bytesused b') \<le> frame)"
    using sys unfolding tool_system_def device_laws_def by blast
  have "if type = V4L2_BUF_TYPE_VIDEO_OUTPUT then ub_index b < depth else unat (ub_bytesused b) \<le> frame"
    if "r = Inr (Reply_Buf b)" for b
    using law [rule_format, of "zero_buf type memory 0" b] x(2) that by (simp add: zero_buf_def)
  with x(1,3) show ?thesis unfolding dqbuf_def by (auto split: sum.split v4l2_reply.split)
qed

section \<open>Buffers\<close>

text \<open>The descriptors that the local variables own, and the state of a buffer array.\<close>

definition owned :: "int \<Rightarrow> int multiset" where
  "owned fd = (if 0 \<le> fd then {#fd#} else {#})"

definition bufs_ok :: "nat \<Rightarrow> nat \<Rightarrow> nat \<Rightarrow> vpipe_mmap_buffer list \<Rightarrow> bool" where
  "bufs_ok N frame n bufs \<longleftrightarrow> length bufs = N \<and> (\<forall>i<N. n \<le> i \<longrightarrow> unmapped_buffer (bufs ! i)) \<and>
     (\<forall>i<n. mb_dmabuf_fd (bufs ! i) = -1 \<and> (\<not> unmapped_buffer (bufs ! i) \<longrightarrow> frame \<le> mb_length (bufs ! i)))"

definition bufs_ready :: "nat \<Rightarrow> vpipe_mmap_buffer list \<Rightarrow> bool" where
  "bufs_ready n bufs \<longleftrightarrow> (\<forall>i<n. \<not> unmapped_buffer (bufs ! i))"

text \<open>Buffers inside the array are backed by memory that holds a frame.\<close>

lemma mapped_member:
  "i < length bufs \<Longrightarrow> mb_addr (bufs ! i) = Addr a \<Longrightarrow> (a, mb_length (bufs ! i)) \<in># mapped bufs"
proof (induction bufs arbitrary: i)
  case (Cons b bufs)
  then show ?case by (cases i) (auto simp: mapped_def)
qed simp

lemma mapped_append: "mapped (xs @ ys) = mapped xs + mapped ys"
  by (simp add: mapped_def)

lemma mapped_none: "\<forall>b\<in>set bufs. unmapped_buffer b \<Longrightarrow> mapped bufs = {#}"
  by (induction bufs) (auto simp: mapped_def unmapped_buffer_def split: uaddr.splits)

lemma unmap_bufs:
  assumes "sys_laws sys maps" "run_laws sys maps fds" "bufs_ok N frame n bufs" "n \<le> N"
  shows "\<exists>w'. vpipe_unmap_buffers sys bufs n w = Some w' \<and> maps w' = maps w - mapped bufs \<and> fds w' = fds w \<and>
    (mem_valid sys maps w \<longrightarrow> mem_valid sys maps w')"
proof -
  have "\<exists>w'. foreach (\<lambda>i w. if length bufs \<le> i then None else Some (unmap_one sys (bufs ! i) w)) [0..<n] w = Some w' \<and>
      fds w' = fds w \<and> (mem_valid sys maps w \<longrightarrow> mem_valid sys maps w')"
  proof (rule foreach_upt [where I = "\<lambda>k v. fds v = fds w \<and> (mem_valid sys maps w \<longrightarrow> mem_valid sys maps v)"])
    fix k v assume "k < n" "fds v = fds w \<and> (mem_valid sys maps w \<longrightarrow> mem_valid sys maps v)"
    moreover have "fds (unmap_one sys (bufs ! k) v) = fds v" "mem_valid sys maps v \<longrightarrow> mem_valid sys maps (unmap_one sys (bufs ! k) v)"
      using assms(3) \<open>k < n\<close> by (auto simp: unmap_one_def bufs_ok_def Let_def run_laws_mmap [OF assms(2)] split: uaddr.split)
    ultimately show "\<exists>t'. (if length bufs \<le> k then None else Some (unmap_one sys (bufs ! k) v)) = Some t' \<and>
        fds t' = fds w \<and> (mem_valid sys maps w \<longrightarrow> mem_valid sys maps t')"
      using assms(3,4) by (simp add: bufs_ok_def)
  qed simp_all
  moreover have "mapped (take n bufs) = mapped bufs"
  proof -
    have "mapped (drop n bufs) = {#}"
    proof -
      have "\<forall>b\<in>set (drop n bufs). unmapped_buffer b"
        using assms(3) by (auto simp: bufs_ok_def in_set_conv_nth)
      then show ?thesis by (rule mapped_none)
    qed
    then show ?thesis by (metis append_take_drop_id mapped_append add.right_neutral)
  qed
  ultimately show ?thesis
    using unmap_buffers_maps [OF assms(1), of n bufs w] assms(3,4) by (auto simp: vpipe_unmap_buffers_def bufs_ok_def)
qed

text \<open>Mapping a queue, from an array without mappings.\<close>

lemma map_buffers_run:
  assumes sys: "tool_system sys maps fds depth frame"
  shows "(\<forall>i\<in>set is. i < length bufs) \<Longrightarrow>
    (\<forall>i<length bufs. \<not> unmapped_buffer (bufs ! i) \<longrightarrow> frame \<le> mb_length (bufs ! i)) \<Longrightarrow>
    map_buffers sys fd type is bufs w = Some (dn, bufs', w') \<Longrightarrow>
    fds w' = fds w \<and> (mem_valid sys maps w \<longrightarrow> mem_valid sys maps w') \<and>
    (\<forall>i<length bufs. \<not> unmapped_buffer (bufs' ! i) \<longrightarrow> frame \<le> mb_length (bufs' ! i))"
proof (induction "is" arbitrary: bufs w)
  case (Cons i "is")
  let ?q = "VIDIOC_QUERYBUF (zero_buf type V4L2_MEMORY_MMAP (of_nat i))"
  obtain r w1 v where x: "vpipe_xioctl sys fd ?q w = Some (r, w1)" "sys_ioctl sys fd ?q v = (r, w1)" "quiet sys maps fds w w1"
    using system_xioctl [OF sys, of ?q fd w] by auto
  show ?case
  proof (cases "\<exists>b. r = Inr (Reply_Buf b)")
    case False
    then have "(dn, bufs', w') = (False, bufs, w1)"
      using x(1) Cons.prems(3) by (auto split: sum.splits v4l2_reply.splits)
    then show ?thesis using x(3) Cons.prems(2) by (simp add: quiet_def)
  next
    case True
    then obtain b where r: "r = Inr (Reply_Buf b)" by blast
    have len: "frame \<le> unat (ub_length b)"
      using sys x(2) r unfolding tool_system_def device_laws_def by (metis fst_conv)
    obtain addr w2 where mm: "sys_mmap sys (unat (ub_length b)) fd (unat (ub_offset b)) w1 = (addr, w2)" by fastforce
    have laws: "run_laws sys maps fds" using sys by (simp add: tool_system_def)
    have w2: "fds w2 = fds w" "mem_valid sys maps w \<Longrightarrow> mem_valid sys maps w2"
      using run_laws_mmap(1,2) [OF laws, where n = "unat (ub_length b)" and fd = fd and off = "unat (ub_offset b)" and w = w1]  mm x(3)
      by (auto simp: quiet_def)
    define e where "e = \<lparr>mb_addr = (case addr of None \<Rightarrow> Map_Failed | Some a \<Rightarrow> Addr a), mb_length = unat (ub_length b), mb_dmabuf_fd = -1\<rparr>"
    have i: "i < length bufs" using Cons.prems(1) by simp
    have bufs: "\<forall>j<length (bufs[i := e]). \<not> unmapped_buffer (bufs[i := e] ! j) \<longrightarrow> frame \<le> mb_length (bufs[i := e] ! j)"
    proof (intro allI impI)
      fix j assume "j < length (bufs[i := e])" "\<not> unmapped_buffer (bufs[i := e] ! j)"
      then show "frame \<le> mb_length (bufs[i := e] ! j)" using Cons.prems(2) len by (cases "i = j") (auto simp: e_def)
    qed
    show ?thesis
    proof (cases addr)
      case None
      then have "(dn, bufs', w') = (False, bufs[i := e], w2)" using x(1) r mm i Cons.prems(3) by (simp add: e_def)
      then show ?thesis using w2 bufs by simp
    next
      case (Some a)
      then have "map_buffers sys fd type is (bufs[i := e]) w2 = Some (dn, bufs', w')"
        using x(1) r mm i Cons.prems(3) by (simp add: e_def)
      from Cons.IH [OF _ bufs this] show ?thesis using Cons.prems(1) w2 by simp
    qed
  qed
qed simp

lemma request_any:
  assumes sys: "tool_system sys maps fds depth frame" and n: "2 \<le> depth" "unat depth \<le> length bufs"
    and fresh: "\<forall>i<length bufs. unmapped_buffer (bufs ! i)" and valid: "mem_valid sys maps w"
  shows "\<exists>res bufs' w'. vpipe_request_mmap_buffers sys fd type depth bufs w = Some (res, bufs', w') \<and> length bufs' = length bufs \<and>
    (\<forall>i<length bufs. unat depth \<le> i \<longrightarrow> bufs' ! i = bufs ! i) \<and> (\<forall>i<unat depth. bufs' ! i = bufs ! i \<or> mb_dmabuf_fd (bufs' ! i) = -1) \<and>
    (\<forall>i<length bufs. \<not> unmapped_buffer (bufs' ! i) \<longrightarrow> frame \<le> mb_length (bufs' ! i)) \<and>
    maps w' = maps w + mapped bufs' \<and> fds w' = fds w \<and> mem_valid sys maps w' \<and> (res \<noteq> None \<longrightarrow> bufs_ready (unat depth) bufs')"
proof -
  let ?q = "VIDIOC_REQBUFS depth type V4L2_MEMORY_MMAP"
  have laws: "sys_laws sys maps" using sys by (simp add: tool_system_def)
  have none: "mapped bufs = {#}" using fresh by (intro mapped_none) (auto simp: in_set_conv_nth)
  obtain r w1 v where x: "vpipe_xioctl sys fd ?q w = Some (r, w1)" "sys_ioctl sys fd ?q v = (r, w1)" "quiet sys maps fds w w1"
    using system_xioctl [OF sys, of ?q fd w] by auto
  show ?thesis
  proof (cases "\<exists>k. r = Inr (Reply_Count k)")
    case False
    then have "vpipe_request_mmap_buffers sys fd type depth bufs w = Some (None, bufs, w1)"
      using x(1) by (auto simp: vpipe_request_mmap_buffers_def split: sum.splits v4l2_reply.splits)
    then show ?thesis using x(3) fresh none valid by (simp add: quiet_def)
  next
    case True
    then have r: "r = Inr (Reply_Count depth)"
      using sys x(2) n(1) unfolding tool_system_def device_laws_def by (metis fst_conv)
    have idx: "\<forall>i\<in>set [0..<unat depth]. i < length bufs \<and> unmapped_buffer (bufs ! i)" using fresh n(2) by simp
    from map_buffers_balanced [OF laws this distinct_upt, of fd type w1] obtain dn bufs' w2 where
      m: "map_buffers sys fd type [0..<unat depth] bufs w1 = Some (dn, bufs', w2)" "length bufs' = length bufs"
      "maps w2 + mapped bufs = maps w1 + mapped bufs'" "\<forall>i. i \<notin> set [0..<unat depth] \<longrightarrow> bufs' ! i = bufs ! i"
      "\<forall>i\<in>set [0..<unat depth]. bufs' ! i = bufs ! i \<or> mb_dmabuf_fd (bufs' ! i) = -1"
      "dn \<longrightarrow> (\<forall>i\<in>set [0..<unat depth]. \<not> unmapped_buffer (bufs' ! i))" by blast
    have run: "fds w2 = fds w1" "mem_valid sys maps w2"
      "\<forall>i<length bufs. \<not> unmapped_buffer (bufs' ! i) \<longrightarrow> frame \<le> mb_length (bufs' ! i)"
      using map_buffers_run [OF sys _ _ m(1)] idx fresh valid x(3) by (auto simp: quiet_def)
    have "vpipe_request_mmap_buffers sys fd type depth bufs w = Some (if dn then Some depth else None, bufs', w2)"
      using x(1) r m(1) by (simp add: vpipe_request_mmap_buffers_def)
    then show ?thesis using m run x(3) none by (auto simp: quiet_def bufs_ready_def)
  qed
qed

lemma request_run:
  assumes sys: "tool_system sys maps fds depth frame" and n: "2 \<le> depth" "unat depth \<le> N"
    and bufs: "bufs_ok N frame (unat depth) bufs" "mapped bufs = {#}" and valid: "mem_valid sys maps w"
  shows "\<exists>res bufs' w'. vpipe_request_mmap_buffers sys fd type depth bufs w = Some (res, bufs', w') \<and>
    bufs_ok N frame (unat depth) bufs' \<and> maps w' = maps w + mapped bufs' \<and> fds w' = fds w \<and> mem_valid sys maps w' \<and>
    (res \<noteq> None \<longrightarrow> bufs_ready (unat depth) bufs')"
proof -
  have len: "length bufs = N" using bufs(1) by (simp add: bufs_ok_def)
  have fresh: "\<forall>i<length bufs. unmapped_buffer (bufs ! i)"
    using bufs(2) mapped_member [of _ bufs] by (auto simp: unmapped_buffer_def split: uaddr.split)
  obtain res bufs' w' where r: "vpipe_request_mmap_buffers sys fd type depth bufs w = Some (res, bufs', w')" "length bufs' = length bufs"
    "\<forall>i<length bufs. unat depth \<le> i \<longrightarrow> bufs' ! i = bufs ! i" "\<forall>i<unat depth. bufs' ! i = bufs ! i \<or> mb_dmabuf_fd (bufs' ! i) = -1"
    "\<forall>i<length bufs. \<not> unmapped_buffer (bufs' ! i) \<longrightarrow> frame \<le> mb_length (bufs' ! i)"
    "maps w' = maps w + mapped bufs'" "fds w' = fds w" "mem_valid sys maps w'" "res \<noteq> None \<longrightarrow> bufs_ready (unat depth) bufs'"
    using request_any [OF sys n(1) _ fresh valid, of fd type] n(2) len by auto
  have "bufs_ok N frame (unat depth) bufs'" unfolding bufs_ok_def
  proof (intro conjI allI impI)
    fix i assume "i < unat depth"
    then show "mb_dmabuf_fd (bufs' ! i) = -1" using r(4) bufs(1) by (auto simp: bufs_ok_def)
    show "frame \<le> mb_length (bufs' ! i)" if "\<not> unmapped_buffer (bufs' ! i)" using r(5) that \<open>i < unat depth\<close> n(2) len by simp
  qed (use r(2,3) fresh len in auto)
  with r show ?thesis by blast
qed

text \<open>An array of zeros, when the request succeeds.\<close>

lemma request_ready:
  assumes sys: "tool_system sys maps fds depth frame" and n: "2 \<le> depth" "unat depth = length bufs"
    and fresh: "\<forall>i<length bufs. unmapped_buffer (bufs ! i)" and valid: "mem_valid sys maps w"
  shows "\<exists>res bufs' w'. vpipe_request_mmap_buffers sys fd type depth bufs w = Some (res, bufs', w') \<and>
    maps w' = maps w + mapped bufs' \<and> fds w' = fds w \<and> mem_valid sys maps w' \<and>
    (res \<noteq> None \<longrightarrow> bufs_ok (length bufs) frame (length bufs) bufs' \<and> bufs_ready (length bufs) bufs')"
proof -
  obtain res bufs' w' where r: "vpipe_request_mmap_buffers sys fd type depth bufs w = Some (res, bufs', w')" "length bufs' = length bufs"
    "\<forall>i<unat depth. bufs' ! i = bufs ! i \<or> mb_dmabuf_fd (bufs' ! i) = -1"
    "\<forall>i<length bufs. \<not> unmapped_buffer (bufs' ! i) \<longrightarrow> frame \<le> mb_length (bufs' ! i)"
    "maps w' = maps w + mapped bufs'" "fds w' = fds w" "mem_valid sys maps w'" "res \<noteq> None \<longrightarrow> bufs_ready (unat depth) bufs'"
    using request_any [OF sys n(1) _ fresh valid, of fd type] n(2) by auto
  have "bufs_ok (length bufs) frame (length bufs) bufs'" if "res \<noteq> None"
  proof -
    have "mb_dmabuf_fd (bufs' ! i) = -1" if "i < length bufs" for i
      using r(3,8) \<open>res \<noteq> None\<close> fresh n(2) that unfolding bufs_ready_def by (metis (no_types))
    then show ?thesis using r(2,4) by (auto simp: bufs_ok_def)
  qed
  with r n(2) show ?thesis by auto
qed

section \<open>A concrete system\<close>

text \<open>A device that grants every request and always has a frame, and a process to run on.\<close>

record run_world =
  rw_next :: nat
  rw_maps :: "(nat \<times> nat) multiset"
  rw_fds :: "int multiset"
  rw_mem :: mem
  rw_time :: u64

definition demo_ioctl :: "int \<Rightarrow> v4l2_req \<Rightarrow> run_world \<Rightarrow> v4l2_reply result \<times> run_world" where
  "demo_ioctl fd req w = (case req of
       VIDIOC_REQBUFS n t m \<Rightarrow> (Inr (Reply_Count n), w)
     | VIDIOC_QUERYBUF b \<Rightarrow> (Inr (Reply_Buf (b\<lparr>ub_length := 307200\<rparr>)), w)
     | VIDIOC_DQBUF b \<Rightarrow> (Inr (Reply_Buf (b\<lparr>ub_index := 0, ub_bytesused := 307200\<rparr>)), w)
     | VIDIOC_G_FMT t \<Rightarrow> (Inr (Reply_Fmt (zero_pix\<lparr>pf_bytesperline := 640, pf_sizeimage := 307200\<rparr>)), w)
     | IOC_EXPORT_SRC_DMABUF \<Rightarrow> (Inr (Reply_Fd 7), w\<lparr>rw_fds := add_mset 7 (rw_fds w)\<rparr>)
     | DMA_HEAP_IOCTL_ALLOC n \<Rightarrow> (Inr (Reply_Fd 8), w\<lparr>rw_fds := add_mset 8 (rw_fds w)\<rparr>)
     | _ \<Rightarrow> (Inr Reply_Done, w))"

definition demo_mmap :: "nat \<Rightarrow> int \<Rightarrow> nat \<Rightarrow> run_world \<Rightarrow> nat option \<times> run_world" where
  "demo_mmap n fd off w =
     (let a = rw_next w; D = (case rw_mem w a of None \<Rightarrow> [] | Some D \<Rightarrow> D) @ replicate n 0
      in (Some a, w\<lparr>rw_next := a + 1, rw_maps := add_mset (a, n) (rw_maps w), rw_mem := (rw_mem w)(a \<mapsto> D)\<rparr>))"

definition demo_tool_sys :: "'x \<Rightarrow> (run_world, 'x) run_sys_scheme" where
  "demo_tool_sys x = \<lparr>sys_ioctl = demo_ioctl, sys_mmap = demo_mmap, sys_munmap = (\<lambda>a n w. w\<lparr>rw_maps := rw_maps w - {#(a, n)#}\<rparr>),
     sys_close = (\<lambda>fd w. w\<lparr>rw_fds := rw_fds w - {#fd#}\<rparr>), run_open = (\<lambda>p w. (Inr 3, w\<lparr>rw_fds := add_mset 3 (rw_fds w)\<rparr>)),
     run_fs = \<lparr>os_mkdir = (\<lambda>p w. (Inr (), w)), os_fopen_w = (\<lambda>p w. Some w), os_fwrite = (\<lambda>p bs w. (length bs, w))\<rparr>,
     run_clock = (\<lambda>w. ((0, rw_time w), w\<lparr>rw_time := rw_time w + 1\<rparr>)), run_sleep = (\<lambda>t w. w), run_read = (\<lambda>fd w. (None, w)),
     run_mem = rw_mem, run_put = (\<lambda>m w. w\<lparr>rw_mem := m\<rparr>), \<dots> = x\<rparr>"

abbreviation demo_run :: "run_world run_sys" where "demo_run \<equiv> demo_tool_sys ()"

lemma demo_ioctl_state:
  "rw_maps (snd (demo_ioctl fd req w)) = rw_maps w" "rw_mem (snd (demo_ioctl fd req w)) = rw_mem w"
  "rw_fds (snd (demo_ioctl fd req w)) = rw_fds w + exported (fst (demo_ioctl fd req w))" "fst (demo_ioctl fd req w) \<noteq> Inl EINTR"
  by (cases req; simp add: demo_ioctl_def exported_def)+

lemma demo_run_xioctl: "vpipe_xioctl (demo_tool_sys x) fd req w \<noteq> None"
  using xioctl_after [of "demo_tool_sys x" fd req 0 w w] demo_ioctl_state(4) [of fd req w] by (simp add: demo_tool_sys_def)

lemma demo_mmap_state:
  "fst (demo_mmap n fd off w) = Some (rw_next w)" "rw_maps (snd (demo_mmap n fd off w)) = add_mset (rw_next w, n) (rw_maps w)"
  "rw_fds (snd (demo_mmap n fd off w)) = rw_fds w"
  by (simp_all add: demo_mmap_def Let_def)

lemma demo_mmap_valid:
  assumes "mem_valid (demo_tool_sys x) rw_maps w"
  shows "mem_valid (demo_tool_sys x) rw_maps (snd (demo_mmap n fd off w))"
  unfolding mem_valid_def
proof (intro allI impI)
  fix a k assume "(a, k) \<in># rw_maps (snd (demo_mmap n fd off w))"
  then have "a = rw_next w \<and> k = n \<or> (a, k) \<in># rw_maps w" by (simp add: demo_mmap_state)
  then show "\<exists>D. run_mem (demo_tool_sys x) (snd (demo_mmap n fd off w)) a = Some D \<and> k \<le> length D"
    using assms by (fastforce simp: mem_valid_def demo_tool_sys_def demo_mmap_def Let_def split: option.split)
qed

lemma demo_run_laws: "sys_laws (demo_tool_sys x) rw_maps" "run_laws (demo_tool_sys x) rw_maps rw_fds"
proof -
  show "sys_laws (demo_tool_sys x) rw_maps"
    using demo_run_xioctl by (auto simp: sys_laws_def) (simp_all add: demo_tool_sys_def demo_ioctl_state demo_mmap_state)
  have same: "mem_valid (demo_tool_sys x) rw_maps w'" if "mem_valid (demo_tool_sys x) rw_maps w" "rw_mem w' = rw_mem w" "rw_maps w' \<subseteq># rw_maps w" for w w'
    using that by (auto simp: mem_valid_def demo_tool_sys_def dest: mset_subset_eqD)
  have proj: "sys_ioctl (demo_tool_sys x) = demo_ioctl" "sys_mmap (demo_tool_sys x) = demo_mmap"
    "sys_munmap (demo_tool_sys x) = (\<lambda>a n w. w\<lparr>rw_maps := rw_maps w - {#(a, n)#}\<rparr>)" "sys_close (demo_tool_sys x) = (\<lambda>fd w. w\<lparr>rw_fds := rw_fds w - {#fd#}\<rparr>)"
    "run_open (demo_tool_sys x) = (\<lambda>p w. (Inr 3, w\<lparr>rw_fds := add_mset 3 (rw_fds w)\<rparr>))"
    "os_mkdir (run_fs (demo_tool_sys x)) = (\<lambda>p w. (Inr (), w))" "os_fopen_w (run_fs (demo_tool_sys x)) = (\<lambda>p w. Some w)"
    "os_fwrite (run_fs (demo_tool_sys x)) = (\<lambda>p bs w. (length bs, w))" "run_clock (demo_tool_sys x) = (\<lambda>w. ((0, rw_time w), w\<lparr>rw_time := rw_time w + 1\<rparr>))"
    "run_sleep (demo_tool_sys x) = (\<lambda>t w. w)" "run_read (demo_tool_sys x) = (\<lambda>fd w. (None, w))" "run_mem (demo_tool_sys x) = rw_mem" "run_put (demo_tool_sys x) = (\<lambda>m w. w\<lparr>rw_mem := m\<rparr>)"
    by (simp_all add: demo_tool_sys_def)
  show "run_laws (demo_tool_sys x) rw_maps rw_fds"
    unfolding run_laws_def quiet_def proj
    by (intro allI conjI impI) (auto simp: demo_ioctl_state demo_mmap_state demo_mmap_valid intro: same)
qed

lemma demo_run_device: "0 < depth \<Longrightarrow> device_laws (demo_tool_sys x) depth (HEIGHT * WIDTH)"
  unfolding device_laws_def
  by (auto simp: demo_tool_sys_def demo_ioctl_def HEIGHT_def WIDTH_def word_gt_0 split: v4l2_req.splits)

lemma demo_system: "0 < depth \<Longrightarrow> tool_system (demo_tool_sys x) rw_maps rw_fds depth (HEIGHT * WIDTH)"
  by (simp add: tool_system_def demo_run_laws demo_run_device)

definition demo_process :: run_world where
  "demo_process = \<lparr>rw_next = 0, rw_maps = {#}, rw_fds = {#0, 1, 2#}, rw_mem = Map.empty, rw_time = 5\<rparr>"

lemma demo_process_valid: "mem_valid (demo_tool_sys x) rw_maps demo_process"
  by (simp add: mem_valid_def demo_process_def)

end
