(* ===== verification/User_Runner.thy ===== *)
theory User_Runner
  imports User_Device User_Crc User_Tools Gradient
begin

text \<open>
  The frame runner (user/vpipe-vcam-runner.c): it streams a number of frames through the
  device with a bounded number in flight, measures latencies, checks every captured frame
  against its metadata and, for the virtual camera, against the test picture, and writes a
  CSV file.  Here are its definitions and what drawing and verifying the picture do.
\<close>

unbundle bit_operations_syntax

section \<open>Configuration and state\<close>

definition STRIDE :: nat where "STRIDE = WIDTH"

abbreviation (input) VPIPE_MAX_QUEUE_DEPTH :: u32 where "VPIPE_MAX_QUEUE_DEPTH \<equiv> 32"

datatype source_kind = SRC_FIXTURE | SRC_VCAM
datatype buffer_kind = BUF_MMAP | BUF_DMABUF

record run_config =
  cfg_frames :: u32
  cfg_fps :: u32
  cfg_queue_depth :: u32
  cfg_source :: source_kind
  cfg_verify_pattern :: bool
  cfg_device :: string
  cfg_csv :: string

text \<open>
  \<open>struct run_stats\<close>.  The mean occupancy is kept as the sum it divides and the number of
  frames; the percentiles, computed in floating point, are results of a parameter.
\<close>

record run_stats =
  st_ok :: bool
  st_buffer :: buffer_kind
  st_source :: source_kind
  st_frames :: u32
  st_fps :: u32
  st_queue_depth :: u32
  st_out_inflight :: u32
  st_lat_median_ns :: u64
  st_lat_p95_ns :: u64
  st_lat_p99_ns :: u64
  st_meta_available :: bool
  st_occ_mean :: "nat \<times> nat"
  st_occ_max :: u32
  st_dropped :: u32
  st_csum_checked :: u32
  st_csum_pass :: u32
  st_verify_checked :: u32
  st_verify_pass :: u32

record pacer =
  next_ns :: u64
  interval_ns :: u64

text \<open>The local variables of \<open>run_one\<close>.\<close>

record run_state =
  rn_fd :: int
  rn_meta_fd :: int
  rn_src_fd :: int
  rn_out_streaming :: bool
  rn_cap_streaming :: bool
  rn_fp :: bool
  rn_out_bufs :: "vpipe_mmap_buffer list"
  rn_cap_bufs :: "vpipe_mmap_buffer list"
  rn_qbuf_ring :: "u64 list"
  rn_lat :: "u64 list"
  rn_pacer :: pacer
  rn_sizeimage :: nat
  rn_submitted :: u32
  rn_occ_sum :: nat
  rn_crc :: crc32_state
  rn_st :: run_stats

text \<open>Each step of a run is a step on these and the state of the system.\<close>

type_synonym 'w run = "(run_state, 'w) step"

section \<open>The test picture\<close>

definition fill_gradient :: "ptr \<Rightarrow> u32 \<Rightarrow> mem \<Rightarrow> mem option" where
  "fill_gradient dst offset m = do {
     m \<leftarrow> foreach (\<lambda>y. let row = ptr_add dst (int (y * STRIDE))
                  in foreach (\<lambda>x m. store m (ptr_add row (int x)) (gradient_byte (of_nat x) (of_nat y) offset)) [0..<WIDTH])
            [0..<HEIGHT] m;
     store m dst (ucast (offset AND 0xFF)) }"

text \<open>A loop that returns at the first mismatch.\<close>

fun check_all :: "('a \<Rightarrow> bool option) \<Rightarrow> 'a list \<Rightarrow> bool option" where
  "check_all f [] = Some True"
| "check_all f (x # xs) = do { same \<leftarrow> f x; if same then check_all f xs else Some False }"

definition verify_gradient :: "mem \<Rightarrow> ptr \<Rightarrow> bool option" where
  "verify_gradient m cap = do {
     first \<leftarrow> load m cap;
     let offset = (ucast first :: u32);
     check_all (\<lambda>y. let row = ptr_add cap (int (y * STRIDE))
       in check_all (\<lambda>x. do {
            px \<leftarrow> load m (ptr_add row (int x));
            Some (px = gradient_byte (of_nat x) (of_nat y) offset) }) [0..<WIDTH]) [0..<HEIGHT] }"

section \<open>Device calls\<close>

definition pace :: "('w, 'x) run_sys_scheme \<Rightarrow> pacer \<Rightarrow> 'w \<Rightarrow> pacer \<times> 'w" where
  "pace sys p w =
     (if interval_ns p = 0 then (p, w)
      else let (nx, w) = (if next_ns p = 0 then now_ns sys w else (next_ns p, w));
               w = run_sleep sys nx w
           in (p\<lparr>next_ns := nx + interval_ns p\<rparr>, w))"

definition set_algo_none :: "('w, 'x) run_sys_scheme \<Rightarrow> int \<Rightarrow> 'w \<Rightarrow> (bool \<times> 'w) option" where
  "set_algo_none sys fd w = do {
     (r, w) \<leftarrow> vpipe_xioctl sys fd (VIDIOC_S_CTRL VPIPE_CID_ALGO VPIPE_ALGO_NONE) w; Some (ok r, w) }"

definition queue_output_dmabuf :: "('w, 'x) run_sys_scheme \<Rightarrow> int \<Rightarrow> int \<Rightarrow> nat \<Rightarrow> 'w \<Rightarrow> (bool \<times> 'w) option" where
  "queue_output_dmabuf sys fd dmabuf_fd n w = do {
     let buf = (zero_buf V4L2_BUF_TYPE_VIDEO_OUTPUT V4L2_MEMORY_DMABUF 0)\<lparr>ub_fd := dmabuf_fd, ub_bytesused := of_nat n, ub_length := of_nat n\<rparr>;
     (r, w) \<leftarrow> vpipe_xioctl sys fd (VIDIOC_QBUF buf) w;
     Some (ok r, w) }"

definition read_meta :: "('w, 'x) run_sys_scheme \<Rightarrow> int \<Rightarrow> 'w \<Rightarrow> vpipe_meta_entry option \<times> 'w" where
  "read_meta sys meta_fd w = (if meta_fd < 0 then (None, w) else run_read sys meta_fd w)"

definition submit_output :: "('w, 'x) run_sys_scheme \<Rightarrow> run_config \<Rightarrow> buffer_kind \<Rightarrow> u32 \<Rightarrow> u32 \<Rightarrow> 'w run" where
  "submit_output sys cfg buffer frame_no mmap_index = (\<lambda>(rs, w). do {
     let (p, w) = pace sys (rn_pacer rs) w;
     let (t, w) = now_ns sys w;
     let slot = unat frame_no mod unat (cfg_queue_depth cfg);
     if cfg_queue_depth cfg = 0 \<or> length (rn_qbuf_ring rs) \<le> slot then None
     else do {
       let rs = rs\<lparr>rn_pacer := p, rn_qbuf_ring := (rn_qbuf_ring rs)[slot := t]\<rparr>;
       if buffer = BUF_DMABUF then do {
         (go, w) \<leftarrow> queue_output_dmabuf sys (rn_fd rs) (rn_src_fd rs) (rn_sizeimage rs) w;
         Some (go, rs, w) }
       else do {
         w \<leftarrow> (if cfg_source cfg = SRC_FIXTURE then do {
                dst \<leftarrow> buf_addr (rn_out_bufs rs) (unat mmap_index);
                m \<leftarrow> fill_gradient dst frame_no (run_mem sys w);
                Some (run_put sys m w) }
              else Some w);
         (go, w) \<leftarrow> vpipe_queue_mmap_buffer sys (rn_fd rs) V4L2_BUF_TYPE_VIDEO_OUTPUT V4L2_MEMORY_MMAP mmap_index (-1) w;
         Some (go, rs, w) } } })"

section \<open>One run\<close>

subsection \<open>Setting up\<close>

definition out_depth :: "run_config \<Rightarrow> buffer_kind \<Rightarrow> u32 \<Rightarrow> u32" where
  "out_depth cfg buffer out_inflight =
     (let d = (if buffer = BUF_DMABUF then 1 else out_inflight);
          d = (if d > cfg_queue_depth cfg then cfg_queue_depth cfg else d)
      in if d < 1 then 1 else d)"

definition zero_stats :: run_stats where
  "zero_stats = \<lparr>st_ok = False, st_buffer = BUF_MMAP, st_source = SRC_FIXTURE, st_frames = 0, st_fps = 0,
     st_queue_depth = 0, st_out_inflight = 0, st_lat_median_ns = 0, st_lat_p95_ns = 0, st_lat_p99_ns = 0,
     st_meta_available = False, st_occ_mean = (0, 0), st_occ_max = 0, st_dropped = 0, st_csum_checked = 0, st_csum_pass = 0,
     st_verify_checked = 0, st_verify_pass = 0\<rparr>"

text \<open>
  The arrays start as zeros; the first \<open>queue_depth\<close> entries of the buffer arrays then lose
  their descriptor.
\<close>

definition mmap_array :: "nat \<Rightarrow> vpipe_mmap_buffer list option" where
  "mmap_array n = (let zero = \<lparr>mb_addr = Null, mb_length = 0, mb_dmabuf_fd = 0\<rparr> in
     if 32 < n then None else Some (replicate n (zero\<lparr>mb_dmabuf_fd := -1\<rparr>) @ replicate (32 - n) zero))"

definition run_init :: "run_config \<Rightarrow> buffer_kind \<Rightarrow> u32 \<Rightarrow> crc32_state \<Rightarrow> run_state option" where
  "run_init cfg buffer out_inflight crc = do {
     bufs \<leftarrow> mmap_array (unat (cfg_queue_depth cfg));
     Some \<lparr>rn_fd = -1, rn_meta_fd = -1, rn_src_fd = -1, rn_out_streaming = False, rn_cap_streaming = False, rn_fp = False,
       rn_out_bufs = bufs, rn_cap_bufs = bufs, rn_qbuf_ring = replicate 32 0, rn_lat = replicate (unat (cfg_frames cfg)) 0,
       rn_pacer = \<lparr>next_ns = 0, interval_ns = 0\<rparr>, rn_sizeimage = 0, rn_submitted = 0, rn_occ_sum = 0, rn_crc = crc,
       rn_st = zero_stats\<lparr>st_buffer := buffer, st_source := cfg_source cfg, st_frames := cfg_frames cfg, st_fps := cfg_fps cfg,
         st_queue_depth := cfg_queue_depth cfg, st_out_inflight := out_depth cfg buffer out_inflight\<rparr>\<rparr> }"

definition run_open_device :: "('w, 'x) run_sys_scheme \<Rightarrow> run_config \<Rightarrow> 'w run" where
  "run_open_device sys cfg = (\<lambda>(rs, w). case run_open sys (cfg_device cfg) w of
     (Inl _, w) \<Rightarrow> Some (False, rs, w)
   | (Inr fd, w) \<Rightarrow> do {
       let rs = rs\<lparr>rn_fd := fd\<rparr>;
       (go, w) \<leftarrow> set_backend sys fd (if cfg_source cfg = SRC_VCAM then VPIPE_BACKEND_VCAM_DERIVED else VPIPE_BACKEND_FIXTURE) w;
       Some (go, rs, w) })"

definition run_formats :: "('w, 'x) run_sys_scheme \<Rightarrow> 'w run" where
  "run_formats sys = (\<lambda>(rs, w). do {
     (go, w) \<leftarrow> vpipe_set_format sys (rn_fd rs) V4L2_BUF_TYPE_VIDEO_OUTPUT (of_nat WIDTH) (of_nat HEIGHT) V4L2_PIX_FMT_GREY w;
     if \<not> go then Some (False, rs, w)
     else do {
       (go, w) \<leftarrow> vpipe_set_format sys (rn_fd rs) V4L2_BUF_TYPE_VIDEO_CAPTURE (of_nat WIDTH) (of_nat HEIGHT) V4L2_PIX_FMT_GREY w;
       if \<not> go then Some (False, rs, w)
       else do {
         (n, w) \<leftarrow> vpipe_get_sizeimage sys (rn_fd rs) V4L2_BUF_TYPE_VIDEO_OUTPUT w;
         Some (n \<noteq> 0, rs\<lparr>rn_sizeimage := n\<rparr>, w) } } })"

definition run_request :: "('w, 'x) run_sys_scheme \<Rightarrow> run_config \<Rightarrow> buffer_kind \<Rightarrow> 'w run" where
  "run_request sys cfg buffer = andthen
     (\<lambda>(rs, w).
        if buffer = BUF_DMABUF then do {
          (r, w) \<leftarrow> vpipe_xioctl sys (rn_fd rs) (VIDIOC_REQBUFS 1 V4L2_BUF_TYPE_VIDEO_OUTPUT V4L2_MEMORY_DMABUF) w;
          Some (ok r, rs, w) }
        else do {
          (n, bufs, w) \<leftarrow> vpipe_request_mmap_buffers sys (rn_fd rs) V4L2_BUF_TYPE_VIDEO_OUTPUT (cfg_queue_depth cfg) (rn_out_bufs rs) w;
          Some (n \<noteq> None, rs\<lparr>rn_out_bufs := bufs\<rparr>, w) })
     (\<lambda>(rs, w). do {
          (n, bufs, w) \<leftarrow> vpipe_request_mmap_buffers sys (rn_fd rs) V4L2_BUF_TYPE_VIDEO_CAPTURE (cfg_queue_depth cfg) (rn_cap_bufs rs) w;
          Some (n \<noteq> None, rs\<lparr>rn_cap_bufs := bufs\<rparr>, w) })"

definition run_csv_header :: string where
  "run_csv_header = ''frame,buffer_type,us_qbuf_ns,us_dqbuf_ns,us_latency_ns,'' @
     ''meta_seq,source_ts_ns,qbuf_ts_ns,capture_done_ns,dqbuf_ts_ns,'' @
     ''queue_depth,cpu_id,crc32_kernel,crc32_user,dropped,flags''"

text \<open>The control, the CSV file and the metadata device, which may be missing.\<close>

definition run_outputs :: "('w, 'x) run_sys_scheme \<Rightarrow> bool \<Rightarrow> string \<Rightarrow> 'w run" where
  "run_outputs sys dup csv = (\<lambda>(rs, w). do {
     (go, w) \<leftarrow> set_algo_none sys (rn_fd rs) w;
     if \<not> go then Some (False, rs, w)
     else case vpipe_open_csv (run_fs sys) dup csv (Some run_csv_header) w of
       (False, w) \<Rightarrow> Some (False, rs, w)
     | (True, w) \<Rightarrow>
         let (r, w) = run_open sys ''/dev/vpipe-meta'' w;
             meta_fd = (case r of Inl _ \<Rightarrow> -1 | Inr fd \<Rightarrow> fd)
         in Some (True, rs\<lparr>rn_fp := True, rn_meta_fd := meta_fd, rn_st := (rn_st rs)\<lparr>st_meta_available := 0 \<le> meta_fd\<rparr>\<rparr>, w) })"

definition run_queue_capture :: "('w, 'x) run_sys_scheme \<Rightarrow> nat \<Rightarrow> 'w run" where
  "run_queue_capture sys i = (\<lambda>(rs, w). do {
     (go, w) \<leftarrow> vpipe_queue_mmap_buffer sys (rn_fd rs) V4L2_BUF_TYPE_VIDEO_CAPTURE V4L2_MEMORY_MMAP (of_nat i) (-1) w;
     Some (go, rs, w) })"

definition run_streamon :: "('w, 'x) run_sys_scheme \<Rightarrow> 'w run" where
  "run_streamon sys = (\<lambda>(rs, w). do {
     (r, w) \<leftarrow> vpipe_xioctl sys (rn_fd rs) (VIDIOC_STREAMON V4L2_BUF_TYPE_VIDEO_CAPTURE) w;
     if \<not> ok r then Some (False, rs, w)
     else do {
       let rs = rs\<lparr>rn_cap_streaming := True\<rparr>;
       (r, w) \<leftarrow> vpipe_xioctl sys (rn_fd rs) (VIDIOC_STREAMON V4L2_BUF_TYPE_VIDEO_OUTPUT) w;
       if \<not> ok r then Some (False, rs, w) else Some (True, rs\<lparr>rn_out_streaming := True\<rparr>, w) } })"

definition run_export :: "('w, 'x) run_sys_scheme \<Rightarrow> run_config \<Rightarrow> buffer_kind \<Rightarrow> 'w run" where
  "run_export sys cfg buffer = (\<lambda>(rs, w). do {
     (go, rs, w) \<leftarrow> (if buffer = BUF_DMABUF then do {
          (r, w) \<leftarrow> vpipe_xioctl sys (rn_fd rs) IOC_EXPORT_SRC_DMABUF w;
          (case r of Inr (Reply_Fd fd) \<Rightarrow> Some (0 \<le> fd, rs\<lparr>rn_src_fd := fd\<rparr>, w) | _ \<Rightarrow> Some (False, rs, w)) }
        else Some (True, rs, w));
     if \<not> go then Some (False, rs, w)
     else Some (True, rs\<lparr>rn_pacer := (rn_pacer rs)\<lparr>interval_ns := (if cfg_fps cfg = 0 then 0 else 1000000000 div ucast (cfg_fps cfg))\<rparr>\<rparr>, w) })"

subsection \<open>The frames\<close>

text \<open>One turn of the loop that fills the pipeline; frame number and buffer index are both \<open>submitted\<close>.\<close>

definition run_prefill :: "('w, 'x) run_sys_scheme \<Rightarrow> run_config \<Rightarrow> buffer_kind \<Rightarrow> nat \<Rightarrow> 'w run" where
  "run_prefill sys cfg buffer i = (\<lambda>(rs, w). do {
     (go, rs, w) \<leftarrow> submit_output sys cfg buffer (of_nat i) (of_nat i) (rs, w);
     if go then Some (True, rs\<lparr>rn_submitted := rn_submitted rs + 1\<rparr>, w) else Some (False, rs, w) })"

definition run_csv_row :: "nat \<Rightarrow> u64 \<Rightarrow> u64 \<Rightarrow> u64 \<Rightarrow> vpipe_meta_entry option \<Rightarrow> u32 \<Rightarrow> bool \<Rightarrow> u8 list" where
  "run_csv_row completed t_q t_dq latency meta crc_user dropped =
     (let m = (case meta of None \<Rightarrow> zero_meta_entry | Some m \<Rightarrow> m)
      in csv_join [dec completed, dec (unat (me_buffer_type m)), dec (unat t_q), dec (unat t_dq), dec (unat latency),
           dec (unat (me_seq m)), dec (unat (me_source_timestamp_ns m)), dec (unat (me_qbuf_timestamp_ns m)),
           dec (unat (me_capture_done_ns m)), dec (unat (me_dqbuf_timestamp_ns m)), dec (unat (me_queue_depth m)),
           dec (unat (me_cpu_id m)), hex8 (me_crc32 m), hex8 crc_user, dec (if dropped then 1 else 0), hex8 (me_flags m)])"

text \<open>
  The checks of a captured frame: what the statistics become, given the metadata entry that
  was read, the checksum of the buffer, and the verdict on the picture when one is asked for.
\<close>

definition meta_dropped :: "vpipe_meta_entry option \<Rightarrow> bool" where
  "meta_dropped meta = (case meta of None \<Rightarrow> False | Some m \<Rightarrow> me_flags m AND VPIPE_META_F_DROPPED \<noteq> 0)"

definition count_meta :: "vpipe_meta_entry option \<Rightarrow> u32 \<Rightarrow> run_stats \<Rightarrow> run_stats" where
  "count_meta meta crc_user st =
     (case meta of None \<Rightarrow> st
      | Some m \<Rightarrow> st\<lparr>st_dropped := st_dropped st + (if meta_dropped meta then 1 else 0),
                      st_csum_checked := st_csum_checked st + 1,
                      st_csum_pass := st_csum_pass st + (if crc_user = me_crc32 m then 1 else 0)\<rparr>)"

definition count_pattern :: "run_config \<Rightarrow> bool \<Rightarrow> mem \<Rightarrow> vpipe_mmap_buffer list \<Rightarrow> nat \<Rightarrow> run_stats \<Rightarrow> run_stats option" where
  "count_pattern cfg dropped m bufs i st =
     (if cfg_verify_pattern cfg \<and> cfg_source cfg = SRC_VCAM \<and> \<not> dropped then do {
        cap \<leftarrow> buf_addr bufs i;
        same \<leftarrow> verify_gradient m cap;
        Some (st\<lparr>st_verify_checked := st_verify_checked st + 1, st_verify_pass := st_verify_pass st + (if same then 1 else 0)\<rparr>) }
      else Some st)"

text \<open>From dequeueing a captured frame to its row in the CSV file; \<open>completed\<close> is the turn's number.\<close>

definition run_check_frame :: "('w, 'x) run_sys_scheme \<Rightarrow> run_config \<Rightarrow> string \<Rightarrow> nat \<Rightarrow> u32 \<Rightarrow> u32 \<Rightarrow> u64 \<Rightarrow> 'w run" where
  "run_check_frame sys cfg csv completed index bytesused t_dq = (\<lambda>(rs, w). do {
     bytes \<leftarrow> buf_bytes (run_mem sys w) (rn_cap_bufs rs) (unat index) (unat bytesused);
     let (crc_user, crc) = vpipe_crc32 bytes (rn_crc rs);
     let (meta, w) = read_meta sys (rn_meta_fd rs) w;
     let slot = completed mod unat (cfg_queue_depth cfg);
     if length (rn_qbuf_ring rs) \<le> slot \<or> length (rn_lat rs) \<le> completed then None
     else do {
       let latency = t_dq - rn_qbuf_ring rs ! slot;
       st \<leftarrow> count_pattern cfg (meta_dropped meta) (run_mem sys w) (rn_cap_bufs rs) (unat index) (count_meta meta crc_user (rn_st rs));
       let w = snd (os_fwrite (run_fs sys) csv
          (run_csv_row completed (rn_qbuf_ring rs ! slot) t_dq latency meta crc_user (meta_dropped meta)) w);
       Some (True, rs\<lparr>rn_crc := crc, rn_lat := (rn_lat rs)[completed := latency], rn_st := st\<rparr>, w) } })"

text \<open>Giving the capture buffer back, and sending the next frame in the buffer that comes free.\<close>

definition run_refill :: "('w, 'x) run_sys_scheme \<Rightarrow> run_config \<Rightarrow> buffer_kind \<Rightarrow> u32 \<Rightarrow> 'w run" where
  "run_refill sys cfg buffer index = (\<lambda>(rs, w). do {
     (go, w) \<leftarrow> vpipe_queue_mmap_buffer sys (rn_fd rs) V4L2_BUF_TYPE_VIDEO_CAPTURE V4L2_MEMORY_MMAP index (-1) w;
     if \<not> go then Some (False, rs, w)
     else do {
       (out_dq, w) \<leftarrow> dqbuf sys (rn_fd rs) V4L2_BUF_TYPE_VIDEO_OUTPUT (if buffer = BUF_DMABUF then V4L2_MEMORY_DMABUF else V4L2_MEMORY_MMAP) w;
       (case out_dq of None \<Rightarrow> Some (False, rs, w)
        | Some b \<Rightarrow>
            if rn_submitted rs < cfg_frames cfg then do {
              (go, rs, w) \<leftarrow> submit_output sys cfg buffer (rn_submitted rs) (ub_index b) (rs, w);
              if go then Some (True, rs\<lparr>rn_submitted := rn_submitted rs + 1\<rparr>, w) else Some (False, rs, w) }
            else Some (True, rs, w)) } })"

definition run_occupancy :: "nat \<Rightarrow> run_state \<Rightarrow> run_state" where
  "run_occupancy completed rs =
     (let inflight = rn_submitted rs - of_nat completed; st = rn_st rs
      in rs\<lparr>rn_occ_sum := rn_occ_sum rs + unat inflight,
            rn_st := st\<lparr>st_occ_max := (if inflight > st_occ_max st then inflight else st_occ_max st)\<rparr>\<rparr>)"

definition run_frame :: "('w, 'x) run_sys_scheme \<Rightarrow> run_config \<Rightarrow> buffer_kind \<Rightarrow> string \<Rightarrow> nat \<Rightarrow> 'w run" where
  "run_frame sys cfg buffer csv completed = (\<lambda>(rs, w). do {
     let rs = run_occupancy completed rs;
     (cap_dq, w) \<leftarrow> dqbuf sys (rn_fd rs) V4L2_BUF_TYPE_VIDEO_CAPTURE V4L2_MEMORY_MMAP w;
     (case cap_dq of None \<Rightarrow> Some (False, rs, w)
      | Some b \<Rightarrow>
          let (t_dq, w) = now_ns sys w
          in if ub_index b \<ge> cfg_queue_depth cfg then Some (False, rs, w)
             else andthen (run_check_frame sys cfg csv completed (ub_index b) (ub_bytesused b) t_dq)
                    (run_refill sys cfg buffer (ub_index b)) (rs, w)) })"

text \<open>Both loops.  Each turn of the first raises \<open>submitted\<close>, each turn of the second \<open>completed\<close>, by one.\<close>

definition run_stream :: "('w, 'x) run_sys_scheme \<Rightarrow> run_config \<Rightarrow> buffer_kind \<Rightarrow> string \<Rightarrow> u32 \<Rightarrow> 'w run" where
  "run_stream sys cfg buffer csv out_inflight = andthen
     (each (run_prefill sys cfg buffer) [0..<min (unat (cfg_frames cfg)) (unat (out_depth cfg buffer out_inflight))])
     (each (run_frame sys cfg buffer csv) [0..<unat (cfg_frames cfg)])"

subsection \<open>The whole run\<close>

text \<open>\<open>percentile\<close> is computed in floating point; it is a function of the sorted latencies and the percentage.\<close>

definition run_summary :: "(u64 list \<Rightarrow> nat \<Rightarrow> u64) \<Rightarrow> run_config \<Rightarrow> 'w run" where
  "run_summary percentile cfg = (\<lambda>(rs, w).
     let lat = sort (rn_lat rs)
     in Some (True, rs\<lparr>rn_lat := lat, rn_st := (rn_st rs)\<lparr>st_lat_median_ns := percentile lat 50, st_lat_p95_ns := percentile lat 95,
          st_lat_p99_ns := percentile lat 99,
          st_occ_mean := (if cfg_frames cfg \<noteq> 0 then (rn_occ_sum rs, unat (cfg_frames cfg)) else st_occ_mean (rn_st rs)), st_ok := True\<rparr>\<rparr>, w))"

text \<open>The label \<open>cleanup\<close>; closing the CSV file and freeing the latencies change nothing the model sees.\<close>

definition run_cleanup :: "('w, 'x) run_sys_scheme \<Rightarrow> run_config \<Rightarrow> buffer_kind \<Rightarrow> run_state \<Rightarrow> 'w \<Rightarrow> 'w option" where
  "run_cleanup sys cfg buffer rs w = do {
     w \<leftarrow> stream_off sys (rn_out_streaming rs) (rn_fd rs) V4L2_BUF_TYPE_VIDEO_OUTPUT w;
     w \<leftarrow> stream_off sys (rn_cap_streaming rs) (rn_fd rs) V4L2_BUF_TYPE_VIDEO_CAPTURE w;
     let w = close_fd sys (rn_src_fd rs) (close_fd sys (rn_meta_fd rs) w);
     w \<leftarrow> (if buffer = BUF_MMAP then vpipe_unmap_buffers sys (rn_out_bufs rs) (unat (cfg_queue_depth cfg)) w else Some w);
     w \<leftarrow> vpipe_unmap_buffers sys (rn_cap_bufs rs) (unat (cfg_queue_depth cfg)) w;
     Some (close_fd sys (rn_fd rs) w) }"

definition run_body :: "('w, 'x) run_sys_scheme \<Rightarrow> (u64 list \<Rightarrow> nat \<Rightarrow> u64) \<Rightarrow> bool \<Rightarrow> run_config \<Rightarrow> buffer_kind \<Rightarrow> string \<Rightarrow> u32 \<Rightarrow> 'w run" where
  "run_body sys percentile dup cfg buffer csv out_inflight =
     foldr andthen
       [run_open_device sys cfg, run_formats sys, run_request sys cfg buffer, run_outputs sys dup csv,
        each (run_queue_capture sys) [0..<unat (cfg_queue_depth cfg)], run_streamon sys, run_export sys cfg buffer,
        run_stream sys cfg buffer csv out_inflight]
       (run_summary percentile cfg)"

text \<open>\<open>room\<close>: whether the array of latencies can be allocated; \<open>dup\<close>: whether a path can be duplicated.\<close>

definition run_one ::
    "('w, 'x) run_sys_scheme \<Rightarrow> (u64 list \<Rightarrow> nat \<Rightarrow> u64) \<Rightarrow> bool \<Rightarrow> bool \<Rightarrow> run_config \<Rightarrow> buffer_kind \<Rightarrow> string \<Rightarrow> u32 \<Rightarrow>
     crc32_state \<Rightarrow> 'w \<Rightarrow> (run_stats \<times> crc32_state \<times> 'w) option" where
  "run_one sys percentile room dup cfg buffer csv out_inflight crc w = do {
     rs \<leftarrow> run_init cfg buffer out_inflight crc;
     if \<not> room then Some (rn_st rs, crc, w)
     else do {
       (_, rs, w) \<leftarrow> run_body sys percentile dup cfg buffer csv out_inflight (rs, w);
       w \<leftarrow> run_cleanup sys cfg buffer rs w;
       Some (rn_st rs, rn_crc rs, w) } }"

subsection \<open>The program\<close>

text \<open>
  The options as \<open>getopt_long\<close> delivers them, a letter and its argument; the result is an exit
  status or the configuration, the transport and whether to compare.
\<close>

definition default_config :: run_config where
  "default_config = \<lparr>cfg_frames = 300, cfg_fps = 0, cfg_queue_depth = 4, cfg_source = SRC_VCAM, cfg_verify_pattern = False,
     cfg_device = ''/dev/video0'', cfg_csv = ''out.csv''\<rparr>"

definition run_number :: "string \<Rightarrow> u64 \<Rightarrow> u64 \<Rightarrow> (u32 \<Rightarrow> 'a) \<Rightarrow> int + 'a" where
  "run_number arg lo hi k = (case parse_uint (Some (bytes_of arg)) lo hi of None \<Rightarrow> Inl 2 | Some v \<Rightarrow> Inr (k v))"

definition run_option :: "char \<Rightarrow> string \<Rightarrow> run_config \<times> buffer_kind \<times> bool \<Rightarrow> int + run_config \<times> buffer_kind \<times> bool" where
  "run_option opt arg = (\<lambda>(cfg, buffer, compare).
     if opt = CHR ''f'' then run_number arg 1 0xFFFFFFFF (\<lambda>v. (cfg\<lparr>cfg_frames := v\<rparr>, buffer, compare))
     else if opt = CHR ''r'' then run_number arg 0 1000 (\<lambda>v. (cfg\<lparr>cfg_fps := v\<rparr>, buffer, compare))
     else if opt = CHR ''q'' then run_number arg 2 (ucast VPIPE_MAX_QUEUE_DEPTH) (\<lambda>v. (cfg\<lparr>cfg_queue_depth := v\<rparr>, buffer, compare))
     else if opt = CHR ''b'' then
       (if arg = ''mmap'' then Inr (cfg, BUF_MMAP, compare) else if arg = ''dmabuf'' then Inr (cfg, BUF_DMABUF, compare) else Inl 2)
     else if opt = CHR ''s'' then
       (if arg = ''fixture'' then Inr (cfg\<lparr>cfg_source := SRC_FIXTURE\<rparr>, buffer, compare)
        else if arg = ''vcam'' then Inr (cfg\<lparr>cfg_source := SRC_VCAM\<rparr>, buffer, compare) else Inl 2)
     else if opt = CHR ''c'' then Inr (cfg\<lparr>cfg_csv := arg\<rparr>, buffer, compare)
     else if opt = CHR ''d'' then Inr (cfg\<lparr>cfg_device := arg\<rparr>, buffer, compare)
     else if opt = CHR ''C'' then Inr (cfg, buffer, True)
     else if opt = CHR ''V'' then Inr (cfg\<lparr>cfg_verify_pattern := True\<rparr>, buffer, compare)
     else if opt = CHR ''h'' then Inl 0
     else Inl 2)"

fun run_options :: "(char \<times> string) list \<Rightarrow> run_config \<times> buffer_kind \<times> bool \<Rightarrow> int + run_config \<times> buffer_kind \<times> bool" where
  "run_options [] c = Inr c"
| "run_options ((opt, arg) # opts) c = (case run_option opt arg c of Inl status \<Rightarrow> Inl status | Inr c \<Rightarrow> run_options opts c)"

text \<open>\<open>snprintf\<close> into an array of \<open>PATH_MAX\<close> bytes.\<close>

definition run_path :: "string \<Rightarrow> string \<Rightarrow> string" where
  "run_path csv ext = take 4095 (csv @ ext)"

text \<open>The exit status; \<open>room\<close> and \<open>dup\<close> say for each run whether its allocations succeed.\<close>

definition run_main ::
    "('w, 'x) run_sys_scheme \<Rightarrow> (u64 list \<Rightarrow> nat \<Rightarrow> u64) \<Rightarrow> (nat \<Rightarrow> bool) \<Rightarrow> (nat \<Rightarrow> bool) \<Rightarrow> (char \<times> string) list \<Rightarrow>
     crc32_state \<Rightarrow> 'w \<Rightarrow> (int \<times> 'w) option" where
  "run_main sys percentile room dup opts crc w =
     (case run_options opts (default_config, BUF_MMAP, False) of
        Inl status \<Rightarrow> Some (status, w)
      | Inr (cfg, buffer, compare) \<Rightarrow>
          if cfg_source cfg = SRC_FIXTURE \<and> (buffer = BUF_DMABUF \<or> compare) then Some (2, w)
          else if compare then do {
            (mmap_st, crc, w) \<leftarrow> run_one sys percentile (room 0) (dup 0) cfg BUF_MMAP (run_path (cfg_csv cfg) ''.mmap.csv'') 1 crc w;
            (dmabuf_st, crc, w) \<leftarrow> run_one sys percentile (room 1) (dup 1) cfg BUF_DMABUF (run_path (cfg_csv cfg) ''.dmabuf.csv'') 1 crc w;
            Some (if st_ok mmap_st \<and> st_ok dmabuf_st then 0 else 1, w) }
          else do {
            (st, crc, w) \<leftarrow> run_one sys percentile (room 0) (dup 0) cfg buffer (cfg_csv cfg) (cfg_queue_depth cfg) crc w;
            Some (if st_ok st then 0 else 1, w) })"

section \<open>Recognising the test picture\<close>

lemma check_all_total:
  "(\<And>x. x \<in> set xs \<Longrightarrow> f x = Some (P x)) \<Longrightarrow> check_all f xs = Some (\<forall>x\<in>set xs. P x)"
  by (induction xs) auto

lemma fill_gradient_draws:
  assumes "m a = Some D" "HEIGHT * WIDTH \<le> length D"
  shows "fill_gradient (a, 0) offset m = Some (m(a \<mapsto> draw 0 0 WIDTH HEIGHT WIDTH (gradient (ucast offset)) D))"
proof -
  let ?D = "draw 0 0 WIDTH HEIGHT WIDTH (gradient (ucast offset)) D"
  have g: "gradient_byte (of_nat x) (of_nat y) offset = gradient (ucast offset) x y" for x y
    by (simp add: gradient_byte_u8 gradient_def)
  have loop: "foreach (\<lambda>y. foreach (\<lambda>x m. store m (a, int (y * WIDTH) + int x) (gradient (ucast offset) x y)) [0..<WIDTH])
      [0..<HEIGHT] m = Some (m(a \<mapsto> ?D))"
    using assms by (intro fill_rows) auto
  have pos: "0 < WIDTH" "0 < HEIGHT" by (simp_all add: WIDTH_def HEIGHT_def)
  then have len: "0 < length D" using assms(2) by (metis nat_0_less_mult_iff order_less_le_trans)
  have first: "?D ! 0 = ucast offset"
    using pos len nth_draw [of 0 D 0 0 WIDTH HEIGHT WIDTH "gradient (ucast offset)"] by (simp add: gradient_def)
  have "?D[0 := ucast offset] = ?D" using first by (metis list_update_id)
  then have "store (m(a \<mapsto> ?D)) (a, 0) (ucast offset) = Some (m(a \<mapsto> ?D))"
    using store_Some [of "m(a \<mapsto> ?D)" a ?D 0 "ucast offset"] len by simp
  then show ?thesis
    using loop by (simp add: fill_gradient_def STRIDE_def ptr_add_def g ucast_and_mask8 Let_def)
qed

text \<open>A picture of the kind every producer draws, recognised by its first byte.\<close>

definition gradient_picture :: "u8 list \<Rightarrow> bool" where
  "gradient_picture D = (\<forall>y<HEIGHT. \<forall>x<WIDTH. D ! (y * WIDTH + x) = gradient (D ! 0) x y)"

lemma verify_gradient_picture:
  assumes D: "m a = Some D" "HEIGHT * WIDTH \<le> length D"
  shows "verify_gradient m (a, 0) = Some (gradient_picture D)"
proof -
  let ?g = "\<lambda>x y. gradient_byte (of_nat x) (of_nat y) (ucast (D ! 0))"
  have "(ucast (ucast b :: u32) :: u8) = b" for b :: u8 by transfer (simp add: take_bit_eq_mod mod_mod_cancel)
  then have g: "?g x y = gradient (D ! 0) x y" for x y by (simp add: gradient_byte_u8 gradient_def)
  have px: "load m (a, int (y * WIDTH + x)) = Some (D ! (y * WIDTH + x))" if "y < HEIGHT" "x < WIDTH" for x y
    using index_row_end [of y HEIGHT WIDTH WIDTH] that D by (intro load_Some) auto
  have row: "check_all (\<lambda>x. do { px \<leftarrow> load m (a, int (y * WIDTH) + int x); Some (px = ?g x y) }) [0..<WIDTH]
      = Some (\<forall>x\<in>set [0..<WIDTH]. D ! (y * WIDTH + x) = gradient (D ! 0) x y)" if "y < HEIGHT" for y
    using px [OF that] by (intro check_all_total) (simp add: g)
  have "check_all (\<lambda>y. check_all (\<lambda>x. do { px \<leftarrow> load m (a, int (y * WIDTH) + int x); Some (px = ?g x y) }) [0..<WIDTH])
      [0..<HEIGHT] = Some (\<forall>y\<in>set [0..<HEIGHT]. \<forall>x\<in>set [0..<WIDTH]. D ! (y * WIDTH + x) = gradient (D ! 0) x y)"
    by (rule check_all_total) (use row in \<open>simp del: of_nat_mult\<close>)
  moreover have "load m (a, 0) = Some (D ! 0)"
    using px [of 0 0] by (simp add: WIDTH_def HEIGHT_def)
  ultimately show ?thesis
    by (simp add: verify_gradient_def STRIDE_def ptr_add_def Let_def gradient_picture_def Ball_def)
qed

lemma draw_gradient_picture:
  assumes "HEIGHT * WIDTH \<le> length D"
  shows "gradient_picture (draw 0 0 WIDTH HEIGHT WIDTH (gradient k) D)"
proof -
  have nth: "draw 0 0 WIDTH HEIGHT WIDTH (gradient k) D ! (y * WIDTH + x) = gradient k x y" if "y < HEIGHT" "x < WIDTH" for x y
    using that assms index_row_end [of y HEIGHT WIDTH WIDTH] by (subst nth_draw_pixel) auto
  then have "draw 0 0 WIDTH HEIGHT WIDTH (gradient k) D ! 0 = k"
    using nth [of 0 0] by (simp add: WIDTH_def HEIGHT_def gradient_def)
  with nth show ?thesis by (simp add: gradient_picture_def)
qed

end
