(* ===== verification/Runner_Laws.thy ===== *)
theory Runner_Laws
  imports User_Runner
begin

text \<open>
  What a run of the frame runner holds, the effect of its own calls, and its progress.
\<close>

unbundle bit_operations_syntax

section \<open>The runner's own calls\<close>

text \<open>The laws for frames of the runner's size.\<close>

abbreviation (input) runner_system where
  "runner_system sys maps fds depth \<equiv> tool_system sys maps fds depth (HEIGHT * WIDTH)"

abbreviation (input) frame_bufs :: "nat \<Rightarrow> vpipe_mmap_buffer list \<Rightarrow> bool" where
  "frame_bufs \<equiv> bufs_ok 32 (HEIGHT * WIDTH)"

lemma pace_quiet:
  assumes "run_laws sys maps fds" "pace sys p w = (p', w')"
  shows "quiet sys maps fds w w'"
proof -
  obtain t v where v: "now_ns sys w = (t, v)" by fastforce
  show ?thesis
    using assms(2) quiet_trans [OF now_quiet [OF assms(1) v] run_laws_quiet(2) [OF assms(1)], of t]
      run_laws_quiet(2) [OF assms(1), of w "next_ns p"]
    by (auto simp: pace_def v Let_def split: if_splits)
qed

lemma read_meta_quiet: "run_laws sys maps fds \<Longrightarrow> read_meta sys fd w = (m, w') \<Longrightarrow> quiet sys maps fds w w'"
  using run_laws_quiet(3) [of sys maps fds w fd] by (auto simp: read_meta_def split: if_splits)

lemma runner_calls:
  assumes sys: "runner_system sys maps fds depth"
  shows set_algo_none_quiet: "\<exists>go w'. set_algo_none sys fd w = Some (go, w') \<and> quiet sys maps fds w w'"
    and queue_dmabuf_quiet: "\<exists>go w'. queue_output_dmabuf sys fd dfd n w = Some (go, w') \<and> quiet sys maps fds w w'"
  using set_ctrl_quiet [OF sys, of fd VPIPE_CID_ALGO VPIPE_ALGO_NONE w] qbuf_quiet [OF sys, of fd _ w]
  by (simp_all add: set_algo_none_def set_ctrl_def queue_output_dmabuf_def qbuf_def Let_def)

section \<open>What a run holds\<close>

text \<open>Beyond the mappings \<open>M\<close> and descriptors \<open>F\<close> the process had, it has exactly those of the run.\<close>

definition held ::
    "('w, 'x) run_sys_scheme \<Rightarrow> ('w \<Rightarrow> (nat \<times> nat) multiset) \<Rightarrow> ('w \<Rightarrow> int multiset) \<Rightarrow> nat \<Rightarrow> buffer_kind \<Rightarrow>
     (nat \<times> nat) multiset \<Rightarrow> int multiset \<Rightarrow> run_state \<Rightarrow> 'w \<Rightarrow> bool" where
  "held sys maps fds n buffer M F rs w \<longleftrightarrow>
     mem_valid sys maps w \<and> maps w = M + mapped (rn_out_bufs rs) + mapped (rn_cap_bufs rs) \<and>
     fds w = F + owned (rn_fd rs) + owned (rn_meta_fd rs) + owned (rn_src_fd rs) \<and>
     frame_bufs n (rn_out_bufs rs) \<and> frame_bufs n (rn_cap_bufs rs) \<and> (buffer = BUF_DMABUF \<longrightarrow> mapped (rn_out_bufs rs) = {#})"

lemma held_quiet: "held sys maps fds n buffer M F rs w \<Longrightarrow> quiet sys maps fds w w' \<Longrightarrow> held sys maps fds n buffer M F rs w'"
  by (simp add: held_def quiet_def)

lemma held_frame:
  assumes "held sys maps fds n buffer M F rs w" "i < n" "n \<le> 32"
    and "bufs_ready n bufs" "bufs = rn_out_bufs rs \<or> bufs = rn_cap_bufs rs"
  obtains a D where "buf_addr bufs i = Some (a, 0)" "run_mem sys w a = Some D" "HEIGHT * WIDTH \<le> length D"
proof -
  have b: "frame_bufs n bufs" using assms(1,5) by (auto simp: held_def)
  with assms(2,3) have i: "i < length bufs" by (simp add: bufs_ok_def)
  obtain a where a: "mb_addr (bufs ! i) = Addr a"
    using assms(2,4) by (cases "mb_addr (bufs ! i)") (auto simp: bufs_ready_def unmapped_buffer_def)
  have "(a, mb_length (bufs ! i)) \<in># maps w" using mapped_member [OF i a] assms(1,5) by (auto simp: held_def)
  then obtain D where D: "run_mem sys w a = Some D" "mb_length (bufs ! i) \<le> length D"
    using assms(1) unfolding held_def mem_valid_def by blast
  have "HEIGHT * WIDTH \<le> mb_length (bufs ! i)" using b assms(2) a by (simp add: bufs_ok_def unmapped_buffer_def)
  with that [of a D] D i a show ?thesis by (simp add: buf_addr_def)
qed

section \<open>Progress\<close>

text \<open>The statistics after \<open>i\<close> frames of a run with at most \<open>d\<close> in flight.\<close>

definition tally :: "run_config \<Rightarrow> u32 \<Rightarrow> nat \<Rightarrow> run_stats \<Rightarrow> bool" where
  "tally cfg d i st \<longleftrightarrow>
     st_csum_pass st \<le> st_csum_checked st \<and> st_dropped st \<le> st_csum_checked st \<and> unat (st_csum_checked st) \<le> i \<and>
     st_verify_pass st \<le> st_verify_checked st \<and> unat (st_verify_checked st) \<le> i \<and> st_occ_max st \<le> d \<and>
     st_out_inflight st = d \<and> st_frames st = cfg_frames cfg \<and> \<not> st_ok st"

definition progress :: "run_config \<Rightarrow> u32 \<Rightarrow> nat \<Rightarrow> run_state \<Rightarrow> bool" where
  "progress cfg d i rs \<longleftrightarrow> length (rn_qbuf_ring rs) = 32 \<and> length (rn_lat rs) = unat (cfg_frames cfg) \<and>
     tally cfg d i (rn_st rs) \<and> i \<le> rn_occ_sum rs \<and> rn_occ_sum rs \<le> i * unat d"

text \<open>
  \<open>i\<close> of the submitted frames are complete; at most \<open>d\<close> are in flight, and exactly \<open>d\<close> while
  frames remain to be submitted.
\<close>

definition in_flight :: "run_config \<Rightarrow> u32 \<Rightarrow> nat \<Rightarrow> run_state \<Rightarrow> bool" where
  "in_flight cfg d i rs \<longleftrightarrow> i \<le> unat (rn_submitted rs) \<and> rn_submitted rs \<le> cfg_frames cfg \<and>
     unat (rn_submitted rs) \<le> i + unat d \<and> (rn_submitted rs < cfg_frames cfg \<longrightarrow> unat (rn_submitted rs) = i + unat d)"

definition ready :: "run_config \<Rightarrow> buffer_kind \<Rightarrow> run_state \<Rightarrow> bool" where
  "ready cfg buffer rs \<longleftrightarrow> bufs_ready (unat (cfg_queue_depth cfg)) (rn_cap_bufs rs) \<and>
     (buffer = BUF_MMAP \<longrightarrow> bufs_ready (unat (cfg_queue_depth cfg)) (rn_out_bufs rs))"

end
