(* ===== verification/Runner_Correct.thy ===== *)
theory Runner_Correct
  imports Runner_Laws
begin

text \<open>
  Correctness of the frame runner: every step of a run keeps the account of what the process
  holds, the loop keeps a bounded number of frames in flight and consistent counts, and a run,
  like the whole program, returns and releases everything on every path.
\<close>

unbundle bit_operations_syntax

definition setup_ok ::
    "('w, 'x) run_sys_scheme \<Rightarrow> ('w \<Rightarrow> (nat \<times> nat) multiset) \<Rightarrow> ('w \<Rightarrow> int multiset) \<Rightarrow> run_config \<Rightarrow> buffer_kind \<Rightarrow> u32 \<Rightarrow>
     (nat \<times> nat) multiset \<Rightarrow> int multiset \<Rightarrow> (run_state \<Rightarrow> bool) \<Rightarrow> run_state \<times> 'w \<Rightarrow> bool" where
  "setup_ok sys maps fds cfg buffer d M F P = (\<lambda>(rs, w).
     held sys maps fds (unat (cfg_queue_depth cfg)) buffer M F rs w \<and> progress cfg d 0 rs \<and> rn_submitted rs = 0 \<and> P rs)"

definition frames_ok ::
    "('w, 'x) run_sys_scheme \<Rightarrow> ('w \<Rightarrow> (nat \<times> nat) multiset) \<Rightarrow> ('w \<Rightarrow> int multiset) \<Rightarrow> run_config \<Rightarrow> buffer_kind \<Rightarrow> u32 \<Rightarrow>
     (nat \<times> nat) multiset \<Rightarrow> int multiset \<Rightarrow> nat \<Rightarrow> run_state \<times> 'w \<Rightarrow> bool" where
  "frames_ok sys maps fds cfg buffer d M F i = (\<lambda>(rs, w).
     held sys maps fds (unat (cfg_queue_depth cfg)) buffer M F rs w \<and> progress cfg d i rs \<and> in_flight cfg d i rs \<and> ready cfg buffer rs)"

definition left_ok ::
    "('w, 'x) run_sys_scheme \<Rightarrow> ('w \<Rightarrow> (nat \<times> nat) multiset) \<Rightarrow> ('w \<Rightarrow> int multiset) \<Rightarrow> run_config \<Rightarrow> buffer_kind \<Rightarrow> u32 \<Rightarrow>
     (nat \<times> nat) multiset \<Rightarrow> int multiset \<Rightarrow> run_state \<times> 'w \<Rightarrow> bool" where
  "left_ok sys maps fds cfg buffer d M F = (\<lambda>(rs, w).
     held sys maps fds (unat (cfg_queue_depth cfg)) buffer M F rs w \<and> tally cfg d (unat (cfg_frames cfg)) (rn_st rs))"

lemma tally_mono: "tally cfg d i st \<Longrightarrow> i \<le> j \<Longrightarrow> tally cfg d j st"
  by (auto simp: tally_def)

lemma setup_left: "setup_ok sys maps fds cfg buffer d M F P s \<Longrightarrow> left_ok sys maps fds cfg buffer d M F s"
  by (auto simp: setup_ok_def left_ok_def progress_def intro: tally_mono)

definition no_maps :: "run_state \<Rightarrow> bool" where
  "no_maps rs \<longleftrightarrow> mapped (rn_out_bufs rs) = {#} \<and> mapped (rn_cap_bufs rs) = {#}"

text \<open>A step that calls the system once and keeps what the invariants speak of.\<close>

lemma ends_setup:
  assumes "\<And>rs w. setup_ok sys maps fds cfg buffer d M F P (rs, w) \<Longrightarrow>
    \<exists>go rs' w'. f (rs, w) = Some (go, rs', w') \<and> quiet sys maps fds w w' \<and> progress cfg d 0 rs' \<and>
      (rn_out_bufs rs', rn_cap_bufs rs', rn_fd rs', rn_meta_fd rs', rn_src_fd rs', rn_submitted rs') =
      (rn_out_bufs rs, rn_cap_bufs rs, rn_fd rs, rn_meta_fd rs, rn_src_fd rs, rn_submitted rs) \<and> (go \<longrightarrow> Q rs')"
  shows "ends (setup_ok sys maps fds cfg buffer d M F P) f (setup_ok sys maps fds cfg buffer d M F Q) (left_ok sys maps fds cfg buffer d M F)"
proof (rule endsI)
  fix rs w assume pre: "setup_ok sys maps fds cfg buffer d M F P (rs, w)"
  from assms [OF this] obtain go rs' w' where f: "f (rs, w) = Some (go, rs', w')" "quiet sys maps fds w w'" "progress cfg d 0 rs'"
    "(rn_out_bufs rs', rn_cap_bufs rs', rn_fd rs', rn_meta_fd rs', rn_src_fd rs', rn_submitted rs') =
      (rn_out_bufs rs, rn_cap_bufs rs, rn_fd rs, rn_meta_fd rs, rn_src_fd rs, rn_submitted rs)" "go \<longrightarrow> Q rs'" by blast
  have "held sys maps fds (unat (cfg_queue_depth cfg)) buffer M F rs w" using pre by (simp add: setup_ok_def)
  from held_quiet [OF this f(2)] f(4) have "held sys maps fds (unat (cfg_queue_depth cfg)) buffer M F rs' w'" by (simp add: held_def)
  then have s: "setup_ok sys maps fds cfg buffer d M F (\<lambda>rs. go \<longrightarrow> Q rs) (rs', w')" using f pre by (simp add: setup_ok_def)
  show "\<exists>go rs' w'. f (rs, w) = Some (go, rs', w') \<and>
      (if go then setup_ok sys maps fds cfg buffer d M F Q (rs', w') else left_ok sys maps fds cfg buffer d M F (rs', w'))"
    using f(1) s setup_left [OF s] by (intro exI [of _ go] exI [of _ rs'] exI [of _ w']) (auto simp: setup_ok_def)
qed

lemma open_device_ends:
  assumes sys: "runner_system sys maps fds (cfg_queue_depth cfg)"
  shows "ends (setup_ok sys maps fds cfg buffer d M F (\<lambda>rs. rn_fd rs = -1 \<and> Q rs)) (run_open_device sys cfg)
    (setup_ok sys maps fds cfg buffer d M F (\<lambda>rs. Q (rs\<lparr>rn_fd := -1\<rparr>))) (left_ok sys maps fds cfg buffer d M F)"
proof (rule endsI)
  fix rs w assume pre: "setup_ok sys maps fds cfg buffer d M F (\<lambda>rs. rn_fd rs = -1 \<and> Q rs) (rs, w)"
  obtain r w1 where op: "run_open sys (cfg_device cfg) w = (r, w1)" by fastforce
  have laws: "run_laws sys maps fds" using sys by (simp add: tool_system_def)
  note o = run_laws_open [OF laws, where p = "cfg_device cfg" and w = w, unfolded op fst_conv snd_conv]
  show "\<exists>go rs' w'. run_open_device sys cfg (rs, w) = Some (go, rs', w') \<and>
      (if go then setup_ok sys maps fds cfg buffer d M F (\<lambda>rs. Q (rs\<lparr>rn_fd := -1\<rparr>)) (rs', w')
       else left_ok sys maps fds cfg buffer d M F (rs', w'))"
  proof (cases r)
    case (Inl e)
    then have "quiet sys maps fds w w1" using o by (simp add: quiet_def)
    then have "setup_ok sys maps fds cfg buffer d M F (\<lambda>rs. rn_fd rs = -1 \<and> Q rs) (rs, w1)"
      using pre held_quiet by (fastforce simp: setup_ok_def)
    from setup_left [OF this] show ?thesis using op Inl by (simp add: run_open_device_def)
  next
    case (Inr fd)
    obtain go w2 where b: "set_backend sys fd (if cfg_source cfg = SRC_VCAM then VPIPE_BACKEND_VCAM_DERIVED else VPIPE_BACKEND_FIXTURE) w1
        = Some (go, w2)" "quiet sys maps fds w1 w2" using set_backend_quiet [OF sys] by blast
    have "held sys maps fds (unat (cfg_queue_depth cfg)) buffer M F (rs\<lparr>rn_fd := fd\<rparr>) w1"
      using pre o Inr by (auto simp: setup_ok_def held_def owned_def)
    from held_quiet [OF this b(2)] have s: "setup_ok sys maps fds cfg buffer d M F (\<lambda>rs. Q (rs\<lparr>rn_fd := -1\<rparr>)) (rs\<lparr>rn_fd := fd\<rparr>, w2)"
      using pre by (auto simp: setup_ok_def progress_def) (metis run_state.surjective run_state.update_convs(1))
    then show ?thesis using setup_left [OF s] op Inr b(1) by (simp add: run_open_device_def)
  qed
qed

lemma formats_ends:
  assumes sys: "runner_system sys maps fds (cfg_queue_depth cfg)" and P: "\<And>rs n. P (rs\<lparr>rn_sizeimage := n\<rparr>) = P rs"
  shows "ends (setup_ok sys maps fds cfg buffer d M F P) (run_formats sys) (setup_ok sys maps fds cfg buffer d M F P) (left_ok sys maps fds cfg buffer d M F)"
proof (rule ends_setup)
  fix rs w assume pre: "setup_ok sys maps fds cfg buffer d M F P (rs, w)"
  obtain go1 w1 where c1: "vpipe_set_format sys (rn_fd rs) V4L2_BUF_TYPE_VIDEO_OUTPUT (of_nat WIDTH) (of_nat HEIGHT) V4L2_PIX_FMT_GREY w
      = Some (go1, w1)" "quiet sys maps fds w w1" using set_format_quiet [OF sys] by blast
  obtain go2 w2 where c2: "vpipe_set_format sys (rn_fd rs) V4L2_BUF_TYPE_VIDEO_CAPTURE (of_nat WIDTH) (of_nat HEIGHT) V4L2_PIX_FMT_GREY w1
      = Some (go2, w2)" "quiet sys maps fds w1 w2" using set_format_quiet [OF sys] by blast
  obtain n w3 where c3: "vpipe_get_sizeimage sys (rn_fd rs) V4L2_BUF_TYPE_VIDEO_OUTPUT w2 = Some (n, w3)" "quiet sys maps fds w2 w3"
    using get_sizeimage_quiet [OF sys] by blast
  note q2 = quiet_trans [OF c1(2) c2(2)] and q3 = quiet_trans [OF quiet_trans [OF c1(2) c2(2)] c3(2)]
  have pr: "progress cfg d 0 rs" "P rs" "progress cfg d 0 (rs\<lparr>rn_sizeimage := n\<rparr>)" using pre by (simp_all add: setup_ok_def progress_def)
  show "\<exists>go rs' w'. run_formats sys (rs, w) = Some (go, rs', w') \<and> quiet sys maps fds w w' \<and> progress cfg d 0 rs' \<and>
      (rn_out_bufs rs', rn_cap_bufs rs', rn_fd rs', rn_meta_fd rs', rn_src_fd rs', rn_submitted rs') =
      (rn_out_bufs rs, rn_cap_bufs rs, rn_fd rs, rn_meta_fd rs, rn_src_fd rs, rn_submitted rs) \<and> (go \<longrightarrow> P rs')"
    using c1 c2(1) c3(1) q2 q3 pr P by (cases go1; cases go2) (simp_all add: run_formats_def)
qed

definition quiet_fds :: "run_state \<Rightarrow> bool" where
  "quiet_fds rs \<longleftrightarrow> rn_meta_fd rs = -1 \<and> rn_src_fd rs = -1"

lemma request_ends:
  assumes sys: "runner_system sys maps fds (cfg_queue_depth cfg)" and n: "2 \<le> cfg_queue_depth cfg" "cfg_queue_depth cfg \<le> 32"
  shows "ends (setup_ok sys maps fds cfg buffer d M F (\<lambda>rs. quiet_fds rs \<and> no_maps rs)) (run_request sys cfg buffer)
    (setup_ok sys maps fds cfg buffer d M F (\<lambda>rs. quiet_fds rs \<and> ready cfg buffer rs)) (left_ok sys maps fds cfg buffer d M F)"
proof -
  have depth: "unat (cfg_queue_depth cfg) \<le> 32" using n(2) by (simp add: word_le_nat_alt)
  let ?n = "unat (cfg_queue_depth cfg)"
  let ?S = "setup_ok sys maps fds cfg buffer d M F" and ?R = "left_ok sys maps fds cfg buffer d M F"
  let ?T = "?S (\<lambda>rs. quiet_fds rs \<and> mapped (rn_cap_bufs rs) = {#} \<and> (buffer = BUF_MMAP \<longrightarrow> bufs_ready ?n (rn_out_bufs rs)))"
  show ?thesis unfolding run_request_def
  proof (rule ends_andthen [where Q = ?T]; rule endsI)
    fix rs w assume pre: "?S (\<lambda>rs. quiet_fds rs \<and> no_maps rs) (rs, w)"
    let ?f = "\<lambda>(rs, w). if buffer = BUF_DMABUF then do {
          (r, w) \<leftarrow> vpipe_xioctl sys (rn_fd rs) (VIDIOC_REQBUFS 1 V4L2_BUF_TYPE_VIDEO_OUTPUT V4L2_MEMORY_DMABUF) w;
          Some (ok r, rs, w) }
        else do {
          (n, bufs, w) \<leftarrow> vpipe_request_mmap_buffers sys (rn_fd rs) V4L2_BUF_TYPE_VIDEO_OUTPUT (cfg_queue_depth cfg) (rn_out_bufs rs) w;
          Some (n \<noteq> None, rs\<lparr>rn_out_bufs := bufs\<rparr>, w) }"
    show "\<exists>go rs' w'. ?f (rs, w) = Some (go, rs', w') \<and> (if go then ?T (rs', w') else ?R (rs', w'))"
    proof (cases buffer)
      case BUF_DMABUF
      obtain r w1 where x: "vpipe_xioctl sys (rn_fd rs) (VIDIOC_REQBUFS 1 V4L2_BUF_TYPE_VIDEO_OUTPUT V4L2_MEMORY_DMABUF) w = Some (r, w1)"
        "quiet sys maps fds w w1" using system_xioctl [OF sys, of "VIDIOC_REQBUFS 1 V4L2_BUF_TYPE_VIDEO_OUTPUT V4L2_MEMORY_DMABUF" "rn_fd rs" w] by auto
      then have s: "?T (rs, w1)" using pre held_quiet BUF_DMABUF by (fastforce simp: setup_ok_def no_maps_def)
      then show ?thesis using x(1) setup_left [OF s] BUF_DMABUF by (cases "ok r") auto
    next
      case BUF_MMAP
      obtain res bufs w1 where q: "vpipe_request_mmap_buffers sys (rn_fd rs) V4L2_BUF_TYPE_VIDEO_OUTPUT (cfg_queue_depth cfg) (rn_out_bufs rs) w
          = Some (res, bufs, w1)" "frame_bufs ?n bufs" "maps w1 = maps w + mapped bufs" "fds w1 = fds w" "mem_valid sys maps w1"
        "res \<noteq> None \<longrightarrow> bufs_ready ?n bufs"
        using request_run [OF sys n(1) depth, of "rn_out_bufs rs" w "rn_fd rs" V4L2_BUF_TYPE_VIDEO_OUTPUT] pre
        by (auto simp: setup_ok_def held_def no_maps_def)
      have "?S (\<lambda>rs. quiet_fds rs \<and> mapped (rn_cap_bufs rs) = {#} \<and> rn_out_bufs rs = bufs) (rs\<lparr>rn_out_bufs := bufs\<rparr>, w1)"
        using pre q(2-5) BUF_MMAP by (auto simp: setup_ok_def held_def no_maps_def quiet_fds_def progress_def)
      with setup_left [OF this] show ?thesis using q(1,6) BUF_MMAP by (cases res) (auto simp: setup_ok_def)
    qed
  next
    fix rs w assume pre: "?T (rs, w)"
    let ?f = "\<lambda>(rs, w). do {
          (n, bufs, w) \<leftarrow> vpipe_request_mmap_buffers sys (rn_fd rs) V4L2_BUF_TYPE_VIDEO_CAPTURE (cfg_queue_depth cfg) (rn_cap_bufs rs) w;
          Some (n \<noteq> None, rs\<lparr>rn_cap_bufs := bufs\<rparr>, w) }"
    obtain res bufs w1 where q: "vpipe_request_mmap_buffers sys (rn_fd rs) V4L2_BUF_TYPE_VIDEO_CAPTURE (cfg_queue_depth cfg) (rn_cap_bufs rs) w
        = Some (res, bufs, w1)" "frame_bufs ?n bufs" "maps w1 = maps w + mapped bufs" "fds w1 = fds w" "mem_valid sys maps w1"
      "res \<noteq> None \<longrightarrow> bufs_ready ?n bufs"
      using request_run [OF sys n(1) depth, of "rn_cap_bufs rs" w "rn_fd rs" V4L2_BUF_TYPE_VIDEO_CAPTURE] pre
      by (auto simp: setup_ok_def held_def no_maps_def)
    have "?S (\<lambda>rs. quiet_fds rs \<and> rn_cap_bufs rs = bufs \<and> (buffer = BUF_MMAP \<longrightarrow> bufs_ready ?n (rn_out_bufs rs))) (rs\<lparr>rn_cap_bufs := bufs\<rparr>, w1)"
      using pre q(2-5) by (auto simp: setup_ok_def held_def quiet_fds_def progress_def)
    with setup_left [OF this] show "\<exists>go rs' w'. ?f (rs, w) = Some (go, rs', w') \<and>
        (if go then ?S (\<lambda>rs. quiet_fds rs \<and> ready cfg buffer rs) (rs', w') else ?R (rs', w'))"
      using q(1,6) by (cases res) (auto simp: setup_ok_def ready_def)
  qed
qed

lemma outputs_ends:
  assumes sys: "runner_system sys maps fds (cfg_queue_depth cfg)"
  shows "ends (setup_ok sys maps fds cfg buffer d M F (\<lambda>rs. quiet_fds rs \<and> ready cfg buffer rs)) (run_outputs sys dup csv)
    (setup_ok sys maps fds cfg buffer d M F (\<lambda>rs. rn_src_fd rs = -1 \<and> ready cfg buffer rs)) (left_ok sys maps fds cfg buffer d M F)"
proof (rule endsI)
  fix rs w
  let ?S = "setup_ok sys maps fds cfg buffer d M F" and ?R = "left_ok sys maps fds cfg buffer d M F"
  let ?P = "\<lambda>rs. quiet_fds rs \<and> ready cfg buffer rs"
  assume pre: "?S ?P (rs, w)"
  have laws: "run_laws sys maps fds" using sys by (simp add: tool_system_def)
  obtain go w1 where a: "set_algo_none sys (rn_fd rs) w = Some (go, w1)" "quiet sys maps fds w w1"
    using set_algo_none_quiet [OF sys] by blast
  obtain opened w2 where b: "vpipe_open_csv (run_fs sys) dup csv (Some run_csv_header) w1 = (opened, w2)" by fastforce
  obtain r w3 where c: "run_open sys ''/dev/vpipe-meta'' w2 = (r, w3)" by fastforce
  note o = run_laws_open [OF laws, where p = "''/dev/vpipe-meta''" and w = w2, unfolded c fst_conv snd_conv]
  have q: "?S ?P (rs, w1)" "?S ?P (rs, w2)"
    using pre held_quiet [OF _ a(2)] held_quiet [OF _ quiet_trans [OF a(2) open_csv_quiet [OF laws b]]] by (auto simp: setup_ok_def)
  let ?fd = "case r of Inl _ \<Rightarrow> -1 | Inr fd \<Rightarrow> fd"
  let ?rs = "rs\<lparr>rn_fp := True, rn_meta_fd := ?fd, rn_st := (rn_st rs)\<lparr>st_meta_available := 0 \<le> ?fd\<rparr>\<rparr>"
  have "?S (\<lambda>rs. rn_src_fd rs = -1 \<and> ready cfg buffer rs) (?rs, w3)"
    using q(2) o by (cases r) (auto simp: setup_ok_def held_def owned_def quiet_fds_def progress_def tally_def ready_def)
  then show "\<exists>go rs' w'. run_outputs sys dup csv (rs, w) = Some (go, rs', w') \<and>
      (if go then ?S (\<lambda>rs. rn_src_fd rs = -1 \<and> ready cfg buffer rs) (rs', w') else ?R (rs', w'))"
    using a(1) b c setup_left [OF q(1)] setup_left [OF q(2)]
    by (cases go; cases opened) (simp_all add: run_outputs_def Let_def)
qed

lemma queue_capture_ends:
  assumes sys: "runner_system sys maps fds (cfg_queue_depth cfg)"
  shows "ends (setup_ok sys maps fds cfg buffer d M F P) (run_queue_capture sys i) (setup_ok sys maps fds cfg buffer d M F P) (left_ok sys maps fds cfg buffer d M F)"
proof (rule ends_setup)
  fix rs w assume pre: "setup_ok sys maps fds cfg buffer d M F P (rs, w)"
  obtain go w1 where "vpipe_queue_mmap_buffer sys (rn_fd rs) V4L2_BUF_TYPE_VIDEO_CAPTURE V4L2_MEMORY_MMAP (of_nat i) (-1) w = Some (go, w1)"
    "quiet sys maps fds w w1" using queue_mmap_quiet [OF sys] by blast
  then show "\<exists>go rs' w'. run_queue_capture sys i (rs, w) = Some (go, rs', w') \<and> quiet sys maps fds w w' \<and> progress cfg d 0 rs' \<and>
      (rn_out_bufs rs', rn_cap_bufs rs', rn_fd rs', rn_meta_fd rs', rn_src_fd rs', rn_submitted rs') =
      (rn_out_bufs rs, rn_cap_bufs rs, rn_fd rs, rn_meta_fd rs, rn_src_fd rs, rn_submitted rs) \<and> (go \<longrightarrow> P rs')"
    using pre by (simp add: run_queue_capture_def setup_ok_def)
qed

lemma streamon_ends:
  assumes sys: "runner_system sys maps fds (cfg_queue_depth cfg)"
    and P: "\<And>rs b. P (rs\<lparr>rn_cap_streaming := b\<rparr>) = P rs" "\<And>rs b. P (rs\<lparr>rn_out_streaming := b\<rparr>) = P rs"
  shows "ends (setup_ok sys maps fds cfg buffer d M F P) (run_streamon sys) (setup_ok sys maps fds cfg buffer d M F P) (left_ok sys maps fds cfg buffer d M F)"
proof (rule ends_setup)
  fix rs w assume pre: "setup_ok sys maps fds cfg buffer d M F P (rs, w)"
  obtain r1 w1 where a: "vpipe_xioctl sys (rn_fd rs) (VIDIOC_STREAMON V4L2_BUF_TYPE_VIDEO_CAPTURE) w = Some (r1, w1)" "quiet sys maps fds w w1"
    using system_xioctl [OF sys, of "VIDIOC_STREAMON V4L2_BUF_TYPE_VIDEO_CAPTURE" "rn_fd rs" w] by auto
  obtain r2 w2 where b: "vpipe_xioctl sys (rn_fd rs) (VIDIOC_STREAMON V4L2_BUF_TYPE_VIDEO_OUTPUT) w1 = Some (r2, w2)" "quiet sys maps fds w1 w2"
    using system_xioctl [OF sys, of "VIDIOC_STREAMON V4L2_BUF_TYPE_VIDEO_OUTPUT" "rn_fd rs" w1] by auto
  show "\<exists>go rs' w'. run_streamon sys (rs, w) = Some (go, rs', w') \<and> quiet sys maps fds w w' \<and> progress cfg d 0 rs' \<and>
      (rn_out_bufs rs', rn_cap_bufs rs', rn_fd rs', rn_meta_fd rs', rn_src_fd rs', rn_submitted rs') =
      (rn_out_bufs rs, rn_cap_bufs rs, rn_fd rs, rn_meta_fd rs, rn_src_fd rs, rn_submitted rs) \<and> (go \<longrightarrow> P rs')"
    using pre a b(1) quiet_trans [OF a(2) b(2)] P by (cases "ok r1"; cases "ok r2") (simp_all add: run_streamon_def setup_ok_def progress_def)
qed

lemma export_ends:
  assumes sys: "runner_system sys maps fds (cfg_queue_depth cfg)"
  shows "ends (setup_ok sys maps fds cfg buffer d M F (\<lambda>rs. rn_src_fd rs = -1 \<and> ready cfg buffer rs)) (run_export sys cfg buffer)
    (setup_ok sys maps fds cfg buffer d M F (ready cfg buffer)) (left_ok sys maps fds cfg buffer d M F)"
proof (rule endsI)
  fix rs w
  let ?S = "setup_ok sys maps fds cfg buffer d M F" and ?R = "left_ok sys maps fds cfg buffer d M F"
  assume pre: "?S (\<lambda>rs. rn_src_fd rs = -1 \<and> ready cfg buffer rs) (rs, w)"
  have pacer: "?S (ready cfg buffer) (rs\<lparr>rn_pacer := p\<rparr>, w)" if "?S (ready cfg buffer) (rs, w)" for rs p w
    using that by (simp add: setup_ok_def held_def progress_def ready_def)
  show "\<exists>go rs' w'. run_export sys cfg buffer (rs, w) = Some (go, rs', w') \<and>
      (if go then ?S (ready cfg buffer) (rs', w') else ?R (rs', w'))"
  proof (cases buffer)
    case BUF_MMAP
    have "?S (ready cfg buffer) (rs, w)" using pre by (simp add: setup_ok_def)
    from pacer [OF this] show ?thesis using BUF_MMAP by (simp add: run_export_def)
  next
    case BUF_DMABUF
    have "sys_laws sys maps" "run_laws sys maps fds" using sys by (simp_all add: tool_system_def)
    then obtain r w1 where x: "vpipe_xioctl sys (rn_fd rs) IOC_EXPORT_SRC_DMABUF w = Some (r, w1)" "maps w1 = maps w"
      "fds w1 = fds w + exported r" "mem_valid sys maps w \<longrightarrow> mem_valid sys maps w1"
      using xioctl_run [of sys maps fds "rn_fd rs" IOC_EXPORT_SRC_DMABUF w] by metis
    show ?thesis
    proof (cases "\<exists>fd. r = Inr (Reply_Fd fd)")
      case True
      then obtain fd where fd: "r = Inr (Reply_Fd fd)" by blast
      then have s: "?S (ready cfg buffer) (rs\<lparr>rn_src_fd := fd\<rparr>, w1)"
        using pre x(2-4) by (auto simp: setup_ok_def held_def progress_def ready_def owned_def exported_def)
      show ?thesis using pacer [OF s] setup_left [OF s] x(1) fd BUF_DMABUF by (cases "0 \<le> fd") (simp_all add: run_export_def)
    next
      case False
      then have "exported r = {#}" by (auto simp: exported_def split: sum.splits v4l2_reply.splits)
      then have s: "?S (ready cfg buffer) (rs, w1)" using pre x(2-4) by (auto simp: setup_ok_def held_def)
      have "run_export sys cfg buffer (rs, w) = Some (False, rs, w1)"
        using x(1) False BUF_DMABUF by (auto simp: run_export_def split: sum.splits v4l2_reply.splits)
      then show ?thesis using setup_left [OF s] by simp
    qed
  qed
qed

section \<open>The frames\<close>

lemma unat_Suc_bounded: "unat (x::u32) < unat (f::u32) \<Longrightarrow> unat (x + 1) = Suc (unat x)"
  using unsigned_less [of f, where ?'a = nat] by (simp add: unat_word_ariths)

lemma submit_run:
  assumes sys: "runner_system sys maps fds (cfg_queue_depth cfg)" and n: "2 \<le> cfg_queue_depth cfg" "cfg_queue_depth cfg \<le> 32"
    and held: "held sys maps fds (unat (cfg_queue_depth cfg)) buffer M F rs w" and rdy: "ready cfg buffer rs"
    and ring: "length (rn_qbuf_ring rs) = 32" and idx: "idx < cfg_queue_depth cfg"
  shows "\<exists>go p t w'. submit_output sys cfg buffer f idx (rs, w) =
      Some (go, rs\<lparr>rn_pacer := p, rn_qbuf_ring := (rn_qbuf_ring rs)[unat f mod unat (cfg_queue_depth cfg) := t]\<rparr>, w') \<and>
      quiet sys maps fds w w'"
proof -
  have laws: "run_laws sys maps fds" using sys by (simp add: tool_system_def)
  have dn: "0 < unat (cfg_queue_depth cfg)" "unat (cfg_queue_depth cfg) \<le> 32" "cfg_queue_depth cfg \<noteq> 0"
    using n by (auto simp: word_le_nat_alt unat_gt_0)
  then have slot: "unat f mod unat (cfg_queue_depth cfg) < 32" by (meson mod_less_divisor order_less_le_trans)
  obtain p w1 where a: "pace sys (rn_pacer rs) w = (p, w1)" by fastforce
  obtain t w2 where b: "now_ns sys w1 = (t, w2)" by fastforce
  have q2: "quiet sys maps fds w w2" by (rule quiet_trans [OF pace_quiet [OF laws a] now_quiet [OF laws b]])
  show ?thesis
  proof (cases buffer)
    case BUF_DMABUF
    obtain go w3 where c: "queue_output_dmabuf sys (rn_fd rs) (rn_src_fd rs) (rn_sizeimage rs) w2 = Some (go, w3)" "quiet sys maps fds w2 w3"
      using queue_dmabuf_quiet [OF sys] by blast
    from quiet_trans [OF q2 c(2)] show ?thesis
      using a b c(1) BUF_DMABUF dn slot ring
      by (intro exI [of _ go] exI [of _ p] exI [of _ t] exI [of _ w3]) (simp add: submit_output_def Let_def)
  next
    case BUF_MMAP
    have "unat idx < unat (cfg_queue_depth cfg)" using idx by (simp add: word_less_nat_alt)
    then obtain ad D where D: "buf_addr (rn_out_bufs rs) (unat idx) = Some (ad, 0)" "run_mem sys w2 ad = Some D" "HEIGHT * WIDTH \<le> length D"
      using held_frame [OF held_quiet [OF held q2]] rdy BUF_MMAP dn unfolding ready_def by metis
    let ?m = "(run_mem sys w2)(ad \<mapsto> draw 0 0 WIDTH HEIGHT WIDTH (gradient (ucast f)) D)"
    define w3 where "w3 = (if cfg_source cfg = SRC_FIXTURE then run_put sys ?m w2 else w2)"
    have q3: "quiet sys maps fds w w3"
      using quiet_trans [OF q2 put_quiet [OF laws D(2)], of "draw 0 0 WIDTH HEIGHT WIDTH (gradient (ucast f)) D"] q2 by (simp add: w3_def)
    have fill: "fill_gradient (ad, 0) f (run_mem sys w2) = Some ?m" using fill_gradient_draws [where m = "run_mem sys w2", OF D(2,3)] .
    obtain go w4 where c: "vpipe_queue_mmap_buffer sys (rn_fd rs) V4L2_BUF_TYPE_VIDEO_OUTPUT V4L2_MEMORY_MMAP idx (-1) w3 = Some (go, w4)"
      "quiet sys maps fds w3 w4" using queue_mmap_quiet [OF sys] by blast
    from quiet_trans [OF q3 c(2)] show ?thesis
      using a b c(1) BUF_MMAP dn slot ring fill D(1)
      by (intro exI [of _ go] exI [of _ p] exI [of _ t] exI [of _ w4]) (cases "cfg_source cfg"; simp add: submit_output_def w3_def Let_def)
  qed
qed

lemma tally_meta:
  assumes "tally cfg d i st" "i < unat (cfg_frames cfg)" "st' = count_meta meta crc st"
  shows "st_csum_pass st' \<le> st_csum_checked st'" "st_dropped st' \<le> st_csum_checked st'" "unat (st_csum_checked st') \<le> Suc i"
    "(st_verify_pass st', st_verify_checked st', st_occ_max st', st_out_inflight st', st_frames st', st_ok st') =
     (st_verify_pass st, st_verify_checked st, st_occ_max st, st_out_inflight st, st_frames st, st_ok st)"
proof -
  have c: "unat (st_csum_checked st) < unat (cfg_frames cfg)" "st_csum_pass st \<le> st_csum_checked st" "st_dropped st \<le> st_csum_checked st"
    "unat (st_csum_checked st) \<le> i" using assms(1,2) by (auto simp: tally_def)
  have up: "x + (if b then 1 else 0) \<le> st_csum_checked st + 1" if "x \<le> st_csum_checked st" for x b
    using that c(1) unat_Suc_bounded [OF c(1)] unat_Suc_bounded [of x "cfg_frames cfg"] by (auto simp: word_le_nat_alt)
  show "st_csum_pass st' \<le> st_csum_checked st'" "st_dropped st' \<le> st_csum_checked st'"
    using up [of "st_csum_pass st" "crc = me_crc32 (the meta)"] up [of "st_dropped st" "meta_dropped meta"] c assms(3)
    by (cases meta; simp add: count_meta_def)+
  show "unat (st_csum_checked st') \<le> Suc i" using unat_Suc_bounded [OF c(1)] c(4) assms(3) by (cases meta) (auto simp: count_meta_def)
  show "(st_verify_pass st', st_verify_checked st', st_occ_max st', st_out_inflight st', st_frames st', st_ok st') =
     (st_verify_pass st, st_verify_checked st, st_occ_max st, st_out_inflight st, st_frames st, st_ok st)"
    using assms(3) by (cases meta) (simp_all add: count_meta_def)
qed

lemma pattern_run:
  assumes "held sys maps fds n buffer M F rs w" "bufs_ready n (rn_cap_bufs rs)" "i < n" "n \<le> 32"
  shows "\<exists>b c. count_pattern cfg dropped (run_mem sys w) (rn_cap_bufs rs) i st =
     Some (st\<lparr>st_verify_checked := st_verify_checked st + (if b then 1 else 0), st_verify_pass := st_verify_pass st + (if b \<and> c then 1 else 0)\<rparr>)"
proof -
  obtain a D where D: "buf_addr (rn_cap_bufs rs) i = Some (a, 0)" "run_mem sys w a = Some D" "HEIGHT * WIDTH \<le> length D"
    using held_frame [OF assms(1,3,4,2)] by blast
  let ?b = "cfg_verify_pattern cfg \<and> cfg_source cfg = SRC_VCAM \<and> \<not> dropped"
  show ?thesis
    using D(1) verify_gradient_picture [where m = "run_mem sys w", OF D(2,3)]
    by (intro exI [of _ ?b] exI [of _ "gradient_picture D"]) (simp add: count_pattern_def)
qed

lemma check_frame_run:
  assumes sys: "runner_system sys maps fds (cfg_queue_depth cfg)" and n: "2 \<le> cfg_queue_depth cfg" "cfg_queue_depth cfg \<le> 32"
    and held: "held sys maps fds (unat (cfg_queue_depth cfg)) buffer M F rs w" and rdy: "ready cfg buffer rs"
    and len: "length (rn_qbuf_ring rs) = 32" "length (rn_lat rs) = unat (cfg_frames cfg)" "i < unat (cfg_frames cfg)"
    and idx: "index < cfg_queue_depth cfg" "unat bytesused \<le> HEIGHT * WIDTH" and tally: "tally cfg d i (rn_st rs)"
  shows "\<exists>crc st w'. run_check_frame sys cfg csv i index bytesused t_dq (rs, w) =
      Some (True, rs\<lparr>rn_crc := crc, rn_lat := (rn_lat rs)[i := t_dq - rn_qbuf_ring rs ! (i mod unat (cfg_queue_depth cfg))], rn_st := st\<rparr>, w') \<and>
      quiet sys maps fds w w' \<and> tally cfg d (Suc i) st"
proof -
  let ?n = "unat (cfg_queue_depth cfg)"
  have laws: "run_laws sys maps fds" using sys by (simp add: tool_system_def)
  have dn: "0 < ?n" "?n \<le> 32" using n by (auto simp: word_le_nat_alt)
  then have slot: "i mod ?n < 32" by (meson mod_less_divisor order_less_le_trans)
  have ix: "unat index < ?n" using idx(1) by (simp add: word_less_nat_alt)
  have cap: "bufs_ready ?n (rn_cap_bufs rs)" using rdy by (simp add: ready_def)
  obtain a D where D: "buf_addr (rn_cap_bufs rs) (unat index) = Some (a, 0)" "run_mem sys w a = Some D" "HEIGHT * WIDTH \<le> length D"
    using held_frame [OF held ix dn(2) cap] by blast
  have bytes: "buf_bytes (run_mem sys w) (rn_cap_bufs rs) (unat index) (unat bytesused) = Some (take (unat bytesused) D)"
    using D idx(2) load_bytes_block [where m = "run_mem sys w", OF D(2), of "unat bytesused"] by (simp add: buf_bytes_def)
  obtain cu crc where c: "vpipe_crc32 (take (unat bytesused) D) (rn_crc rs) = (cu, crc)" by fastforce
  obtain meta w1 where m: "read_meta sys (rn_meta_fd rs) w = (meta, w1)" by fastforce
  note q1 = read_meta_quiet [OF laws m]
  define st1 where "st1 = count_meta meta cu (rn_st rs)"
  note t1 = tally_meta [OF tally len(3) st1_def]
  obtain b v where p: "count_pattern cfg (meta_dropped meta) (run_mem sys w1) (rn_cap_bufs rs) (unat index) st1 =
     Some (st1\<lparr>st_verify_checked := st_verify_checked st1 + (if b then 1 else 0), st_verify_pass := st_verify_pass st1 + (if b \<and> v then 1 else 0)\<rparr>)"
    using pattern_run [OF held_quiet [OF held q1] cap ix dn(2)] by blast
  define st where "st = st1\<lparr>st_verify_checked := st_verify_checked st1 + (if b then 1 else 0), st_verify_pass := st_verify_pass st1 + (if b \<and> v then 1 else 0)\<rparr>"
  have vc: "unat (st_verify_checked (rn_st rs)) < unat (cfg_frames cfg)" "st_verify_pass (rn_st rs) \<le> st_verify_checked (rn_st rs)"
    "unat (st_verify_checked (rn_st rs)) \<le> i" using tally len(3) by (auto simp: tally_def)
  have "st_verify_pass st \<le> st_verify_checked st" "unat (st_verify_checked st) \<le> Suc i"
    using t1(4) vc unat_Suc_bounded [OF vc(1)] unat_Suc_bounded [of "st_verify_pass (rn_st rs)" "cfg_frames cfg"]
    by (auto simp: st_def word_le_nat_alt)
  with t1 tally have ok: "tally cfg d (Suc i) st" by (simp add: tally_def st_def)
  let ?row = "run_csv_row i (rn_qbuf_ring rs ! (i mod ?n)) t_dq (t_dq - rn_qbuf_ring rs ! (i mod ?n)) meta cu (meta_dropped meta)"
  have "run_check_frame sys cfg csv i index bytesused t_dq (rs, w) =
      Some (True, rs\<lparr>rn_crc := crc, rn_lat := (rn_lat rs)[i := t_dq - rn_qbuf_ring rs ! (i mod ?n)], rn_st := st\<rparr>,
        snd (os_fwrite (run_fs sys) csv ?row w1))"
    using bytes c m p slot len by (simp add: run_check_frame_def st1_def [symmetric] st_def [symmetric] Let_def)
  with ok quiet_trans [OF q1 run_laws_quiet(6) [OF laws]] show ?thesis by blast
qed

lemma dqbuf_output:
  assumes "runner_system sys maps fds depth"
  obtains b w' where "dqbuf sys fd V4L2_BUF_TYPE_VIDEO_OUTPUT memory w = Some (b, w')" "quiet sys maps fds w w'"
    "case b of None \<Rightarrow> True | Some b \<Rightarrow> ub_index b < depth"
  using dqbuf_quiet [OF assms, of fd V4L2_BUF_TYPE_VIDEO_OUTPUT memory w] by (auto simp only: simp_thms if_True)

lemma dqbuf_capture:
  assumes "runner_system sys maps fds depth"
  obtains b w' where "dqbuf sys fd V4L2_BUF_TYPE_VIDEO_CAPTURE memory w = Some (b, w')" "quiet sys maps fds w w'"
    "case b of None \<Rightarrow> True | Some b \<Rightarrow> unat (ub_bytesused b) \<le> HEIGHT * WIDTH"
  using dqbuf_quiet [OF assms, of fd V4L2_BUF_TYPE_VIDEO_CAPTURE memory w] by (auto simp only: simp_thms buf_type.distinct if_False)

lemma refill_run:
  assumes sys: "runner_system sys maps fds (cfg_queue_depth cfg)" and n: "2 \<le> cfg_queue_depth cfg" "cfg_queue_depth cfg \<le> 32"
    and held: "held sys maps fds (unat (cfg_queue_depth cfg)) buffer M F rs w" and rdy: "ready cfg buffer rs"
    and ring: "length (rn_qbuf_ring rs) = 32"
  shows "\<exists>go p ring' s w'. run_refill sys cfg buffer index (rs, w) =
      Some (go, rs\<lparr>rn_pacer := p, rn_qbuf_ring := ring', rn_submitted := s\<rparr>, w') \<and> quiet sys maps fds w w' \<and> length ring' = 32 \<and>
      (\<forall>k. rn_submitted rs < cfg_frames cfg \<longrightarrow> k \<noteq> unat (rn_submitted rs) mod unat (cfg_queue_depth cfg) \<longrightarrow> ring' ! k = rn_qbuf_ring rs ! k) \<and>
      (rn_submitted rs \<ge> cfg_frames cfg \<longrightarrow> ring' = rn_qbuf_ring rs) \<and>
      (go \<longrightarrow> s = (if rn_submitted rs < cfg_frames cfg then rn_submitted rs + 1 else rn_submitted rs))"
proof -
  let ?mem = "if buffer = BUF_DMABUF then V4L2_MEMORY_DMABUF else V4L2_MEMORY_MMAP"
  have same: "rs = rs\<lparr>rn_pacer := rn_pacer rs, rn_qbuf_ring := rn_qbuf_ring rs, rn_submitted := rn_submitted rs\<rparr>" by simp
  obtain go w1 where a: "vpipe_queue_mmap_buffer sys (rn_fd rs) V4L2_BUF_TYPE_VIDEO_CAPTURE V4L2_MEMORY_MMAP index (-1) w = Some (go, w1)"
    "quiet sys maps fds w w1" using queue_mmap_quiet [OF sys] by blast
  obtain b w2 where d: "dqbuf sys (rn_fd rs) V4L2_BUF_TYPE_VIDEO_OUTPUT ?mem w1 = Some (b, w2)" "quiet sys maps fds w1 w2"
    "case b of None \<Rightarrow> True | Some b \<Rightarrow> ub_index b < cfg_queue_depth cfg"
    by (rule dqbuf_output [OF sys])
  note q2 = quiet_trans [OF a(2) d(2)]
  show ?thesis
  proof (cases "go \<and> b \<noteq> None \<and> rn_submitted rs < cfg_frames cfg")
    case True
    then obtain ob where ob: "b = Some ob" by blast
    then have ix: "ub_index ob < cfg_queue_depth cfg" using d(3) by simp
    obtain go2 p t w3 where s: "submit_output sys cfg buffer (rn_submitted rs) (ub_index ob) (rs, w2) =
        Some (go2, rs\<lparr>rn_pacer := p, rn_qbuf_ring := (rn_qbuf_ring rs)[unat (rn_submitted rs) mod unat (cfg_queue_depth cfg) := t]\<rparr>, w3)"
      "quiet sys maps fds w2 w3"
      using submit_run [OF sys n held_quiet [OF held q2] rdy ring ix] by blast
    let ?s = "if go2 then rn_submitted rs + 1 else rn_submitted rs"
    let ?ring = "(rn_qbuf_ring rs)[unat (rn_submitted rs) mod unat (cfg_queue_depth cfg) := t]"
    have "run_refill sys cfg buffer index (rs, w) = Some (go2, rs\<lparr>rn_pacer := p, rn_qbuf_ring := ?ring, rn_submitted := ?s\<rparr>, w3)"
      using a(1) d(1) s(1) True ob by (auto simp: run_refill_def)
    then show ?thesis using quiet_trans [OF q2 s(2)] ring True
      by (intro exI [of _ go2] exI [of _ p] exI [of _ ?ring] exI [of _ ?s] exI [of _ w3]) auto
  next
    case False
    define v where "v = (if go then w2 else w1)"
    have "run_refill sys cfg buffer index (rs, w) = Some (go \<and> b \<noteq> None, rs, v)"
      using a(1) d(1) False by (cases b) (auto simp: run_refill_def v_def)
    moreover have "quiet sys maps fds w v" using a(2) q2 by (simp add: v_def)
    ultimately show ?thesis using ring False same
      by (intro exI [of _ "go \<and> b \<noteq> None"] exI [of _ "rn_pacer rs"] exI [of _ "rn_qbuf_ring rs"] exI [of _ "rn_submitted rs"] exI [of _ v]) auto
  qed
qed

text \<open>Slots of different frames in flight differ.\<close>

lemma slot_distinct:
  assumes "i < f" "f < s" "s \<le> i + (n::nat)"
  shows "f mod n \<noteq> s mod n"
proof
  assume "f mod n = s mod n"
  then have "n dvd s - f" using assms(2) mod_eq_dvd_iff_nat [of f s n] by simp
  then show False using assms by (auto dest!: dvd_imp_le)
qed

lemma occupancy_ok:
  assumes P: "progress cfg d i rs" "in_flight cfg d i rs" and i: "i < unat (cfg_frames cfg)" and d: "1 \<le> d"
  shows "tally cfg d i (rn_st (run_occupancy i rs))" "Suc i \<le> rn_occ_sum (run_occupancy i rs)"
    "rn_occ_sum (run_occupancy i rs) \<le> Suc i * unat d"
proof -
  define infl where "infl = rn_submitted rs - of_nat i"
  have i32: "i \<le> unat (rn_submitted rs)" using P(2) by (simp add: in_flight_def)
  then have "i < 2 ^ 32" using unsigned_less [of "rn_submitted rs", where ?'a = nat] by simp
  then have "unat (of_nat i :: u32) = i" by (simp add: unat_of_nat take_bit_eq_mod)
  then have "unat infl = unat (rn_submitted rs) - i" using i32 by (simp add: infl_def unat_sub word_le_nat_alt)
  then have infl: "infl \<le> d" "1 \<le> unat infl"
    using P(2) i d by (auto simp: in_flight_def word_le_nat_alt word_less_nat_alt not_less)
  have eq: "run_occupancy i rs = rs\<lparr>rn_occ_sum := rn_occ_sum rs + unat infl,
     rn_st := (rn_st rs)\<lparr>st_occ_max := (if infl > st_occ_max (rn_st rs) then infl else st_occ_max (rn_st rs))\<rparr>\<rparr>"
    by (simp add: run_occupancy_def infl_def Let_def)
  show "tally cfg d i (rn_st (run_occupancy i rs))" using P(1) infl by (simp add: eq progress_def tally_def)
  show "Suc i \<le> rn_occ_sum (run_occupancy i rs)" "rn_occ_sum (run_occupancy i rs) \<le> Suc i * unat d"
    using P(1) infl by (auto simp: eq progress_def word_le_nat_alt)
qed

lemma run_occupancy_same [simp]:
  "rn_fd (run_occupancy i rs) = rn_fd rs" "rn_meta_fd (run_occupancy i rs) = rn_meta_fd rs" "rn_src_fd (run_occupancy i rs) = rn_src_fd rs"
  "rn_out_bufs (run_occupancy i rs) = rn_out_bufs rs" "rn_cap_bufs (run_occupancy i rs) = rn_cap_bufs rs"
  "rn_qbuf_ring (run_occupancy i rs) = rn_qbuf_ring rs" "rn_lat (run_occupancy i rs) = rn_lat rs" "rn_submitted (run_occupancy i rs) = rn_submitted rs"
  by (simp_all add: run_occupancy_def Let_def)

text \<open>
  The second half of a turn, from a state \<open>rs\<close> in which the frame's checks are done: the
  next frame is submitted, and the slots of the frames in flight are kept.
\<close>

lemma refill_frames:
  assumes sys: "runner_system sys maps fds (cfg_queue_depth cfg)" and n: "2 \<le> cfg_queue_depth cfg" "cfg_queue_depth cfg \<le> 32"
    and d: "1 \<le> d" "d \<le> cfg_queue_depth cfg" and i: "i < unat (cfg_frames cfg)"
    and held: "held sys maps fds (unat (cfg_queue_depth cfg)) buffer M F rs w" and rdy: "ready cfg buffer rs"
    and pr: "progress cfg d (Suc i) rs" and fl: "in_flight cfg d i rs"
  shows "\<exists>go rs' w'. run_refill sys cfg buffer index (rs, w) = Some (go, rs', w') \<and> left_ok sys maps fds cfg buffer d M F (rs', w') \<and>
      (go \<longrightarrow> frames_ok sys maps fds cfg buffer d M F (Suc i) (rs', w')) \<and> rn_lat rs' = rn_lat rs \<and>
      (\<forall>f. i < f \<and> f < unat (rn_submitted rs) \<longrightarrow>
         rn_qbuf_ring rs' ! (f mod unat (cfg_queue_depth cfg)) = rn_qbuf_ring rs ! (f mod unat (cfg_queue_depth cfg)))"
proof -
  let ?n = "unat (cfg_queue_depth cfg)"
  have len: "length (rn_qbuf_ring rs) = 32" using pr by (simp add: progress_def)
  obtain go p ring s w' where r: "run_refill sys cfg buffer index (rs, w) =
      Some (go, rs\<lparr>rn_pacer := p, rn_qbuf_ring := ring, rn_submitted := s\<rparr>, w')" "quiet sys maps fds w w'" "length ring = 32"
    "\<forall>k. rn_submitted rs < cfg_frames cfg \<longrightarrow> k \<noteq> unat (rn_submitted rs) mod ?n \<longrightarrow> ring ! k = rn_qbuf_ring rs ! k"
    "rn_submitted rs \<ge> cfg_frames cfg \<longrightarrow> ring = rn_qbuf_ring rs"
    "go \<longrightarrow> s = (if rn_submitted rs < cfg_frames cfg then rn_submitted rs + 1 else rn_submitted rs)"
    using refill_run [OF sys n held rdy len] by blast
  define rs' where "rs' = rs\<lparr>rn_pacer := p, rn_qbuf_ring := ring, rn_submitted := s\<rparr>"
  have h: "held sys maps fds ?n buffer M F rs' w'" using held_quiet [OF held r(2)] by (simp add: rs'_def held_def)
  have p: "progress cfg d (Suc i) rs'" "ready cfg buffer rs'" using pr rdy r(3) by (simp_all add: progress_def ready_def rs'_def)
  have "in_flight cfg d (Suc i) rs'" if go
    using that r(6) fl i d unat_Suc_bounded [of "rn_submitted rs" "cfg_frames cfg"]
    by (auto simp: in_flight_def rs'_def word_less_nat_alt word_le_nat_alt)
  moreover have "ring ! (f mod ?n) = rn_qbuf_ring rs ! (f mod ?n)" if "i < f" "f < unat (rn_submitted rs)" for f
  proof -
    have "unat (rn_submitted rs) \<le> i + ?n" using fl d(2) by (simp add: in_flight_def word_le_nat_alt)
    from slot_distinct [OF that this] show ?thesis using r(4,5) by (cases "rn_submitted rs < cfg_frames cfg") auto
  qed
  moreover have "left_ok sys maps fds cfg buffer d M F (rs', w')"
    using h p(1) i by (auto simp: left_ok_def progress_def intro: tally_mono)
  ultimately show ?thesis using r(1) h p
    by (intro exI [of _ go] exI [of _ rs'] exI [of _ w']) (auto simp: frames_ok_def rs'_def)
qed

lemma frame_run:
  assumes sys: "runner_system sys maps fds (cfg_queue_depth cfg)" and n: "2 \<le> cfg_queue_depth cfg" "cfg_queue_depth cfg \<le> 32"
    and d: "1 \<le> d" "d \<le> cfg_queue_depth cfg" and pre: "frames_ok sys maps fds cfg buffer d M F i (rs, w)" and i: "i < unat (cfg_frames cfg)"
  shows "\<exists>go rs' w'. run_frame sys cfg buffer csv i (rs, w) = Some (go, rs', w') \<and>
      (if go then frames_ok sys maps fds cfg buffer d M F (Suc i) (rs', w') \<and>
         (\<exists>t. rn_lat rs' = (rn_lat rs)[i := t - rn_qbuf_ring rs ! (i mod unat (cfg_queue_depth cfg))]) \<and>
         (\<forall>f. i < f \<and> f < unat (rn_submitted rs) \<longrightarrow>
            rn_qbuf_ring rs' ! (f mod unat (cfg_queue_depth cfg)) = rn_qbuf_ring rs ! (f mod unat (cfg_queue_depth cfg)))
       else left_ok sys maps fds cfg buffer d M F (rs', w'))"
proof -
  let ?n = "unat (cfg_queue_depth cfg)" and ?o = "run_occupancy i rs"
  have laws: "run_laws sys maps fds" using sys by (simp add: tool_system_def)
  have P: "held sys maps fds ?n buffer M F rs w" "progress cfg d i rs" "in_flight cfg d i rs" "ready cfg buffer rs"
    using pre by (simp_all add: frames_ok_def)
  note occ = occupancy_ok [OF P(2,3) i d(1)]
  have h1: "held sys maps fds ?n buffer M F ?o v" if "quiet sys maps fds w v" for v
    using held_quiet [OF P(1) that] by (simp add: held_def)
  have left: "left_ok sys maps fds cfg buffer d M F (?o, v)" if "quiet sys maps fds w v" for v
    using h1 [OF that] tally_mono [OF occ(1)] i by (simp add: left_ok_def)
  obtain b w1 where c: "dqbuf sys (rn_fd rs) V4L2_BUF_TYPE_VIDEO_CAPTURE V4L2_MEMORY_MMAP w = Some (b, w1)" "quiet sys maps fds w w1"
    "case b of None \<Rightarrow> True | Some b \<Rightarrow> unat (ub_bytesused b) \<le> HEIGHT * WIDTH"
    by (rule dqbuf_capture [OF sys])
  obtain t w2 where t: "now_ns sys w1 = (t, w2)" by fastforce
  note q2 = quiet_trans [OF c(2) now_quiet [OF laws t]]
  show ?thesis
  proof (cases "b = None \<or> ub_index (the b) \<ge> cfg_queue_depth cfg")
    case True
    then show ?thesis using c(1) t left [OF c(2)] left [OF q2] by (cases b) (auto simp: run_frame_def Let_def)
  next
    case False
    then obtain cb where cb: "b = Some cb" "ub_index cb < cfg_queue_depth cfg" "\<not> cfg_queue_depth cfg \<le> ub_index cb"
      "unat (ub_bytesused cb) \<le> HEIGHT * WIDTH" using c(3) by (auto simp: not_le)
    have L: "length (rn_qbuf_ring ?o) = 32" "length (rn_lat ?o) = unat (cfg_frames cfg)" "ready cfg buffer ?o"
      using P(2,4) by (simp_all add: progress_def ready_def)
    obtain crc st w3 where k: "run_check_frame sys cfg csv i (ub_index cb) (ub_bytesused cb) t (?o, w2) =
        Some (True, ?o\<lparr>rn_crc := crc, rn_lat := (rn_lat ?o)[i := t - rn_qbuf_ring ?o ! (i mod ?n)], rn_st := st\<rparr>, w3)"
      "quiet sys maps fds w2 w3" "tally cfg d (Suc i) st"
      using check_frame_run [OF sys n h1 [OF q2] L(3,1,2) i cb(2,4) occ(1)] by blast
    define rs2 where "rs2 = ?o\<lparr>rn_crc := crc, rn_lat := (rn_lat ?o)[i := t - rn_qbuf_ring ?o ! (i mod ?n)], rn_st := st\<rparr>"
    have "held sys maps fds ?n buffer M F rs2 w3" using h1 [OF quiet_trans [OF q2 k(2)]] by (simp add: rs2_def held_def)
    moreover have "ready cfg buffer rs2" "in_flight cfg d i rs2" using L(3) P(3) by (simp_all add: rs2_def ready_def in_flight_def)
    moreover have "progress cfg d (Suc i) rs2" using L occ k(3) by (simp add: rs2_def progress_def)
    ultimately obtain go rs3 w4 where r: "run_refill sys cfg buffer (ub_index cb) (rs2, w3) = Some (go, rs3, w4)"
      "left_ok sys maps fds cfg buffer d M F (rs3, w4)" "go \<longrightarrow> frames_ok sys maps fds cfg buffer d M F (Suc i) (rs3, w4)"
      "rn_lat rs3 = rn_lat rs2" "\<forall>f. i < f \<and> f < unat (rn_submitted rs2) \<longrightarrow> rn_qbuf_ring rs3 ! (f mod ?n) = rn_qbuf_ring rs2 ! (f mod ?n)"
      using refill_frames [OF sys n d i] by blast
    have "run_frame sys cfg buffer csv i (rs, w) = Some (go, rs3, w4)"
      using c(1) t cb k(1) [folded rs2_def] r(1) by (simp add: run_frame_def andthen_def Let_def)
    then show ?thesis using r(2-5) by (intro exI [of _ go] exI [of _ rs3] exI [of _ w4]) (auto simp: rs2_def)
  qed
qed

lemma prefill_ends:
  assumes sys: "runner_system sys maps fds (cfg_queue_depth cfg)" and n: "2 \<le> cfg_queue_depth cfg" "cfg_queue_depth cfg \<le> 32"
    and d: "1 \<le> d" "d \<le> cfg_queue_depth cfg"
  shows "ends (setup_ok sys maps fds cfg buffer d M F (ready cfg buffer))
    (each (run_prefill sys cfg buffer) [0..<min (unat (cfg_frames cfg)) (unat d)])
    (frames_ok sys maps fds cfg buffer d M F 0) (left_ok sys maps fds cfg buffer d M F)"
proof -
  let ?n = "unat (cfg_queue_depth cfg)" and ?m = "min (unat (cfg_frames cfg)) (unat d)"
  let ?I = "\<lambda>k (rs, w). held sys maps fds ?n buffer M F rs w \<and> progress cfg d 0 rs \<and> ready cfg buffer rs \<and> unat (rn_submitted rs) = k"
  let ?R = "left_ok sys maps fds cfg buffer d M F"
  have "ends (?I 0) (each (run_prefill sys cfg buffer) [0..<?m]) (?I ?m) ?R"
  proof (rule ends_each)
    fix k assume k: "k < ?m"
    have "k < 2 ^ 32" using k unsigned_less [of d, where ?'a = nat] by simp
    then have uk: "unat (of_nat k :: u32) = k" by (simp add: unat_of_nat take_bit_eq_mod)
    have idx: "(of_nat k :: u32) < cfg_queue_depth cfg" using k d(2) uk by (simp add: word_less_nat_alt word_le_nat_alt)
    show "ends (?I k) (run_prefill sys cfg buffer k) (?I (Suc k)) ?R"
    proof (rule endsI)
      fix rs w assume pre: "?I k (rs, w)"
      then have P: "held sys maps fds ?n buffer M F rs w" "progress cfg d 0 rs" "ready cfg buffer rs" "unat (rn_submitted rs) = k"
        "length (rn_qbuf_ring rs) = 32" by (simp_all add: progress_def)
      obtain go p t w' where s: "submit_output sys cfg buffer (of_nat k) (of_nat k) (rs, w) =
          Some (go, rs\<lparr>rn_pacer := p, rn_qbuf_ring := (rn_qbuf_ring rs)[unat (of_nat k :: u32) mod ?n := t]\<rparr>, w')" "quiet sys maps fds w w'"
        using submit_run [OF sys n P(1,3,5) idx] by blast
      define rs' where "rs' = rs\<lparr>rn_pacer := p, rn_qbuf_ring := (rn_qbuf_ring rs)[unat (of_nat k :: u32) mod ?n := t]\<rparr>"
      have h: "held sys maps fds ?n buffer M F rs' w'" using held_quiet [OF P(1) s(2)] by (simp add: rs'_def held_def)
      have sub: "unat (rn_submitted rs + 1) = Suc k" using unat_Suc_bounded [of "rn_submitted rs" "cfg_frames cfg"] P(4) k by simp
      have "?I (Suc k) (rs'\<lparr>rn_submitted := rn_submitted rs + 1\<rparr>, w')"
        using h sub P(2,3) by (simp add: rs'_def held_def progress_def ready_def)
      moreover have "?R (rs', w')" using h P(2) by (auto simp: left_ok_def rs'_def progress_def intro: tally_mono)
      moreover have "run_prefill sys cfg buffer k (rs, w) = Some (go, if go then rs'\<lparr>rn_submitted := rn_submitted rs + 1\<rparr> else rs', w')"
        using s(1) by (auto simp: run_prefill_def rs'_def)
      ultimately show "\<exists>go rs' w'. run_prefill sys cfg buffer k (rs, w) = Some (go, rs', w') \<and> (if go then ?I (Suc k) (rs', w') else ?R (rs', w'))"
        by (cases go) auto
    qed
  qed simp
  moreover have "?I 0 s" if "setup_ok sys maps fds cfg buffer d M F (ready cfg buffer) s" for s
    using that by (auto simp: setup_ok_def)
  moreover have "frames_ok sys maps fds cfg buffer d M F 0 s" if "?I ?m s" for s
    using that by (auto simp: frames_ok_def in_flight_def word_le_nat_alt word_less_nat_alt min_def split: if_splits)
  ultimately show ?thesis by (rule ends_conseq)
qed

lemma stream_ends:
  assumes sys: "runner_system sys maps fds (cfg_queue_depth cfg)" and n: "2 \<le> cfg_queue_depth cfg" "cfg_queue_depth cfg \<le> 32"
    and d: "d = out_depth cfg buffer out_inflight"
  shows "ends (setup_ok sys maps fds cfg buffer d M F (ready cfg buffer)) (run_stream sys cfg buffer csv out_inflight)
    (frames_ok sys maps fds cfg buffer d M F (unat (cfg_frames cfg))) (left_ok sys maps fds cfg buffer d M F)"
proof -
  have d': "1 \<le> d" "d \<le> cfg_queue_depth cfg" using n(1) by (auto simp: d out_depth_def Let_def not_le word_le_nat_alt word_less_nat_alt)
  have "ends (frames_ok sys maps fds cfg buffer d M F 0) (each (run_frame sys cfg buffer csv) [0..<unat (cfg_frames cfg)])
      (frames_ok sys maps fds cfg buffer d M F (unat (cfg_frames cfg))) (left_ok sys maps fds cfg buffer d M F)"
  proof (rule ends_each)
    fix i assume "i < unat (cfg_frames cfg)"
    from frame_run [OF sys n d' _ this] show "ends (frames_ok sys maps fds cfg buffer d M F i) (run_frame sys cfg buffer csv i)
        (frames_ok sys maps fds cfg buffer d M F (Suc i)) (left_ok sys maps fds cfg buffer d M F)"
      by (intro endsI) (metis (full_types))
  qed simp
  then show ?thesis unfolding run_stream_def d [symmetric]
    by (rule ends_andthen [OF prefill_ends [OF sys n d']])
qed

section \<open>Leaving\<close>

lemma cleanup_run:
  assumes sys: "runner_system sys maps fds (cfg_queue_depth cfg)" and n: "cfg_queue_depth cfg \<le> 32"
    and held: "held sys maps fds (unat (cfg_queue_depth cfg)) buffer M F rs w"
  shows "\<exists>w'. run_cleanup sys cfg buffer rs w = Some w' \<and> maps w' = M \<and> fds w' = F \<and> mem_valid sys maps w'"
proof -
  let ?n = "unat (cfg_queue_depth cfg)"
  have laws: "sys_laws sys maps" "run_laws sys maps fds" using sys by (simp_all add: tool_system_def)
  have n32: "?n \<le> 32" using n by (simp add: word_le_nat_alt)
  have close: "maps (close_fd sys fd v) = maps v" "fds (close_fd sys fd v) = fds v - owned fd" for fd v
    using laws(1) run_laws_mmap(4) [OF laws(2)] by (simp_all add: close_fd_def owned_def sys_laws_def)
  have valid: "mem_valid sys maps (close_fd sys fd v)" if "mem_valid sys maps v" for fd v
    using run_laws_mmap(6) [OF laws(2) that] that by (simp add: close_fd_def)
  obtain w1 where a: "stream_off sys (rn_out_streaming rs) (rn_fd rs) V4L2_BUF_TYPE_VIDEO_OUTPUT w = Some w1" "quiet sys maps fds w w1"
    using stream_off_quiet [OF sys] by blast
  obtain w2 where b: "stream_off sys (rn_cap_streaming rs) (rn_fd rs) V4L2_BUF_TYPE_VIDEO_CAPTURE w1 = Some w2" "quiet sys maps fds w1 w2"
    using stream_off_quiet [OF sys] by blast
  note h = held_quiet [OF held quiet_trans [OF a(2) b(2)]]
  define w3 where "w3 = close_fd sys (rn_src_fd rs) (close_fd sys (rn_meta_fd rs) w2)"
  have m3: "maps w3 = M + mapped (rn_out_bufs rs) + mapped (rn_cap_bufs rs)" "fds w3 = F + owned (rn_fd rs)" "mem_valid sys maps w3"
    using h by (simp_all add: w3_def close held_def valid)
  have bo: "frame_bufs ?n (rn_out_bufs rs)" "frame_bufs ?n (rn_cap_bufs rs)" "buffer = BUF_DMABUF \<longrightarrow> mapped (rn_out_bufs rs) = {#}"
    using h by (simp_all add: held_def)
  obtain w4 where d: "(if buffer = BUF_MMAP then vpipe_unmap_buffers sys (rn_out_bufs rs) ?n w3 else Some w3) = Some w4"
    "maps w4 = M + mapped (rn_cap_bufs rs)" "fds w4 = fds w3" "mem_valid sys maps w4"
    using unmap_bufs [OF laws bo(1) n32, of w3] m3(1,3) bo(3) by (cases buffer) auto
  obtain w5 where e: "vpipe_unmap_buffers sys (rn_cap_bufs rs) ?n w4 = Some w5" "maps w5 = M" "fds w5 = fds w4" "mem_valid sys maps w5"
    using unmap_bufs [OF laws bo(2) n32, of w4] d(2,4) by auto
  have "run_cleanup sys cfg buffer rs w = Some (close_fd sys (rn_fd rs) w5)"
    using a(1) b(1) d(1) e(1) unfolding run_cleanup_def w3_def Let_def by simp
  then show ?thesis using e d(3) m3(2) close valid by simp
qed

lemma run_init_ok:
  assumes "cfg_queue_depth cfg \<le> 32" "mem_valid sys maps w"
  obtains rs where "run_init cfg buffer out_inflight crc = Some rs"
    "setup_ok sys maps fds cfg buffer (out_depth cfg buffer out_inflight) (maps w) (fds w) (\<lambda>rs. rn_fd rs = -1 \<and> quiet_fds rs \<and> no_maps rs) (rs, w)"
    "rn_st rs = zero_stats\<lparr>st_buffer := buffer, st_source := cfg_source cfg, st_frames := cfg_frames cfg, st_fps := cfg_fps cfg,
       st_queue_depth := cfg_queue_depth cfg, st_out_inflight := out_depth cfg buffer out_inflight\<rparr>"
proof -
  let ?n = "unat (cfg_queue_depth cfg)"
  let ?zero = "\<lparr>mb_addr = Null, mb_length = 0, mb_dmabuf_fd = 0\<rparr>"
  define bufs where "bufs = replicate ?n (?zero\<lparr>mb_dmabuf_fd := -1\<rparr>) @ replicate (32 - ?n) ?zero"
  have n: "?n \<le> 32" using assms(1) by (simp add: word_le_nat_alt)
  then have arr: "mmap_array ?n = Some bufs" by (simp add: mmap_array_def bufs_def)
  have "mapped bufs = {#}" by (rule mapped_none) (auto simp: bufs_def unmapped_buffer_def)
  moreover have "frame_bufs ?n bufs" using n by (auto simp: bufs_ok_def bufs_def unmapped_buffer_def nth_append)
  moreover obtain rs where "run_init cfg buffer out_inflight crc = Some rs" using arr by (simp add: run_init_def)
  ultimately show ?thesis using assms(2) arr
    by (intro that [of rs]) (auto simp: run_init_def setup_ok_def held_def progress_def tally_def zero_stats_def owned_def quiet_fds_def no_maps_def)
qed

definition finished ::
    "('w, 'x) run_sys_scheme \<Rightarrow> ('w \<Rightarrow> (nat \<times> nat) multiset) \<Rightarrow> ('w \<Rightarrow> int multiset) \<Rightarrow> run_config \<Rightarrow> buffer_kind \<Rightarrow> u32 \<Rightarrow>
     (nat \<times> nat) multiset \<Rightarrow> int multiset \<Rightarrow> run_state \<times> 'w \<Rightarrow> bool" where
  "finished sys maps fds cfg buffer d M F = (\<lambda>(rs, w).
     held sys maps fds (unat (cfg_queue_depth cfg)) buffer M F rs w \<and>
     (let st = rn_st rs in st_ok st \<and> tally cfg d (unat (cfg_frames cfg)) (st\<lparr>st_ok := False\<rparr>) \<and>
       (cfg_frames cfg \<noteq> 0 \<longrightarrow> snd (st_occ_mean st) = unat (cfg_frames cfg) \<and> unat (cfg_frames cfg) \<le> fst (st_occ_mean st) \<and>
          fst (st_occ_mean st) \<le> unat (cfg_frames cfg) * unat d)))"

lemma summary_ends:
  "ends (frames_ok sys maps fds cfg buffer d M F (unat (cfg_frames cfg))) (run_summary percentile cfg)
     (finished sys maps fds cfg buffer d M F) (left_ok sys maps fds cfg buffer d M F)"
proof (rule endsI)
  fix rs :: run_state and w assume "frames_ok sys maps fds cfg buffer d M F (unat (cfg_frames cfg)) (rs, w)"
  then show "\<exists>go rs' w'. run_summary percentile cfg (rs, w) = Some (go, rs', w') \<and>
      (if go then finished sys maps fds cfg buffer d M F (rs', w') else left_ok sys maps fds cfg buffer d M F (rs', w'))"
    by (intro exI [of _ True]) (simp add: frames_ok_def run_summary_def finished_def held_def progress_def tally_def Let_def)
qed

lemma body_ends:
  assumes sys: "runner_system sys maps fds (cfg_queue_depth cfg)" and n: "2 \<le> cfg_queue_depth cfg" "cfg_queue_depth cfg \<le> 32"
    and d: "d = out_depth cfg buffer out_inflight"
  shows "ends (setup_ok sys maps fds cfg buffer d M F (\<lambda>rs. rn_fd rs = -1 \<and> quiet_fds rs \<and> no_maps rs))
    (run_body sys percentile dup cfg buffer csv out_inflight) (finished sys maps fds cfg buffer d M F) (left_ok sys maps fds cfg buffer d M F)"
proof -
  let ?S = "setup_ok sys maps fds cfg buffer d M F" and ?R = "left_ok sys maps fds cfg buffer d M F"
  let ?A = "\<lambda>rs. quiet_fds rs \<and> no_maps rs" and ?C = "\<lambda>rs. rn_src_fd rs = -1 \<and> ready cfg buffer rs"
  have 1: "ends (?S (\<lambda>rs. rn_fd rs = -1 \<and> ?A rs)) (run_open_device sys cfg) (?S ?A) ?R"
    using open_device_ends [OF sys, where Q = ?A] by (simp add: quiet_fds_def no_maps_def)
  have 2: "ends (?S ?A) (run_formats sys) (?S ?A) ?R"
    by (rule formats_ends [OF sys]) (simp add: quiet_fds_def no_maps_def)
  have 5: "ends (?S ?C) (each (run_queue_capture sys) [0..<unat (cfg_queue_depth cfg)]) (?S ?C) ?R"
    by (rule ends_each [where I = "\<lambda>_. ?S ?C"]) (simp_all add: queue_capture_ends [OF sys])
  have 6: "ends (?S ?C) (run_streamon sys) (?S ?C) ?R"
    by (rule streamon_ends [OF sys]) (simp_all add: ready_def)
  show ?thesis unfolding run_body_def
    by (simp, rule ends_andthen [OF 1 ends_andthen [OF 2 ends_andthen [OF request_ends [OF sys n] ends_andthen [OF outputs_ends [OF sys]
      ends_andthen [OF 5 ends_andthen [OF 6 ends_andthen [OF export_ends [OF sys] ends_andthen [OF stream_ends [OF sys n d] summary_ends]]]]]]]])
qed

lemma run_one_ends:
  assumes "runner_system sys maps fds (cfg_queue_depth cfg)" "2 \<le> cfg_queue_depth cfg" "cfg_queue_depth cfg \<le> 32" "mem_valid sys maps w"
  shows "\<exists>st crc' w'. run_one sys percentile room dup cfg buffer csv out_inflight crc w = Some (st, crc', w') \<and>
    maps w' = maps w \<and> fds w' = fds w \<and> mem_valid sys maps w' \<and>
    st_csum_pass st \<le> st_csum_checked st \<and> st_dropped st \<le> st_csum_checked st \<and> st_csum_checked st \<le> cfg_frames cfg \<and>
    st_verify_pass st \<le> st_verify_checked st \<and> st_verify_checked st \<le> cfg_frames cfg \<and>
    st_occ_max st \<le> st_out_inflight st \<and> 1 \<le> st_out_inflight st \<and> st_out_inflight st \<le> cfg_queue_depth cfg \<and>
    (st_ok st \<and> cfg_frames cfg \<noteq> 0 \<longrightarrow> snd (st_occ_mean st) = unat (cfg_frames cfg) \<and>
       unat (cfg_frames cfg) \<le> fst (st_occ_mean st) \<and> fst (st_occ_mean st) \<le> unat (cfg_frames cfg) * unat (st_out_inflight st))"
proof -
  define d where "d = out_depth cfg buffer out_inflight"
  have d1: "1 \<le> d" "d \<le> cfg_queue_depth cfg" using assms(2) by (auto simp: d_def out_depth_def Let_def not_le word_le_nat_alt word_less_nat_alt)
  obtain rs where rs: "run_init cfg buffer out_inflight crc = Some rs"
    "setup_ok sys maps fds cfg buffer d (maps w) (fds w) (\<lambda>rs. rn_fd rs = -1 \<and> quiet_fds rs \<and> no_maps rs) (rs, w)"
    using run_init_ok [OF assms(3,4), of buffer out_inflight crc fds] unfolding d_def by blast
  show ?thesis
  proof (cases room)
    case False
    have "tally cfg d 0 (rn_st rs)" using rs(2) by (simp add: setup_ok_def progress_def)
    then show ?thesis using rs(1) False d1 assms(4) by (auto simp: run_one_def tally_def unat_eq_zero)
  next
    case True
    obtain go rs' w1 where b: "run_body sys percentile dup cfg buffer csv out_inflight (rs, w) = Some (go, rs', w1)"
      "if go then finished sys maps fds cfg buffer d (maps w) (fds w) (rs', w1) else left_ok sys maps fds cfg buffer d (maps w) (fds w) (rs', w1)"
      using body_ends [OF assms(1-3) d_def, of "maps w" "fds w" percentile dup csv] rs(2) unfolding ends_def by fast
    then have held: "held sys maps fds (unat (cfg_queue_depth cfg)) buffer (maps w) (fds w) rs' w1"
      and t: "tally cfg d (unat (cfg_frames cfg)) ((rn_st rs')\<lparr>st_ok := False\<rparr>)"
      by (auto simp: finished_def left_ok_def Let_def tally_def split: if_splits)
    obtain w2 where c: "run_cleanup sys cfg buffer rs' w1 = Some w2" "maps w2 = maps w" "fds w2 = fds w" "mem_valid sys maps w2"
      using cleanup_run [OF assms(1,3) held] by blast
    have "run_one sys percentile room dup cfg buffer csv out_inflight crc w = Some (rn_st rs', rn_crc rs', w2)"
      using rs(1) b(1) c(1) True by (simp add: run_one_def)
    moreover have "st_ok (rn_st rs') \<and> cfg_frames cfg \<noteq> 0 \<longrightarrow> snd (st_occ_mean (rn_st rs')) = unat (cfg_frames cfg) \<and>
        unat (cfg_frames cfg) \<le> fst (st_occ_mean (rn_st rs')) \<and> fst (st_occ_mean (rn_st rs')) \<le> unat (cfg_frames cfg) * unat d"
      using b(2) by (cases go) (simp_all add: left_ok_def tally_def finished_def Let_def)
    ultimately show ?thesis using c(2-4) t d1
      by (intro exI [of _ "rn_st rs'"] exI [of _ "rn_crc rs'"] exI [of _ w2]) (simp add: tally_def word_le_nat_alt)
  qed
qed


definition demo_config :: run_config where
  "demo_config = \<lparr>cfg_frames = 300, cfg_fps = 30, cfg_queue_depth = 4, cfg_source = SRC_FIXTURE, cfg_verify_pattern = False,
     cfg_device = ''/dev/video0'', cfg_csv = ''out.csv''\<rparr>"


lemma parse_uint_bounds:
  assumes "parse_uint arg lo hi = Some v" "hi \<le> 0xFFFFFFFF"
  shows "lo \<le> ucast v" "ucast v \<le> hi"
proof -
  from assms obtain u :: u64 where u: "v = ucast u" "lo \<le> u" "u \<le> hi"
    by (auto simp: parse_uint_def not_less split: option.splits if_splits prod.splits)
  then have "u \<le> 0xFFFFFFFF" using assms(2) by (rule_tac order_trans)
  then have "unat u < 2 ^ 32" by (simp add: word_le_nat_alt)
  then have "ucast v = u" by (simp add: u(1) word_unat_eq_iff unsigned_ucast_eq take_bit_eq_mod unat_mod)
  with u show "lo \<le> ucast v" "ucast v \<le> hi" by simp_all
qed

text \<open>What every accepted command line gives.\<close>

definition config_ok :: "run_config \<Rightarrow> bool" where
  "config_ok cfg \<longleftrightarrow> 1 \<le> cfg_frames cfg \<and> cfg_fps cfg \<le> 1000 \<and> 2 \<le> cfg_queue_depth cfg \<and> cfg_queue_depth cfg \<le> VPIPE_MAX_QUEUE_DEPTH"

lemma ucast_bounds:
  "(1::u64) \<le> ucast v \<Longrightarrow> (1::u32) \<le> v" "(2::u64) \<le> ucast v \<Longrightarrow> (2::u32) \<le> v"
  "ucast (v::u32) \<le> (1000::u64) \<Longrightarrow> v \<le> 1000" "ucast (v::u32) \<le> (32::u64) \<Longrightarrow> v \<le> 32"
  using unsigned_less [of v, where ?'a = nat] by (simp_all add: word_le_nat_alt unsigned_ucast_eq take_bit_eq_mod)

lemma run_option_ok:
  assumes "config_ok cfg" "run_option opt arg (cfg, buffer, compare) = r"
  shows "case r of Inl status \<Rightarrow> status = 0 \<or> status = 2 | Inr (cfg', buffer', compare') \<Rightarrow> config_ok cfg'"
proof -
  have f: "1 \<le> v" if "parse_uint arg 1 0xFFFFFFFF = Some v" for arg v
    using parse_uint_bounds [OF that] by (intro ucast_bounds) simp
  have r: "v \<le> 1000" if "parse_uint arg 0 1000 = Some v" for arg v
    using parse_uint_bounds [OF that] by (intro ucast_bounds) simp
  have q: "2 \<le> v" "v \<le> 32" if "parse_uint arg 2 32 = Some v" for arg v
    using parse_uint_bounds [OF that] ucast_bounds by simp_all
  show ?thesis
    using assms by (auto simp: run_option_def run_number_def config_ok_def f r q split: option.split if_splits)
qed

lemma run_options_ok:
  "config_ok (fst c) \<Longrightarrow>
   case run_options opts c of Inl status \<Rightarrow> status = 0 \<or> status = 2 | Inr (cfg, buffer, compare) \<Rightarrow> config_ok cfg"
proof (induction opts c rule: run_options.induct)
  case (2 opt arg opts c)
  obtain cfg buffer compare where c: "c = (cfg, buffer, compare)" by (cases c)
  show ?case
  proof (cases "run_option opt arg c")
    case (Inl status)
    then show ?thesis using run_option_ok [of cfg opt arg buffer compare] 2(2) c by simp
  next
    case (Inr c')
    then have "config_ok (fst c')" using run_option_ok [of cfg opt arg buffer compare] 2(2) c by (cases c') simp
    from 2(1) [OF Inr this] show ?thesis using Inr by simp
  qed
qed auto



end
