(* ===== verification/Tool_Rules.thy ===== *)
theory Tool_Rules
  imports User_Device
begin

text \<open>
  Rules that account for the mappings and descriptors of a program step by step, for programs
  written as blocks of calls.
\<close>

text \<open>
  Beyond the mappings \<open>M\<close> and descriptors \<open>F\<close> that the process had, it has exactly those its
  local variables account for, given by \<open>rm\<close> and \<open>rf\<close>.
\<close>

definition keeps ::
    "('w, 'x) run_sys_scheme \<Rightarrow> ('w \<Rightarrow> (nat \<times> nat) multiset) \<Rightarrow> ('w \<Rightarrow> int multiset) \<Rightarrow> (nat \<times> nat) multiset \<Rightarrow> int multiset \<Rightarrow>
     ('s \<Rightarrow> (nat \<times> nat) multiset) \<Rightarrow> ('s \<Rightarrow> int multiset) \<Rightarrow> ('s \<Rightarrow> bool) \<Rightarrow> 's \<times> 'w \<Rightarrow> bool" where
  "keeps sys maps fds M F rm rf P = (\<lambda>(s, w). mem_valid sys maps w \<and> maps w = M + rm s \<and> fds w = F + rf s \<and> P s)"

lemma keeps_mono: "keeps sys maps fds M F rm rf P s \<Longrightarrow> (\<And>s. P s \<Longrightarrow> Q s) \<Longrightarrow> keeps sys maps fds M F rm rf Q s"
  by (auto simp: keeps_def)

lemma keeps_quiet: "keeps sys maps fds M F rm rf P (s, w) \<Longrightarrow> quiet sys maps fds w w' \<Longrightarrow> keeps sys maps fds M F rm rf P (s, w')"
  by (simp add: keeps_def quiet_def)

text \<open>A call that returns, changes neither mappings nor descriptors, and has a result of the given kind.\<close>

definition quietly ::
    "('w, 'x) run_sys_scheme \<Rightarrow> ('w \<Rightarrow> (nat \<times> nat) multiset) \<Rightarrow> ('w \<Rightarrow> int multiset) \<Rightarrow> ('w \<Rightarrow> ('a \<times> 'w) option) \<Rightarrow> ('a \<Rightarrow> bool) \<Rightarrow> bool" where
  "quietly sys maps fds f A \<longleftrightarrow> (\<forall>w. \<exists>r w'. f w = Some (r, w') \<and> quiet sys maps fds w w' \<and> A r)"

lemma ends_call:
  assumes "\<And>s. P s \<Longrightarrow> quietly sys maps fds (f s) (\<lambda>_. True)" and left: "\<And>s. P s \<Longrightarrow> R s"
  shows "ends (keeps sys maps fds M F rm rf P) (call f) (keeps sys maps fds M F rm rf P) (keeps sys maps fds M F rm rf R)"
proof (rule endsI)
  fix s w assume k: "keeps sys maps fds M F rm rf P (s, w)"
  then obtain go w' where c: "f s w = Some (go, w')" "quiet sys maps fds w w'"
    using assms(1) [of s] unfolding keeps_def quietly_def by blast
  note k' = keeps_quiet [OF k c(2)]
  show "\<exists>go s' w'. call f (s, w) = Some (go, s', w') \<and>
      (if go then keeps sys maps fds M F rm rf P (s', w') else keeps sys maps fds M F rm rf R (s', w'))"
    using c(1) k' keeps_mono [OF k' left] by (simp add: call_def)
qed

lemma ends_fetch:
  assumes f: "\<And>s. P s \<Longrightarrow> quietly sys maps fds (f s) (\<lambda>r. case r of None \<Rightarrow> True | Some a \<Rightarrow> A a)"
    and k: "\<And>a. A a \<Longrightarrow> ends (keeps sys maps fds M F rm rf P) (k a) Q (keeps sys maps fds M F rm rf R)"
    and left: "\<And>s. P s \<Longrightarrow> R s"
  shows "ends (keeps sys maps fds M F rm rf P) (fetch f k) Q (keeps sys maps fds M F rm rf R)"
proof (rule endsI)
  fix s w assume pre: "keeps sys maps fds M F rm rf P (s, w)"
  then obtain r w' where c: "f s w = Some (r, w')" "quiet sys maps fds w w'" "case r of None \<Rightarrow> True | Some a \<Rightarrow> A a"
    using f [of s] unfolding keeps_def quietly_def by blast
  note pre' = keeps_quiet [OF pre c(2)]
  show "\<exists>go s' w'. fetch f k (s, w) = Some (go, s', w') \<and> (if go then Q (s', w') else keeps sys maps fds M F rm rf R (s', w'))"
  proof (cases r)
    case None
    then show ?thesis using c(1) keeps_mono [OF pre' left] by (simp add: fetch_def)
  next
    case (Some a)
    then have "ends (keeps sys maps fds M F rm rf P) (k a) Q (keeps sys maps fds M F rm rf R)" using c(3) k by simp
    then obtain go s' w2 where "k a (s, w') = Some (go, s', w2)" "if go then Q (s', w2) else keeps sys maps fds M F rm rf R (s', w2)"
      using pre' unfolding ends_def by (metis prod.collapse)
    then show ?thesis using c(1) Some by (simp add: fetch_def)
  qed
qed

lemma ends_fetch_any:
  assumes "\<And>s. P s \<Longrightarrow> quietly sys maps fds (f s) (\<lambda>_. True)" "\<And>s. P s \<Longrightarrow> R s"
    and "\<And>a. ends (keeps sys maps fds M F rm rf P) (k a) Q (keeps sys maps fds M F rm rf R)"
  shows "ends (keeps sys maps fds M F rm rf P) (fetch f k) Q (keeps sys maps fds M F rm rf R)"
proof -
  have "quietly sys maps fds (f s) (\<lambda>r. case r of None \<Rightarrow> True | Some _ \<Rightarrow> True)" if "P s" for s
    using assms(1) [OF that] by (simp add: option.case_eq_if)
  then show ?thesis using assms by (intro ends_fetch [where A = "\<lambda>_. True"]) simp_all
qed

lemma ends_keeps_assign:
  "(\<And>s. P s \<Longrightarrow> rm (f s) = rm s \<and> rf (f s) = rf s \<and> Q (f s)) \<Longrightarrow>
   ends (keeps sys maps fds M F rm rf P) (assign f) (keeps sys maps fds M F rm rf Q) R"
  by (rule ends_assign) (simp add: keeps_def)

lemma ends_keeps_check:
  "(\<And>s. P s \<Longrightarrow> b s \<Longrightarrow> Q s) \<Longrightarrow> (\<And>s. P s \<Longrightarrow> R s) \<Longrightarrow>
   ends (keeps sys maps fds M F rm rf P) (check b) (keeps sys maps fds M F rm rf Q) (keeps sys maps fds M F rm rf R)"
  by (rule ends_check) (simp_all add: keeps_def)

text \<open>A loop whose turns all keep the same account.\<close>

lemma ends_loop: "(\<And>i. i < n \<Longrightarrow> ends P (f i) P R) \<Longrightarrow> ends P (each f [0..<n]) P R"
  using ends_each [of 0 n "\<lambda>_. P" f R] by simp

lemma quietlyI: "(\<And>w. \<exists>r w'. f w = Some (r, w') \<and> quiet sys maps fds w w') \<Longrightarrow> quietly sys maps fds f (\<lambda>_. True)"
  by (simp add: quietly_def)

lemma quietly_calls [quiet_calls]:
  assumes "tool_system sys maps fds depth frame"
  shows "quietly sys maps fds (vpipe_set_format sys fd type width height pf) (\<lambda>_. True)"
    "quietly sys maps fds (vpipe_get_sizeimage sys fd type) (\<lambda>_. True)"
    "quietly sys maps fds (set_backend sys fd backend) (\<lambda>_. True)"
    "quietly sys maps fds (set_ctrl sys fd cid v) (\<lambda>_. True)"
    "quietly sys maps fds (vpipe_queue_mmap_buffer sys fd type memory index dfd) (\<lambda>_. True)"
    "quietly sys maps fds (qbuf sys fd b) (\<lambda>_. True)"
    "quietly sys maps fds (request_bufs sys fd n type memory) (\<lambda>_. True)"
    "quietly sys maps fds (stream_on sys fd type) (\<lambda>_. True)"
  by (rule quietlyI, rule system_calls [OF assms])+

lemma quietly_dqbuf [quiet_calls]:
  assumes "tool_system sys maps fds depth frame"
  shows "quietly sys maps fds (dqbuf sys fd type memory) (\<lambda>b. case b of None \<Rightarrow> True
     | Some b \<Rightarrow> if type = V4L2_BUF_TYPE_VIDEO_OUTPUT then ub_index b < depth else unat (ub_bytesused b) \<le> frame)"
  unfolding quietly_def using dqbuf_quiet [OF assms] by blast

lemma ends_request:
  assumes sys: "tool_system sys maps fds depth frame" and n: "2 \<le> depth" "unat depth \<le> N"
    and P: "\<And>s. P s \<Longrightarrow> bufs_ok N frame (unat depth) (get s) \<and> mapped (get s) = {#}"
    and res: "\<And>s b. P s \<Longrightarrow> bufs_ok N frame (unat depth) b \<Longrightarrow> rm (put b s) = rm s + mapped b \<and> rf (put b s) = rf s"
    and Q: "\<And>s b. P s \<Longrightarrow> bufs_ok N frame (unat depth) b \<Longrightarrow> bufs_ready (unat depth) b \<Longrightarrow> Q (put b s)"
    and R: "\<And>s b. P s \<Longrightarrow> bufs_ok N frame (unat depth) b \<Longrightarrow> R (put b s)"
  shows "ends (keeps sys maps fds M F rm rf P) (request_into sys depth type fd get put)
    (keeps sys maps fds M F rm rf Q) (keeps sys maps fds M F rm rf R)"
proof (rule endsI)
  fix s w assume pre: "keeps sys maps fds M F rm rf P (s, w)"
  then have p: "P s" "mem_valid sys maps w" "maps w = M + rm s" "fds w = F + rf s" by (simp_all add: keeps_def)
  obtain res bufs w' where r: "vpipe_request_mmap_buffers sys (fd s) type depth (get s) w = Some (res, bufs, w')"
    "bufs_ok N frame (unat depth) bufs" "maps w' = maps w + mapped bufs" "fds w' = fds w" "mem_valid sys maps w'"
    "res \<noteq> None \<longrightarrow> bufs_ready (unat depth) bufs"
    using request_run [OF sys n, of "get s" w "fd s" type] P [OF p(1)] p(2) by blast
  have "keeps sys maps fds M F rm rf R (put bufs s, w')" "res \<noteq> None \<Longrightarrow> keeps sys maps fds M F rm rf Q (put bufs s, w')"
    using r(2-6) res [OF p(1) r(2)] Q [OF p(1)] R [OF p(1)] p by (auto simp: keeps_def)
  then show "\<exists>go s' w'. request_into sys depth type fd get put (s, w) = Some (go, s', w') \<and>
      (if go then keeps sys maps fds M F rm rf Q (s', w') else keeps sys maps fds M F rm rf R (s', w'))"
    using r(1) by (simp add: request_into_def)
qed

lemma ends_open:
  assumes sys: "tool_system sys maps fds depth frame"
    and res: "\<And>s f. P s \<Longrightarrow> 0 \<le> f \<Longrightarrow> rm (put f s) = rm s \<and> rf (put f s) = add_mset f (rf s)"
    and Q: "\<And>s f. P s \<Longrightarrow> 0 \<le> f \<Longrightarrow> Q (put f s)" and R: "\<And>s. P s \<Longrightarrow> R s"
  shows "ends (keeps sys maps fds M F rm rf P) (open_into sys path put) (keeps sys maps fds M F rm rf Q) (keeps sys maps fds M F rm rf R)"
proof (rule endsI)
  fix s w assume pre: "keeps sys maps fds M F rm rf P (s, w)"
  then have p: "P s" "mem_valid sys maps w" "maps w = M + rm s" "fds w = F + rf s" by (simp_all add: keeps_def)
  obtain r w1 where op: "run_open sys path w = (r, w1)" by fastforce
  have laws: "run_laws sys maps fds" using sys by (simp add: tool_system_def)
  note o = run_laws_open [OF laws, where p = path and w = w, unfolded op fst_conv snd_conv]
  show "\<exists>go s' w'. open_into sys path put (s, w) = Some (go, s', w') \<and>
      (if go then keeps sys maps fds M F rm rf Q (s', w') else keeps sys maps fds M F rm rf R (s', w'))"
    using op o p res [OF p(1)] Q [OF p(1)] R [OF p(1)] by (cases r) (simp_all add: open_into_def keeps_def)
qed

lemma ends_sizeimage:
  assumes sys: "tool_system sys maps fds depth frame"
    and res: "\<And>s n. P s \<Longrightarrow> rm (put n s) = rm s \<and> rf (put n s) = rf s \<and> Q (put n s)"
  shows "ends (keeps sys maps fds M F rm rf P) (sizeimage_into sys fd type put) (keeps sys maps fds M F rm rf Q) R"
proof (rule endsI)
  fix s w assume pre: "keeps sys maps fds M F rm rf P (s, w)"
  obtain n w' where g: "vpipe_get_sizeimage sys (fd s) type w = Some (n, w')" "quiet sys maps fds w w'"
    using get_sizeimage_quiet [OF sys] by blast
  have "keeps sys maps fds M F rm rf Q (put n s, w')"
    using keeps_quiet [OF pre g(2)] res [of s n] by (simp add: keeps_def)
  then show "\<exists>go s' w'. sizeimage_into sys fd type put (s, w) = Some (go, s', w') \<and>
      (if go then keeps sys maps fds M F rm rf Q (s', w') else R (s', w'))"
    using g(1) by (simp add: sizeimage_into_def)
qed

lemma quietly_files [quiet_calls]:
  assumes "tool_system sys maps fds depth frame"
  shows "quietly sys maps fds (\<lambda>w. Some (vpipe_open_csv (run_fs sys) dup csv header w)) (\<lambda>_. True)"
    "quietly sys maps fds (\<lambda>w. Some (True, snd (os_fwrite (run_fs sys) csv row w))) (\<lambda>_. True)"
    "quietly sys maps fds (\<lambda>w. case now_ns sys w of (t, w) \<Rightarrow> Some (Some t, w)) (\<lambda>r. case r of None \<Rightarrow> True | Some _ \<Rightarrow> True)"
proof -
  have laws: "run_laws sys maps fds" using assms by (simp add: tool_system_def)
  show "quietly sys maps fds (\<lambda>w. Some (vpipe_open_csv (run_fs sys) dup csv header w)) (\<lambda>_. True)"
    unfolding quietly_def by (metis open_csv_quiet [OF laws] prod.collapse)
  show "quietly sys maps fds (\<lambda>w. Some (True, snd (os_fwrite (run_fs sys) csv row w))) (\<lambda>_. True)"
    using run_laws_quiet(6) [OF laws] by (simp add: quietly_def)
  show "quietly sys maps fds (\<lambda>w. case now_ns sys w of (t, w) \<Rightarrow> Some (Some t, w)) (\<lambda>r. case r of None \<Rightarrow> True | Some _ \<Rightarrow> True)"
    using now_quiet [OF laws] by (fastforce simp: quietly_def split: prod.split)
qed

section \<open>Steps the programs share\<close>

lemma ends_guard:
  assumes "b \<Longrightarrow> ends (keeps sys maps fds M F rm rf P) (block fs) Q (keeps sys maps fds M F rm rf R)" "\<And>s. P s \<Longrightarrow> R s"
  shows "ends (keeps sys maps fds M F rm rf P) (block (check (\<lambda>_. b) # fs)) Q (keeps sys maps fds M F rm rf R)"
proof (cases b)
  case True
  then show ?thesis
    using assms(1) ends_keeps_check [of P "\<lambda>_. b" P R] assms(2) by (intro ends_block(2) [where Q = "keeps sys maps fds M F rm rf P"]) auto
next
  case False
  then show ?thesis using assms(2) by (auto simp: ends_def check_def andthen_def keeps_def)
qed

lemma ends_now:
  assumes "tool_system sys maps fds depth frame" "\<And>t. ends (keeps sys maps fds M F rm rf P) (k t) Q (keeps sys maps fds M F rm rf R)" "\<And>s. P s \<Longrightarrow> R s"
  shows "ends (keeps sys maps fds M F rm rf P) (tool_now sys k) Q (keeps sys maps fds M F rm rf R)"
  unfolding tool_now_def by (rule ends_fetch [where A = "\<lambda>_. True"]) (use assms quietly_files(3) [OF assms(1)] in auto)

lemma ends_dqbuf:
  assumes "tool_system sys maps fds depth frame" "\<And>s. P s \<Longrightarrow> R s"
    and "\<And>b. (if type = V4L2_BUF_TYPE_VIDEO_OUTPUT then ub_index b < depth else unat (ub_bytesused b) \<le> frame) \<Longrightarrow>
      ends (keeps sys maps fds M F rm rf P) (k b) Q (keeps sys maps fds M F rm rf R)"
  shows "ends (keeps sys maps fds M F rm rf P) (fetch (\<lambda>s. dqbuf sys (fd s) type memory) k) Q (keeps sys maps fds M F rm rf R)"
  by (rule ends_fetch [where A = "\<lambda>b. if type = V4L2_BUF_TYPE_VIDEO_OUTPUT then ub_index b < depth else unat (ub_bytesused b) \<le> frame"])
    (use assms quietly_dqbuf [OF assms(1)] in auto)

lemma ends_seq: "ends P (block []) P R" "ends P f P R \<Longrightarrow> ends P (block fs) P R \<Longrightarrow> ends P (block (f # fs)) P R"
  by (rule ends_block, simp_all add: ends_block(2))

lemma common_steps:
  assumes sys: "tool_system sys maps fds depth frame" and R: "\<And>s. P s \<Longrightarrow> R s"
  shows "ends (keeps sys maps fds M F rm rf P) (call (\<lambda>s. set_backend sys (fd s) n)) (keeps sys maps fds M F rm rf P) (keeps sys maps fds M F rm rf R)"
    and "ends (keeps sys maps fds M F rm rf P) (call (\<lambda>s. set_ctrl sys (fd s) cid v)) (keeps sys maps fds M F rm rf P) (keeps sys maps fds M F rm rf R)"
    and "ends (keeps sys maps fds M F rm rf P) (call (\<lambda>s. vpipe_queue_mmap_buffer sys (fd s) type memory index dfd))
      (keeps sys maps fds M F rm rf P) (keeps sys maps fds M F rm rf R)"
    and "ends (keeps sys maps fds M F rm rf P) (call (\<lambda>s. qbuf sys (fd s) (b s))) (keeps sys maps fds M F rm rf P) (keeps sys maps fds M F rm rf R)"
    and "ends (keeps sys maps fds M F rm rf P) (call (\<lambda>s. vpipe_set_format sys (fd s) type width height pf))
      (keeps sys maps fds M F rm rf P) (keeps sys maps fds M F rm rf R)"
    and "ends (keeps sys maps fds M F rm rf P) (call (\<lambda>s. stream_on sys (fd s) type)) (keeps sys maps fds M F rm rf P) (keeps sys maps fds M F rm rf R)"
    and "ends (keeps sys maps fds M F rm rf P) (tool_csv sys dup csv header) (keeps sys maps fds M F rm rf P) (keeps sys maps fds M F rm rf R)"
    and "ends (keeps sys maps fds M F rm rf P) (tool_row sys csv row) (keeps sys maps fds M F rm rf P) (keeps sys maps fds M F rm rf R)"
  unfolding tool_csv_def tool_row_def
  by (rule ends_call, (rule quietly_calls [OF sys] quietly_files [OF sys] | erule R)+)+

lemma ends_each_list: "(\<And>x. x \<in> set xs \<Longrightarrow> ends P (f x) P R) \<Longrightarrow> ends P (each f xs) P R"
proof (induction xs)
  case Nil
  then show ?case by (simp add: ends_def)
next
  case (Cons x xs)
  then have "ends P (andthen (f x) (each f xs)) P R" by (intro ends_andthen [where Q = P]) auto
  then show ?case by (simp add: ends_def andthen_def)
qed

section \<open>Buffers and descriptors\<close>

lemma bufs_backed:
  assumes "\<not> unmapped_buffer (bufs ! i)" "i < length bufs" "mem_valid sys maps w" "mapped bufs \<subseteq># maps w"
  obtains a D where "buf_addr bufs i = Some (a, 0)" "run_mem sys w a = Some D" "mb_length (bufs ! i) \<le> length D"
proof -
  obtain a where a: "mb_addr (bufs ! i) = Addr a" using assms(1) by (cases "mb_addr (bufs ! i)") (auto simp: unmapped_buffer_def)
  have "(a, mb_length (bufs ! i)) \<in># maps w" using mapped_member [OF assms(2) a] assms(4) by (rule mset_subset_eqD [rotated])
  then obtain D where "run_mem sys w a = Some D" "mb_length (bufs ! i) \<le> length D" using assms(3) unfolding mem_valid_def by blast
  with that a assms(2) show ?thesis by (simp add: buf_addr_def)
qed

lemma bufs_bytes:
  assumes "bufs_ok N frame n bufs" "bufs_ready n bufs" "n \<le> N" "i < n" "k \<le> frame"
    and valid: "mem_valid sys maps w" and sub: "mapped bufs \<subseteq># maps w"
  shows "\<exists>bs. buf_bytes (run_mem sys w) bufs i k = Some bs"
proof -
  have i: "\<not> unmapped_buffer (bufs ! i)" "i < length bufs" "frame \<le> mb_length (bufs ! i)"
    using assms(1-4) by (auto simp: bufs_ok_def bufs_ready_def)
  obtain a D where "buf_addr bufs i = Some (a, 0)" "run_mem sys w a = Some D" "mb_length (bufs ! i) \<le> length D"
    by (rule bufs_backed [OF i(1,2) valid sub])
  then show ?thesis using i(3) assms(5) by (simp add: buf_bytes_def load_bytes_block)
qed

lemma mmap_run:
  assumes sys: "tool_system sys maps fds depth frame" and valid: "mem_valid sys maps w" and m: "sys_mmap sys n fd off w = (r, w1)"
  shows "maps w1 = (case r of None \<Rightarrow> maps w | Some a \<Rightarrow> add_mset (a, n) (maps w))" "fds w1 = fds w" "mem_valid sys maps w1"
proof -
  have laws: "sys_laws sys maps" "run_laws sys maps fds" using sys by (simp_all add: tool_system_def)
  have "maps (snd (sys_mmap sys n fd off w)) = (case fst (sys_mmap sys n fd off w) of None \<Rightarrow> maps w | Some a \<Rightarrow> add_mset (a, n) (maps w))"
    using laws(1) unfolding sys_laws_def by blast
  then show "maps w1 = (case r of None \<Rightarrow> maps w | Some a \<Rightarrow> add_mset (a, n) (maps w))" using m by simp
  show "fds w1 = fds w" "mem_valid sys maps w1" using run_laws_mmap(1,2) [OF laws(2), where n = n and fd = fd and off = off and w = w] valid m by simp_all
qed

lemma munmap_run:
  assumes sys: "tool_system sys maps fds depth frame" and valid: "mem_valid sys maps w"
  shows "maps (sys_munmap sys a n w) = maps w - {#(a, n)#}" "fds (sys_munmap sys a n w) = fds w" "mem_valid sys maps (sys_munmap sys a n w)"
proof -
  have laws: "sys_laws sys maps" "run_laws sys maps fds" using sys by (simp_all add: tool_system_def)
  show "maps (sys_munmap sys a n w) = maps w - {#(a, n)#}" using laws(1) unfolding sys_laws_def by blast
  show "fds (sys_munmap sys a n w) = fds w" "mem_valid sys maps (sys_munmap sys a n w)" using run_laws_mmap [OF laws(2)] valid by simp_all
qed

lemma close_fd_run:
  assumes "tool_system sys maps fds depth frame"
  shows "maps (close_fd sys fd w) = maps w" "fds (close_fd sys fd w) = fds w - owned fd"
    "mem_valid sys maps w \<Longrightarrow> mem_valid sys maps (close_fd sys fd w)"
proof -
  have "sys_laws sys maps" "run_laws sys maps fds" using assms by (simp_all add: tool_system_def)
  moreover from this(1) have "maps (sys_close sys fd w) = maps w" unfolding sys_laws_def by blast
  ultimately show "maps (close_fd sys fd w) = maps w" "fds (close_fd sys fd w) = fds w - owned fd"
    "mem_valid sys maps w \<Longrightarrow> mem_valid sys maps (close_fd sys fd w)"
    by (simp_all add: close_fd_def owned_def run_laws_mmap)
qed

lemma unmap_run:
  assumes sys: "tool_system sys maps fds depth frame" and "bufs_ok N frame N bufs" "mem_valid sys maps w"
  obtains w' where "vpipe_unmap_buffers sys bufs N w = Some w'" "maps w' = maps w - mapped bufs" "fds w' = fds w" "mem_valid sys maps w'"
  using unmap_bufs [of sys maps fds N frame N bufs w] assms unfolding tool_system_def by blast

lemma streams_off:
  assumes sys: "tool_system sys maps fds depth frame" and valid: "mem_valid sys maps w"
  obtains w1 w2 where "stream_off sys b1 fd1 t1 w = Some w1" "stream_off sys b2 fd2 t2 w1 = Some w2"
    "maps w2 = maps w" "fds w2 = fds w" "mem_valid sys maps w2"
proof -
  obtain w1 where w1: "stream_off sys b1 fd1 t1 w = Some w1" "quiet sys maps fds w w1" using stream_off_quiet [OF sys] by blast
  obtain w2 where w2: "stream_off sys b2 fd2 t2 w1 = Some w2" "quiet sys maps fds w1 w2" using stream_off_quiet [OF sys] by blast
  from quiet_trans [OF w1(2) w2(2)] show ?thesis using that [OF w1(1) w2(1)] valid by (simp add: quiet_def)
qed

lemma no_bufs_ok: "bufs_ok n frame n (no_bufs n)" "mapped (no_bufs n) = {#}"
  by (auto simp: no_bufs_def bufs_ok_def unmapped_buffer_def intro: mapped_none)

text \<open>Arrays whose buffers may also hold the descriptor of an exported buffer.\<close>

definition buf_fds :: "vpipe_mmap_buffer list \<Rightarrow> int multiset" where
  "buf_fds bufs = sum_list (map (\<lambda>b. owned (mb_dmabuf_fd b)) bufs)"

definition bufs_back :: "nat \<Rightarrow> nat \<Rightarrow> vpipe_mmap_buffer list \<Rightarrow> bool" where
  "bufs_back N frame bufs \<longleftrightarrow> length bufs = N \<and> (\<forall>i<N. \<not> unmapped_buffer (bufs ! i) \<longrightarrow> frame \<le> mb_length (bufs ! i))"

lemma bufs_ok_back:
  assumes "bufs_ok N frame N bufs"
  shows "bufs_back N frame bufs" "buf_fds bufs = {#}"
proof -
  show "bufs_back N frame bufs" using assms by (simp add: bufs_ok_def bufs_back_def)
  have "\<forall>b\<in>set bufs. owned (mb_dmabuf_fd b) = {#}" using assms by (auto simp: bufs_ok_def in_set_conv_nth owned_def)
  then show "buf_fds bufs = {#}" unfolding buf_fds_def by (induction bufs) auto
qed

lemma buf_fds_update:
  assumes "i < length bufs" "mb_dmabuf_fd (bufs ! i) = -1"
  shows "buf_fds (bufs[i := (bufs ! i)\<lparr>mb_dmabuf_fd := f\<rparr>]) = buf_fds bufs + owned f"
proof -
  have split: "bufs = take i bufs @ bufs ! i # drop (Suc i) bufs" using assms(1) by (rule id_take_nth_drop)
  have "buf_fds (bufs[i := b]) = buf_fds (take i bufs @ b # drop (Suc i) bufs)" for b using assms(1) by (simp add: upd_conv_take_nth_drop)
  moreover have "buf_fds bufs = buf_fds (take i bufs @ bufs ! i # drop (Suc i) bufs)" using split by simp
  ultimately show ?thesis using assms(2) by (simp add: buf_fds_def owned_def ac_simps)
qed

lemma mapped_same:
  assumes "i < length bufs"
  shows "mapped (bufs[i := (bufs ! i)\<lparr>mb_dmabuf_fd := f\<rparr>]) = mapped bufs"
proof -
  let ?g = "\<lambda>b. case mb_addr b of Addr a \<Rightarrow> {#(a, mb_length b)#} | _ \<Rightarrow> {#}"
  have "map ?g (bufs[i := (bufs ! i)\<lparr>mb_dmabuf_fd := f\<rparr>]) = map ?g bufs"
  proof (rule nth_equalityI)
    show "map ?g (bufs[i := (bufs ! i)\<lparr>mb_dmabuf_fd := f\<rparr>]) ! k = map ?g bufs ! k"
      if "k < length (map ?g (bufs[i := (bufs ! i)\<lparr>mb_dmabuf_fd := f\<rparr>]))" for k
      using that assms by (cases "i = k") (simp_all cong: uaddr.case_cong)
  qed simp
  then show ?thesis by (simp only: mapped_def)
qed

lemma unmap_back:
  assumes sys: "tool_system sys maps fds depth frame'" and bb: "bufs_back N frame bufs" and valid: "mem_valid sys maps w"
  obtains w' where "vpipe_unmap_buffers sys bufs N w = Some w'" "maps w' = maps w - mapped bufs" "fds w' = fds w - buf_fds bufs" "mem_valid sys maps w'"
proof -
  have laws: "sys_laws sys maps" "run_laws sys maps fds" using sys by (simp_all add: tool_system_def)
  have len: "length bufs = N" using bb by (simp add: bufs_back_def)
  have one: "fds (unmap_one sys b v) = fds v - owned (mb_dmabuf_fd b)" "mem_valid sys maps v \<Longrightarrow> mem_valid sys maps (unmap_one sys b v)" for b v
    by (auto simp: unmap_one_def owned_def Let_def run_laws_mmap [OF laws(2)] split: uaddr.split)
  have "\<exists>w'. foreach (\<lambda>i w. if length bufs \<le> i then None else Some (unmap_one sys (bufs ! i) w)) [0..<N] w = Some w' \<and>
      fds w' = fds w - buf_fds (take N bufs) \<and> mem_valid sys maps w'"
  proof (rule foreach_upt [where I = "\<lambda>k v. fds v = fds w - buf_fds (take k bufs) \<and> mem_valid sys maps v"])
    fix k v assume "k < N" and v: "fds v = fds w - buf_fds (take k bufs) \<and> mem_valid sys maps v"
    then show "\<exists>v'. (if length bufs \<le> k then None else Some (unmap_one sys (bufs ! k) v)) = Some v' \<and>
        fds v' = fds w - buf_fds (take (Suc k) bufs) \<and> mem_valid sys maps v'"
      using one [where b = "bufs ! k" and v = v] len by (simp add: buf_fds_def take_Suc_conv_app_nth)
  qed (use valid in \<open>simp_all add: buf_fds_def\<close>)
  then show ?thesis
    using that unmap_buffers_maps [OF laws(1), of N bufs w] len by (auto simp: vpipe_unmap_buffers_def)
qed

lemma sum_list_update_mset:
  fixes g :: "'a \<Rightarrow> 'b multiset"
  shows "i < length xs \<Longrightarrow> sum_list (map g (xs[i := y])) + g (xs ! i) = sum_list (map g xs) + g y"
proof (induction xs arbitrary: i)
  case (Cons x xs)
  then show ?case by (cases i) (auto simp: ac_simps)
qed simp

section \<open>Whole programs\<close>

text \<open>A body and its cleanup from a state that holds nothing.\<close>

lemma run_program_total:
  assumes "ends (keeps sys maps fds (maps w) (fds w) rm rf P) body (keeps sys maps fds (maps w) (fds w) rm rf Q) (keeps sys maps fds (maps w) (fds w) rm rf R)"
    and "mem_valid sys maps w" "rm s = {#}" "rf s = {#}" "P s" "\<And>s. Q s \<Longrightarrow> R s"
    and cl: "\<And>s v. keeps sys maps fds (maps w) (fds w) rm rf R (s, v) \<Longrightarrow> \<exists>w'. cleanup s v = Some w' \<and> maps w' = maps w \<and> fds w' = fds w"
  shows "\<exists>status w'. run_program body cleanup s w = Some (status, w') \<and> status \<le> 1 \<and> maps w' = maps w \<and> fds w' = fds w"
proof -
  have "keeps sys maps fds (maps w) (fds w) rm rf P (s, w)" using assms(2-5) by (simp add: keeps_def)
  then obtain go s' v where b: "body (s, w) = Some (go, s', v)" "if go then keeps sys maps fds (maps w) (fds w) rm rf Q (s', v) else keeps sys maps fds (maps w) (fds w) rm rf R (s', v)"
    using assms(1) unfolding ends_def by (metis prod.collapse)
  then have "keeps sys maps fds (maps w) (fds w) rm rf R (s', v)" using assms(6) by (cases go) (auto simp: keeps_def)
  from cl [OF this] show ?thesis using b(1) by (auto simp: run_program_def)
qed

end
