(* ===== verification/User_Vcam_Tools.thy ===== *)
theory User_Vcam_Tools
  imports Tool_Rules Gradient
begin

text \<open>
  The programs that measure and test the virtual camera: user/vpipe-vcam-bench.c,
  user/vpipe-vcam-dmabuf-bench.c and user/vpipe-vcam-dmabuf-test.c, as blocks of calls, with
  the steps they share.
\<close>

unbundle bit_operations_syntax

section \<open>The tools' variables and common steps\<close>

abbreviation (input) BUFFER_COUNT :: nat where "BUFFER_COUNT \<equiv> 4"

record tool_state =
  tl_fd :: int
  tl_src_fd :: int
  tl_out_streaming :: bool
  tl_cap_streaming :: bool
  tl_out_bufs :: "vpipe_mmap_buffer list"
  tl_cap_bufs :: "vpipe_mmap_buffer list"
  tl_sizeimage :: nat
  tl_crc :: crc32_state

definition tool_init :: "int \<Rightarrow> tool_state" where
  "tool_init fd = \<lparr>tl_fd = fd, tl_src_fd = -1, tl_out_streaming = False, tl_cap_streaming = False,
     tl_out_bufs = no_bufs BUFFER_COUNT, tl_cap_bufs = no_bufs BUFFER_COUNT, tl_sizeimage = 0, tl_crc = crc32_state_init\<rparr>"

definition tool_formats :: "('w, 'x) run_sys_scheme \<Rightarrow> ('s tool_state_scheme, 'w) step" where
  "tool_formats sys = block
     [call (\<lambda>s. vpipe_set_format sys (tl_fd s) V4L2_BUF_TYPE_VIDEO_OUTPUT (of_nat WIDTH) (of_nat HEIGHT) V4L2_PIX_FMT_GREY),
      call (\<lambda>s. vpipe_set_format sys (tl_fd s) V4L2_BUF_TYPE_VIDEO_CAPTURE (of_nat WIDTH) (of_nat HEIGHT) V4L2_PIX_FMT_GREY)]"

definition tool_request_out :: "('w, 'x) run_sys_scheme \<Rightarrow> ('s tool_state_scheme, 'w) step" where
  "tool_request_out sys = request_into sys (of_nat BUFFER_COUNT) V4L2_BUF_TYPE_VIDEO_OUTPUT tl_fd tl_out_bufs (\<lambda>b s. s\<lparr>tl_out_bufs := b\<rparr>)"

definition tool_request_cap :: "('w, 'x) run_sys_scheme \<Rightarrow> ('s tool_state_scheme, 'w) step" where
  "tool_request_cap sys = request_into sys (of_nat BUFFER_COUNT) V4L2_BUF_TYPE_VIDEO_CAPTURE tl_fd tl_cap_bufs (\<lambda>b s. s\<lparr>tl_cap_bufs := b\<rparr>)"

definition tool_queue_capture :: "('w, 'x) run_sys_scheme \<Rightarrow> nat \<Rightarrow> ('s tool_state_scheme, 'w) step" where
  "tool_queue_capture sys i = call (\<lambda>s. vpipe_queue_mmap_buffer sys (tl_fd s) V4L2_BUF_TYPE_VIDEO_CAPTURE V4L2_MEMORY_MMAP (of_nat i) (-1))"

definition tool_streamon :: "('w, 'x) run_sys_scheme \<Rightarrow> ('s tool_state_scheme, 'w) step" where
  "tool_streamon sys = block
     [call (\<lambda>s. stream_on sys (tl_fd s) V4L2_BUF_TYPE_VIDEO_CAPTURE), assign (\<lambda>s. s\<lparr>tl_cap_streaming := True\<rparr>),
      call (\<lambda>s. stream_on sys (tl_fd s) V4L2_BUF_TYPE_VIDEO_OUTPUT), assign (\<lambda>s. s\<lparr>tl_out_streaming := True\<rparr>)]"

text \<open>The checksum of a captured buffer.\<close>

definition tool_crc :: "('w, 'x) run_sys_scheme \<Rightarrow> nat \<Rightarrow> nat \<Rightarrow> (u32 \<Rightarrow> ('s tool_state_scheme, 'w) step) \<Rightarrow> ('s tool_state_scheme, 'w) step" where
  "tool_crc sys i n k = (\<lambda>(s, w). do {
     bytes \<leftarrow> buf_bytes (run_mem sys w) (tl_cap_bufs s) i n;
     (case vpipe_crc32 bytes (tl_crc s) of (crc, st) \<Rightarrow> k crc (s\<lparr>tl_crc := st\<rparr>, w)) })"

text \<open>The end of a turn of both benchmarks: the captured frame, its line, and its buffer back to the queue.\<close>

definition bench_row :: "nat \<Rightarrow> v4l2_buffer \<Rightarrow> u64 \<Rightarrow> u64 \<Rightarrow> u32 \<Rightarrow> u8 list" where
  "bench_row i cap_dq enqueue_ns dequeue_ns crc = csv_join [dec i, dec (unat (ub_sequence cap_dq)), dec (unat enqueue_ns),
     dec (unat dequeue_ns), dec (unat (ub_bytesused cap_dq)), hex8 crc]"

definition bench_header :: string where
  "bench_header = ''frame,src_sequence,enqueue_monotonic_ns,dequeue_'' @ ''monotonic_ns,bytesused,crc32''"

definition bench_capture :: "('w, 'x) run_sys_scheme \<Rightarrow> string \<Rightarrow> u32 \<Rightarrow> nat \<Rightarrow> u64 \<Rightarrow> ('s tool_state_scheme, 'w) step" where
  "bench_capture sys csv out_memory i enqueue_ns =
     fetch (\<lambda>s. dqbuf sys (tl_fd s) V4L2_BUF_TYPE_VIDEO_CAPTURE V4L2_MEMORY_MMAP) (\<lambda>cap_dq.
     tool_now sys (\<lambda>dequeue_ns. block
       [check (\<lambda>s. unat (ub_index cap_dq) < BUFFER_COUNT),
        fetch (\<lambda>s. dqbuf sys (tl_fd s) V4L2_BUF_TYPE_VIDEO_OUTPUT out_memory) (\<lambda>out_dq.
        tool_crc sys (unat (ub_index cap_dq)) (unat (ub_bytesused cap_dq)) (\<lambda>crc. block
          [tool_row sys csv (bench_row i cap_dq enqueue_ns dequeue_ns crc),
           call (\<lambda>s. vpipe_queue_mmap_buffer sys (tl_fd s) V4L2_BUF_TYPE_VIDEO_CAPTURE V4L2_MEMORY_MMAP (ub_index cap_dq) (-1))]))]))"

section \<open>user/vpipe-vcam-bench.c\<close>

definition vcam_bench_frame :: "('w, 'x) run_sys_scheme \<Rightarrow> string \<Rightarrow> nat \<Rightarrow> (tool_state, 'w) step" where
  "vcam_bench_frame sys csv i = tool_now sys (\<lambda>enqueue_ns. block
     [call (\<lambda>s. vpipe_queue_mmap_buffer sys (tl_fd s) V4L2_BUF_TYPE_VIDEO_OUTPUT V4L2_MEMORY_MMAP (of_nat (i mod BUFFER_COUNT)) (-1)),
      bench_capture sys csv V4L2_MEMORY_MMAP i enqueue_ns])"

definition vcam_bench_body :: "('w, 'x) run_sys_scheme \<Rightarrow> bool \<Rightarrow> string \<Rightarrow> nat \<Rightarrow> (tool_state, 'w) step" where
  "vcam_bench_body sys dup csv frames = block
     [call (\<lambda>s. set_backend sys (tl_fd s) VPIPE_BACKEND_VCAM_DERIVED),
      tool_formats sys, tool_request_out sys, tool_request_cap sys,
      call (\<lambda>s. set_ctrl sys (tl_fd s) VPIPE_CID_ALGO VPIPE_ALGO_NONE),
      tool_csv sys dup csv bench_header,
      each (tool_queue_capture sys) [0..<BUFFER_COUNT],
      tool_streamon sys,
      each (vcam_bench_frame sys csv) [0..<frames]]"

definition vcam_bench_cleanup :: "('w, 'x) run_sys_scheme \<Rightarrow> tool_state \<Rightarrow> 'w \<Rightarrow> 'w option" where
  "vcam_bench_cleanup sys s w = do {
     w \<leftarrow> stream_off sys (tl_out_streaming s) (tl_fd s) V4L2_BUF_TYPE_VIDEO_OUTPUT w;
     w \<leftarrow> stream_off sys (tl_cap_streaming s) (tl_fd s) V4L2_BUF_TYPE_VIDEO_CAPTURE w;
     w \<leftarrow> vpipe_unmap_buffers sys (tl_out_bufs s) BUFFER_COUNT w;
     w \<leftarrow> vpipe_unmap_buffers sys (tl_cap_bufs s) BUFFER_COUNT w;
     Some (close_fd sys (tl_fd s) w) }"

text \<open>Opening the device, the body and the label \<open>cleanup\<close>.\<close>

definition run_tool ::
    "('w, 'x) run_sys_scheme \<Rightarrow> string \<Rightarrow> (int \<Rightarrow> 's) \<Rightarrow> ('s, 'w) step \<Rightarrow> ('s \<Rightarrow> 'w \<Rightarrow> 'w option) \<Rightarrow> 'w \<Rightarrow> (nat \<times> 'w) option" where
  "run_tool sys dev init body cleanup w =
     (case run_open sys dev w of (Inl _, w) \<Rightarrow> Some (1, w) | (Inr fd, w) \<Rightarrow> run_program body cleanup (init fd) w)"

definition vcam_bench_main :: "('w, 'x) run_sys_scheme \<Rightarrow> bool \<Rightarrow> string list \<Rightarrow> 'w \<Rightarrow> (nat \<times> 'w) option" where
  "vcam_bench_main sys dup argv w =
     (let dev = arg_or 1 argv ''/dev/video0''; csv = arg_or 2 argv ''bench/vcam.csv''
      in case frames_arg 3 argv 6000 of None \<Rightarrow> Some (1, w)
         | Some frames \<Rightarrow> run_tool sys dev tool_init (vcam_bench_body sys dup csv frames) (vcam_bench_cleanup sys) w)"

section \<open>user/vpipe-vcam-dmabuf-bench.c\<close>

definition tool_export :: "('w, 'x) run_sys_scheme \<Rightarrow> ('s tool_state_scheme, 'w) step" where
  "tool_export sys = (\<lambda>(s, w). do {
     (r, w) \<leftarrow> vpipe_xioctl sys (tl_fd s) IOC_EXPORT_SRC_DMABUF w;
     (case r of Inr (Reply_Fd fd) \<Rightarrow> Some (0 \<le> fd, s\<lparr>tl_src_fd := fd\<rparr>, w) | _ \<Rightarrow> Some (False, s, w)) })"

definition dmabuf_bench_frame :: "('w, 'x) run_sys_scheme \<Rightarrow> string \<Rightarrow> nat \<Rightarrow> (tool_state, 'w) step" where
  "dmabuf_bench_frame sys csv i = tool_now sys (\<lambda>enqueue_ns. block
     [call (\<lambda>s. qbuf sys (tl_fd s) ((zero_buf V4L2_BUF_TYPE_VIDEO_OUTPUT V4L2_MEMORY_DMABUF 0)
        \<lparr>ub_fd := tl_src_fd s, ub_bytesused := of_nat (tl_sizeimage s), ub_length := of_nat (tl_sizeimage s)\<rparr>)),
      bench_capture sys csv V4L2_MEMORY_DMABUF i enqueue_ns])"

definition dmabuf_bench_body :: "('w, 'x) run_sys_scheme \<Rightarrow> bool \<Rightarrow> string \<Rightarrow> nat \<Rightarrow> (tool_state, 'w) step" where
  "dmabuf_bench_body sys dup csv frames = block
     [call (\<lambda>s. set_backend sys (tl_fd s) VPIPE_BACKEND_VCAM_DERIVED),
      tool_formats sys,
      sizeimage_into sys tl_fd V4L2_BUF_TYPE_VIDEO_OUTPUT (\<lambda>n s. s\<lparr>tl_sizeimage := n\<rparr>), check (\<lambda>s. tl_sizeimage s \<noteq> 0),
      fetch (\<lambda>s. request_bufs sys (tl_fd s) 1 V4L2_BUF_TYPE_VIDEO_OUTPUT V4L2_MEMORY_DMABUF) (\<lambda>_. block []),
      tool_request_cap sys,
      call (\<lambda>s. set_ctrl sys (tl_fd s) VPIPE_CID_ALGO VPIPE_ALGO_NONE),
      tool_csv sys dup csv bench_header,
      each (tool_queue_capture sys) [0..<BUFFER_COUNT],
      tool_streamon sys,
      tool_export sys,
      each (dmabuf_bench_frame sys csv) [0..<frames]]"

definition dmabuf_bench_cleanup :: "('w, 'x) run_sys_scheme \<Rightarrow> tool_state \<Rightarrow> 'w \<Rightarrow> 'w option" where
  "dmabuf_bench_cleanup sys s w = do {
     w \<leftarrow> stream_off sys (tl_out_streaming s) (tl_fd s) V4L2_BUF_TYPE_VIDEO_OUTPUT w;
     w \<leftarrow> stream_off sys (tl_cap_streaming s) (tl_fd s) V4L2_BUF_TYPE_VIDEO_CAPTURE w;
     let w = close_fd sys (tl_src_fd s) w;
     w \<leftarrow> vpipe_unmap_buffers sys (tl_cap_bufs s) BUFFER_COUNT w;
     Some (close_fd sys (tl_fd s) w) }"

definition dmabuf_bench_main :: "('w, 'x) run_sys_scheme \<Rightarrow> bool \<Rightarrow> string list \<Rightarrow> 'w \<Rightarrow> (nat \<times> 'w) option" where
  "dmabuf_bench_main sys dup argv w =
     (let dev = arg_or 1 argv ''/dev/video0''; csv = arg_or 2 argv ''bench/vcam-dmabuf.csv''
      in case frames_arg 3 argv 6000 of None \<Rightarrow> Some (1, w)
         | Some frames \<Rightarrow> run_tool sys dev tool_init (dmabuf_bench_body sys dup csv frames) (dmabuf_bench_cleanup sys) w)"

section \<open>user/vpipe-vcam-dmabuf-test.c\<close>

record test_state = tool_state +
  ts_stride :: u32
  ts_map :: uaddr

definition test_init :: "int \<Rightarrow> test_state" where
  "test_init fd = tool_state.extend (tool_init fd) \<lparr>ts_stride = 0, ts_map = Map_Failed\<rparr>"

text \<open>Its \<open>verify_gradient\<close>, which counts the pixels that differ from the picture of the first byte.\<close>

definition test_mismatches :: "mem \<Rightarrow> ptr \<Rightarrow> nat \<Rightarrow> nat \<Rightarrow> u32 \<Rightarrow> nat option" where
  "test_mismatches m pix width height stride = do {
     offset \<leftarrow> load m pix;
     foreach (\<lambda>y. foreach (\<lambda>x n. do {
         px \<leftarrow> load m (ptr_add pix (int (unat (of_nat y * stride + of_nat x :: u32))));
         Some (if px \<noteq> gradient_byte (of_nat x) (of_nat y) (ucast offset) then n + 1 else n) }) [0..<width]) [0..<height] 0 }"

definition test_format :: "('w, 'x) run_sys_scheme \<Rightarrow> (test_state, 'w) step" where
  "test_format sys = fetch (\<lambda>s w. do {
       (r, w) \<leftarrow> vpipe_xioctl sys (tl_fd s) (VIDIOC_G_FMT V4L2_BUF_TYPE_VIDEO_OUTPUT) w;
       Some (case r of Inr (Reply_Fmt pix) \<Rightarrow> Some pix | _ \<Rightarrow> None, w) })
     (\<lambda>pix. block [assign (\<lambda>s. s\<lparr>ts_stride := pf_bytesperline pix, tl_sizeimage := unat (pf_sizeimage pix)\<rparr>),
                   check (\<lambda>s. ts_stride s \<noteq> 0 \<and> tl_sizeimage s \<noteq> 0)])"

definition test_frame :: "('w, 'x) run_sys_scheme \<Rightarrow> nat \<Rightarrow> (test_state, 'w) step" where
  "test_frame sys i = block
     [call (\<lambda>s. vpipe_queue_mmap_buffer sys (tl_fd s) V4L2_BUF_TYPE_VIDEO_OUTPUT V4L2_MEMORY_MMAP (of_nat (i mod BUFFER_COUNT)) (-1)),
      fetch (\<lambda>s. dqbuf sys (tl_fd s) V4L2_BUF_TYPE_VIDEO_CAPTURE V4L2_MEMORY_MMAP) (\<lambda>cap_dq.
      fetch (\<lambda>s. dqbuf sys (tl_fd s) V4L2_BUF_TYPE_VIDEO_OUTPUT V4L2_MEMORY_MMAP) (\<lambda>out_dq.
      call (\<lambda>s. vpipe_queue_mmap_buffer sys (tl_fd s) V4L2_BUF_TYPE_VIDEO_CAPTURE V4L2_MEMORY_MMAP (ub_index cap_dq) (-1))))]"

definition test_import :: "('w, 'x) run_sys_scheme \<Rightarrow> (test_state, 'w) step" where
  "test_import sys = (\<lambda>(s, w). case sys_mmap sys (tl_sizeimage s) (tl_src_fd s) 0 w of
       (None, w) \<Rightarrow> Some (False, s, w)
     | (Some a, w) \<Rightarrow> Some (True, s\<lparr>ts_map := Addr a\<rparr>, w))"

definition test_verify :: "('w, 'x) run_sys_scheme \<Rightarrow> (test_state, 'w) step" where
  "test_verify sys = (\<lambda>(s, w). case ts_map s of
       Addr a \<Rightarrow> do {
         mismatches \<leftarrow> test_mismatches (run_mem sys w) (a, 0) WIDTH HEIGHT (ts_stride s);
         bytes \<leftarrow> load_bytes (run_mem sys w) (a, 0) (tl_sizeimage s);
         Some (mismatches = 0, s\<lparr>tl_crc := snd (vpipe_crc32 bytes (tl_crc s))\<rparr>, w) }
     | _ \<Rightarrow> None)"

definition dmabuf_test_body :: "('w, 'x) run_sys_scheme \<Rightarrow> nat \<Rightarrow> (test_state, 'w) step" where
  "dmabuf_test_body sys frames = block
     [call (\<lambda>s. set_backend sys (tl_fd s) VPIPE_BACKEND_VCAM_DERIVED),
      tool_formats sys, test_format sys, tool_request_out sys, tool_request_cap sys,
      call (\<lambda>s. set_ctrl sys (tl_fd s) VPIPE_CID_ALGO VPIPE_ALGO_NONE),
      each (tool_queue_capture sys) [0..<BUFFER_COUNT],
      tool_streamon sys,
      each (test_frame sys) [0..<frames],
      tool_export sys, test_import sys, test_verify sys]"

definition dmabuf_test_cleanup :: "('w, 'x) run_sys_scheme \<Rightarrow> test_state \<Rightarrow> 'w \<Rightarrow> 'w option" where
  "dmabuf_test_cleanup sys s w = do {
     let w = (case ts_map s of Addr a \<Rightarrow> sys_munmap sys a (tl_sizeimage s) w | _ \<Rightarrow> w);
     let w = close_fd sys (tl_src_fd s) w;
     w \<leftarrow> stream_off sys (tl_out_streaming s) (tl_fd s) V4L2_BUF_TYPE_VIDEO_OUTPUT w;
     w \<leftarrow> stream_off sys (tl_cap_streaming s) (tl_fd s) V4L2_BUF_TYPE_VIDEO_CAPTURE w;
     w \<leftarrow> vpipe_unmap_buffers sys (tl_out_bufs s) BUFFER_COUNT w;
     w \<leftarrow> vpipe_unmap_buffers sys (tl_cap_bufs s) BUFFER_COUNT w;
     Some (close_fd sys (tl_fd s) w) }"

definition dmabuf_test_main :: "('w, 'x) run_sys_scheme \<Rightarrow> string list \<Rightarrow> 'w \<Rightarrow> (nat \<times> 'w) option" where
  "dmabuf_test_main sys argv w =
     (let dev = arg_or 1 argv ''/dev/video0''
      in case frames_arg 2 argv 16 of None \<Rightarrow> Some (1, w)
         | Some frames \<Rightarrow> run_tool sys dev test_init (dmabuf_test_body sys frames) (dmabuf_test_cleanup sys) w)"

section \<open>What the tools hold\<close>

text \<open>The benchmark over mapped buffers, the one over an exported buffer, and the test.\<close>

definition bench_maps :: "tool_state \<Rightarrow> (nat \<times> nat) multiset" where
  "bench_maps s = mapped (tl_out_bufs s) + mapped (tl_cap_bufs s)"

definition bench_fds :: "tool_state \<Rightarrow> int multiset" where
  "bench_fds s = owned (tl_fd s)"

definition dmabuf_maps :: "tool_state \<Rightarrow> (nat \<times> nat) multiset" where
  "dmabuf_maps s = mapped (tl_cap_bufs s)"

definition dmabuf_fds :: "'s tool_state_scheme \<Rightarrow> int multiset" where
  "dmabuf_fds s = owned (tl_fd s) + owned (tl_src_fd s)"

definition test_maps :: "test_state \<Rightarrow> (nat \<times> nat) multiset" where
  "test_maps s = mapped (tl_out_bufs s) + mapped (tl_cap_bufs s) + (case ts_map s of Addr a \<Rightarrow> {#(a, tl_sizeimage s)#} | _ \<Rightarrow> {#})"

definition tool_ok :: "nat \<Rightarrow> 's tool_state_scheme \<Rightarrow> bool" where
  "tool_ok frame s \<longleftrightarrow> bufs_ok 4 frame 4 (tl_out_bufs s) \<and> bufs_ok 4 frame 4 (tl_cap_bufs s)"

definition tool_ready :: "nat \<Rightarrow> 's tool_state_scheme \<Rightarrow> bool" where
  "tool_ready frame s \<longleftrightarrow> tool_ok frame s \<and> bufs_ready 4 (tl_cap_bufs s)"

definition tool_fresh :: "nat \<Rightarrow> 's tool_state_scheme \<Rightarrow> bool" where
  "tool_fresh frame s \<longleftrightarrow> tool_ok frame s \<and> mapped (tl_out_bufs s) = {#} \<and> mapped (tl_cap_bufs s) = {#}"

definition tool_half :: "nat \<Rightarrow> 's tool_state_scheme \<Rightarrow> bool" where
  "tool_half frame s \<longleftrightarrow> tool_ok frame s \<and> mapped (tl_cap_bufs s) = {#}"

lemmas tool_defs = tool_fresh_def tool_half_def tool_ready_def tool_ok_def bench_maps_def bench_fds_def dmabuf_maps_def dmabuf_fds_def test_maps_def

lemma ends_crc:
  assumes P: "\<And>s. P s \<Longrightarrow> bufs_ok 4 frame 4 (tl_cap_bufs s) \<and> bufs_ready 4 (tl_cap_bufs s) \<and> mapped (tl_cap_bufs s) \<subseteq># rm s"
    and same: "\<And>s c. P s \<Longrightarrow> P (s\<lparr>tl_crc := c\<rparr>) \<and> rm (s\<lparr>tl_crc := c\<rparr>) = rm s \<and> rf (s\<lparr>tl_crc := c\<rparr>) = rf s"
    and i: "i < 4" "n \<le> frame"
    and k: "\<And>crc. ends (keeps sys maps fds M F rm rf P) (k crc) Q R"
  shows "ends (keeps sys maps fds M F rm rf P) (tool_crc sys i n k) Q R"
proof (rule endsI)
  fix s w assume pre: "keeps sys maps fds M F rm rf P (s, w)"
  then have p: "P s" "mem_valid sys maps w" "mapped (tl_cap_bufs s) \<subseteq># maps w"
    using P [of s] by (auto simp: keeps_def intro: subset_mset.order_trans)
  obtain bs where bs: "buf_bytes (run_mem sys w) (tl_cap_bufs s) i n = Some bs"
    using bufs_bytes [of 4 frame 4 "tl_cap_bufs s" i n sys maps w] P [OF p(1)] p(2,3) i by auto
  obtain crc st where c: "vpipe_crc32 bs (tl_crc s) = (crc, st)" by fastforce
  have "keeps sys maps fds M F rm rf P (s\<lparr>tl_crc := st\<rparr>, w)" using pre same [OF p(1)] by (simp add: keeps_def)
  then obtain go s' w' where "k crc (s\<lparr>tl_crc := st\<rparr>, w) = Some (go, s', w')" "if go then Q (s', w') else R (s', w')"
    using k [of crc] unfolding ends_def by (metis prod.collapse)
  then show "\<exists>go s' w'. tool_crc sys i n k (s, w) = Some (go, s', w') \<and> (if go then Q (s', w') else R (s', w'))"
    using bs c by (simp add: tool_crc_def)
qed

lemma bench_capture_ends:
  assumes sys: "tool_system sys maps fds 4 frame"
    and P: "\<And>s. P s \<Longrightarrow> bufs_ok 4 frame 4 (tl_cap_bufs s) \<and> bufs_ready 4 (tl_cap_bufs s) \<and> mapped (tl_cap_bufs s) \<subseteq># rm s"
    and same: "\<And>s c. P s \<Longrightarrow> P (s\<lparr>tl_crc := c\<rparr>) \<and> rm (s\<lparr>tl_crc := c\<rparr>) = rm s \<and> rf (s\<lparr>tl_crc := c\<rparr>) = rf s"
    and R: "\<And>s. P s \<Longrightarrow> R s"
  shows "ends (keeps sys maps fds M F rm rf P) (bench_capture sys csv memory i t) (keeps sys maps fds M F rm rf P) (keeps sys maps fds M F rm rf R)"
proof -
  let ?K = "\<lambda>f. ends (keeps sys maps fds M F rm rf P) f (keeps sys maps fds M F rm rf P) (keeps sys maps fds M F rm rf R)"
  have row: "?K (tool_row sys csv row)" for row
    unfolding tool_row_def by (rule ends_call) (use R quietly_files [OF sys] in auto)
  have queue: "?K (call (\<lambda>s. vpipe_queue_mmap_buffer sys (tl_fd s) type memory index dfd))" for type memory index dfd
    by (rule ends_call) (use R quietly_calls [OF sys] in auto)
  show ?thesis
    unfolding bench_capture_def
    by (intro ends_dqbuf [OF sys] ends_now [OF sys] ends_guard ends_seq ends_crc [OF P same] row queue) (use R in auto)
qed

lemma tool_steps:
  assumes sys: "tool_system sys maps fds depth frame" and R: "\<And>s. P s \<Longrightarrow> R s"
    and flags: "\<And>s b. P s \<Longrightarrow> P (s\<lparr>tl_cap_streaming := b\<rparr>) \<and> rm (s\<lparr>tl_cap_streaming := b\<rparr>) = rm s \<and> rf (s\<lparr>tl_cap_streaming := b\<rparr>) = rf s"
      "\<And>s b. P s \<Longrightarrow> P (s\<lparr>tl_out_streaming := b\<rparr>) \<and> rm (s\<lparr>tl_out_streaming := b\<rparr>) = rm s \<and> rf (s\<lparr>tl_out_streaming := b\<rparr>) = rf s"
  shows formats_keep: "ends (keeps sys maps fds M F rm rf P) (tool_formats sys) (keeps sys maps fds M F rm rf P) (keeps sys maps fds M F rm rf R)"
    and queue_keep: "ends (keeps sys maps fds M F rm rf P) (each (tool_queue_capture sys) [0..<n]) (keeps sys maps fds M F rm rf P) (keeps sys maps fds M F rm rf R)"
    and streamon_keep: "ends (keeps sys maps fds M F rm rf P) (tool_streamon sys) (keeps sys maps fds M F rm rf P) (keeps sys maps fds M F rm rf R)"
proof -
  show "ends (keeps sys maps fds M F rm rf P) (tool_formats sys) (keeps sys maps fds M F rm rf P) (keeps sys maps fds M F rm rf R)"
    unfolding tool_formats_def by (intro ends_seq common_steps [OF sys] R)
  show "ends (keeps sys maps fds M F rm rf P) (each (tool_queue_capture sys) [0..<n]) (keeps sys maps fds M F rm rf P) (keeps sys maps fds M F rm rf R)"
    unfolding tool_queue_capture_def by (intro ends_loop common_steps [OF sys] R)
  show "ends (keeps sys maps fds M F rm rf P) (tool_streamon sys) (keeps sys maps fds M F rm rf P) (keeps sys maps fds M F rm rf R)"
    unfolding tool_streamon_def by (intro ends_seq common_steps [OF sys] ends_keeps_assign R) (use flags in auto)
qed

lemma run_tool_balanced:
  assumes sys: "tool_system sys maps fds depth frame" and valid: "mem_valid sys maps w"
    and init: "\<And>fd. 0 \<le> fd \<Longrightarrow> rm (init fd) = {#} \<and> rf (init fd) = {#fd#} \<and> P (init fd)"
    and body: "ends (keeps sys maps fds (maps w) (fds w) rm rf P) body Q (keeps sys maps fds (maps w) (fds w) rm rf R)"
    and Q: "\<And>s v. Q (s, v) \<Longrightarrow> keeps sys maps fds (maps w) (fds w) rm rf R (s, v)"
    and cleanup: "\<And>s v. keeps sys maps fds (maps w) (fds w) rm rf R (s, v) \<Longrightarrow> \<exists>w'. cleanup s v = Some w' \<and> maps w' = maps w \<and> fds w' = fds w"
  shows "\<exists>status w'. run_tool sys dev init body cleanup w = Some (status, w') \<and> status \<le> 1 \<and> maps w' = maps w \<and> fds w' = fds w \<and>
    (status = 0 \<longrightarrow> (\<exists>fd w1 s v. run_open sys dev w = (Inr fd, w1) \<and> body (init fd, w1) = Some (True, s, v) \<and> Q (s, v)))"
proof -
  obtain r w1 where op: "run_open sys dev w = (r, w1)" by fastforce
  have laws: "run_laws sys maps fds" using sys by (simp add: tool_system_def)
  note o = run_laws_open [OF laws, where p = dev and w = w, unfolded op fst_conv snd_conv]
  show ?thesis
  proof (cases r)
    case (Inl e)
    then show ?thesis using op o by (simp add: run_tool_def)
  next
    case (Inr fd)
    then have "keeps sys maps fds (maps w) (fds w) rm rf P (init fd, w1)" using o valid init [of fd] by (simp add: keeps_def)
    then obtain go s w2 where b: "body (init fd, w1) = Some (go, s, w2)" "if go then Q (s, w2) else keeps sys maps fds (maps w) (fds w) rm rf R (s, w2)"
      using body unfolding ends_def by (metis prod.collapse)
    then have k: "keeps sys maps fds (maps w) (fds w) rm rf R (s, w2)" using Q [of s w2] by (auto split: if_splits)
    from cleanup [OF k] obtain w' where c: "cleanup s w2 = Some w'" "maps w' = maps w" "fds w' = fds w" by blast
    have "run_tool sys dev init body cleanup w = Some (if go then 0 else 1, w')" using op Inr b(1) c(1) by (simp add: run_tool_def run_program_def)
    then show ?thesis using c(2,3) op Inr b by (cases go) auto
  qed
qed

section \<open>The benchmarks\<close>

lemma vcam_bench_body_ends:
  assumes sys: "tool_system sys maps fds 4 frame"
  shows "ends (keeps sys maps fds M F bench_maps bench_fds (tool_fresh frame)) (vcam_bench_body sys dup csv frames)
    (keeps sys maps fds M F bench_maps bench_fds (tool_ready frame)) (keeps sys maps fds M F bench_maps bench_fds (tool_ok frame))"
proof -
  let ?K = "keeps sys maps fds M F bench_maps bench_fds"
  have out: "ends (?K (tool_fresh frame)) (tool_request_out sys) (?K (tool_half frame)) (?K (tool_ok frame))"
    unfolding tool_request_out_def of_nat_numeral by (rule ends_request [OF sys, where N = 4]) (auto simp: tool_defs)
  have cap: "ends (?K (tool_half frame)) (tool_request_cap sys) (?K (tool_ready frame)) (?K (tool_ok frame))"
    unfolding tool_request_cap_def of_nat_numeral by (rule ends_request [OF sys, where N = 4]) (auto simp: tool_defs)
  have frame: "ends (?K (tool_ready frame)) (vcam_bench_frame sys csv i) (?K (tool_ready frame)) (?K (tool_ok frame))" for i
    unfolding vcam_bench_frame_def
    by (intro ends_now [OF sys] ends_seq common_steps [OF sys] bench_capture_ends [OF sys]) (auto simp: tool_defs)
  show ?thesis
    unfolding vcam_bench_body_def
    by (rule ends_block common_steps [OF sys] tool_steps [OF sys] ends_loop frame out cap | simp add: tool_defs)+
qed

lemma vcam_bench_cleanup_run:
  assumes sys: "tool_system sys maps fds 4 frame"
    and "keeps sys maps fds M F bench_maps bench_fds (tool_ok frame) (s, w)"
  shows "\<exists>w'. vcam_bench_cleanup sys s w = Some w' \<and> maps w' = M \<and> fds w' = F"
proof -
  have k: "mem_valid sys maps w" "maps w = M + bench_maps s" "fds w = F + bench_fds s" "tool_ok frame s"
    using assms(2) by (simp_all add: keeps_def)
  obtain w1 w2 where s: "stream_off sys (tl_out_streaming s) (tl_fd s) V4L2_BUF_TYPE_VIDEO_OUTPUT w = Some w1"
    "stream_off sys (tl_cap_streaming s) (tl_fd s) V4L2_BUF_TYPE_VIDEO_CAPTURE w1 = Some w2"
    "maps w2 = maps w" "fds w2 = fds w" "mem_valid sys maps w2" by (rule streams_off [OF sys k(1)])
  obtain w3 where u1: "vpipe_unmap_buffers sys (tl_out_bufs s) 4 w2 = Some w3" "maps w3 = maps w2 - mapped (tl_out_bufs s)" "fds w3 = fds w2" "mem_valid sys maps w3"
    using unmap_run [OF sys _ s(5)] k(4) unfolding tool_ok_def by blast
  obtain w4 where u2: "vpipe_unmap_buffers sys (tl_cap_bufs s) 4 w3 = Some w4" "maps w4 = maps w3 - mapped (tl_cap_bufs s)" "fds w4 = fds w3"
    using unmap_run [OF sys _ u1(4)] k(4) unfolding tool_ok_def by blast
  show ?thesis
    using s u1 u2 k close_fd_run [OF sys, where fd = "tl_fd s" and w = w4] by (simp add: vcam_bench_cleanup_def bench_maps_def bench_fds_def)
qed

lemma vcam_bench_total:
  assumes sys: "tool_system sys maps fds 4 frame" and valid: "mem_valid sys maps w"
  shows "\<exists>status w'. vcam_bench_main sys dup argv w = Some (status, w') \<and> status \<le> 1 \<and> maps w' = maps w \<and> fds w' = fds w"
proof (cases "frames_arg 3 argv 6000")
  case (Some frames)
  have init: "bench_maps (tool_init fd) = {#} \<and> bench_fds (tool_init fd) = {#fd#} \<and> tool_fresh frame (tool_init fd)" if "0 \<le> fd" for fd
    using that by (simp add: tool_defs tool_init_def no_bufs_ok owned_def)
  show ?thesis
    using Some run_tool_balanced [where cleanup = "vcam_bench_cleanup sys", OF sys valid init vcam_bench_body_ends [OF sys, where dup = dup and csv = "arg_or 2 argv ''bench/vcam.csv''" and frames = frames]
        _ vcam_bench_cleanup_run [OF sys], where dev = "arg_or 1 argv ''/dev/video0''"]
    by (auto simp: vcam_bench_main_def keeps_def tool_ready_def)
qed (simp add: vcam_bench_main_def)

section \<open>The benchmark over an exported buffer\<close>

lemma ends_tool_export:
  assumes sys: "tool_system sys maps fds depth frame"
    and P: "\<And>s f. P s \<Longrightarrow> 0 \<le> f \<Longrightarrow> rm (s\<lparr>tl_src_fd := f\<rparr>) = rm s \<and> rf (s\<lparr>tl_src_fd := f\<rparr>) = add_mset f (rf s) \<and> Q (s\<lparr>tl_src_fd := f\<rparr>)"
    and R: "\<And>s. P s \<Longrightarrow> R s" "\<And>s. Q s \<Longrightarrow> R s"
    and bad: "\<And>s f. P s \<Longrightarrow> f < 0 \<Longrightarrow> rm (s\<lparr>tl_src_fd := f\<rparr>) = rm s \<and> rf (s\<lparr>tl_src_fd := f\<rparr>) = rf s \<and> R (s\<lparr>tl_src_fd := f\<rparr>)"
  shows "ends (keeps sys maps fds M F rm rf P) (tool_export sys) (keeps sys maps fds M F rm rf Q) (keeps sys maps fds M F rm rf R)"
proof (rule endsI)
  fix s w assume pre: "keeps sys maps fds M F rm rf P (s, w)"
  then have p: "P s" "mem_valid sys maps w" "maps w = M + rm s" "fds w = F + rf s" by (simp_all add: keeps_def)
  obtain r w' where x: "vpipe_xioctl sys (tl_fd s) IOC_EXPORT_SRC_DMABUF w = Some (r, w')"
    "maps w' = maps w" "fds w' = fds w + exported r" "mem_valid sys maps w \<longrightarrow> mem_valid sys maps w'"
    using xioctl_run [of sys maps fds "tl_fd s" IOC_EXPORT_SRC_DMABUF w] sys unfolding tool_system_def by metis
  show "\<exists>go s' w'. tool_export sys (s, w) = Some (go, s', w') \<and>
      (if go then keeps sys maps fds M F rm rf Q (s', w') else keeps sys maps fds M F rm rf R (s', w'))"
  proof (cases "\<exists>f. r = Inr (Reply_Fd f)")
    case True
    then obtain f where f: "r = Inr (Reply_Fd f)" by blast
    then show ?thesis
      using x p P [OF p(1), of f] bad [OF p(1), of f] R(2) by (cases "0 \<le> f") (auto simp: tool_export_def exported_def keeps_def)
  next
    case False
    then have "exported r = {#}" by (auto simp: exported_def split: sum.splits v4l2_reply.splits)
    moreover have "tool_export sys (s, w) = Some (False, s, w')"
      using x(1) False by (auto simp: tool_export_def split: sum.splits v4l2_reply.splits)
    ultimately show ?thesis using x p R(1) by (simp add: keeps_def)
  qed
qed

lemma dmabuf_bench_body_ends:
  assumes sys: "tool_system sys maps fds 4 frame"
  shows "ends (keeps sys maps fds M F dmabuf_maps dmabuf_fds (\<lambda>s. tool_half frame s \<and> tl_src_fd s = -1)) (dmabuf_bench_body sys dup csv frames)
    (keeps sys maps fds M F dmabuf_maps dmabuf_fds (tool_ready frame)) (keeps sys maps fds M F dmabuf_maps dmabuf_fds (tool_ok frame))"
proof -
  let ?K = "keeps sys maps fds M F dmabuf_maps dmabuf_fds"
  let ?A = "\<lambda>s. tool_half frame s \<and> tl_src_fd s = -1" and ?B = "\<lambda>s. tool_ready frame s \<and> tl_src_fd s = -1"
  have size: "ends (?K ?A) (sizeimage_into sys tl_fd V4L2_BUF_TYPE_VIDEO_OUTPUT (\<lambda>n s. s\<lparr>tl_sizeimage := n\<rparr>)) (?K ?A) (?K (tool_ok frame))"
    "ends (?K ?A) (check (\<lambda>s. tl_sizeimage s \<noteq> 0)) (?K ?A) (?K (tool_ok frame))"
    by (rule ends_sizeimage [OF sys], simp add: tool_defs) (rule ends_keeps_check, simp_all add: tool_defs)
  have req: "ends (?K ?A) (fetch (\<lambda>s. request_bufs sys (tl_fd s) 1 V4L2_BUF_TYPE_VIDEO_OUTPUT V4L2_MEMORY_DMABUF) (\<lambda>_. block [])) (?K ?A) (?K (tool_ok frame))"
    by (rule ends_fetch_any) (simp_all add: tool_half_def quietly_calls [OF sys] ends_block)
  have cap: "ends (?K ?A) (tool_request_cap sys) (?K ?B) (?K (tool_ok frame))"
    unfolding tool_request_cap_def of_nat_numeral by (rule ends_request [OF sys, where N = 4]) (auto simp: tool_defs)
  have ex: "ends (?K ?B) (tool_export sys) (?K (tool_ready frame)) (?K (tool_ok frame))"
    by (rule ends_tool_export [OF sys]) (auto simp: tool_defs owned_def)
  have frame: "ends (?K (tool_ready frame)) (dmabuf_bench_frame sys csv i) (?K (tool_ready frame)) (?K (tool_ok frame))" for i
    unfolding dmabuf_bench_frame_def
    by (intro ends_now [OF sys] ends_seq common_steps [OF sys] bench_capture_ends [OF sys]) (auto simp: tool_defs)
  show ?thesis
    unfolding dmabuf_bench_body_def
    by (rule size req ends_block common_steps [OF sys] tool_steps [OF sys] ends_loop frame cap ex | simp add: tool_defs)+
qed

lemma dmabuf_bench_cleanup_run:
  assumes sys: "tool_system sys maps fds 4 frame" and "keeps sys maps fds M F dmabuf_maps dmabuf_fds (tool_ok frame) (s, w)"
  shows "\<exists>w'. dmabuf_bench_cleanup sys s w = Some w' \<and> maps w' = M \<and> fds w' = F"
proof -
  have k: "mem_valid sys maps w" "maps w = M + dmabuf_maps s" "fds w = F + dmabuf_fds s" "tool_ok frame s"
    using assms(2) by (simp_all add: keeps_def)
  obtain w1 w2 where s: "stream_off sys (tl_out_streaming s) (tl_fd s) V4L2_BUF_TYPE_VIDEO_OUTPUT w = Some w1"
    "stream_off sys (tl_cap_streaming s) (tl_fd s) V4L2_BUF_TYPE_VIDEO_CAPTURE w1 = Some w2"
    "maps w2 = maps w" "fds w2 = fds w" "mem_valid sys maps w2" by (rule streams_off [OF sys k(1)])
  note c = close_fd_run [OF sys, where fd = "tl_src_fd s" and w = w2]
  obtain w3 where u: "vpipe_unmap_buffers sys (tl_cap_bufs s) 4 (close_fd sys (tl_src_fd s) w2) = Some w3"
    "maps w3 = maps (close_fd sys (tl_src_fd s) w2) - mapped (tl_cap_bufs s)" "fds w3 = fds (close_fd sys (tl_src_fd s) w2)"
    using unmap_run [OF sys _ c(3) [OF s(5)]] k(4) unfolding tool_ok_def by blast
  show ?thesis
    using s u k c close_fd_run [OF sys, where fd = "tl_fd s" and w = w3] by (simp add: dmabuf_bench_cleanup_def dmabuf_maps_def dmabuf_fds_def)
qed

lemma dmabuf_bench_total:
  assumes sys: "tool_system sys maps fds 4 frame" and valid: "mem_valid sys maps w"
  shows "\<exists>status w'. dmabuf_bench_main sys dup argv w = Some (status, w') \<and> status \<le> 1 \<and> maps w' = maps w \<and> fds w' = fds w"
proof (cases "frames_arg 3 argv 6000")
  case (Some frames)
  have init: "dmabuf_maps (tool_init fd) = {#} \<and> dmabuf_fds (tool_init fd) = {#fd#} \<and>
      (tool_half frame (tool_init fd) \<and> tl_src_fd (tool_init fd) = -1)" if "0 \<le> fd" for fd
    using that by (simp add: tool_defs tool_init_def no_bufs_ok owned_def)
  show ?thesis
    using Some run_tool_balanced [where cleanup = "dmabuf_bench_cleanup sys", OF sys valid init dmabuf_bench_body_ends [OF sys, where dup = dup and csv = "arg_or 2 argv ''bench/vcam-dmabuf.csv''" and frames = frames]
        _ dmabuf_bench_cleanup_run [OF sys], where dev = "arg_or 1 argv ''/dev/video0''"]
    by (auto simp: dmabuf_bench_main_def keeps_def tool_ready_def)
qed (simp add: dmabuf_bench_main_def)

section \<open>The test\<close>

lemma foreach_sum: "(\<And>x n. x \<in> set xs \<Longrightarrow> f x n = Some (n + c x)) \<Longrightarrow> foreach f xs n = Some (n + sum_list (map c xs))" for n :: nat
  by (induction xs arbitrary: n) (auto simp: algebra_simps)

text \<open>The pixels of a picture with the given stride that are not those of the gradient of its first byte.\<close>

definition wrong_pixels :: "u8 list \<Rightarrow> nat \<Rightarrow> nat \<Rightarrow> nat \<Rightarrow> (nat \<times> nat) set" where
  "wrong_pixels D width height stride = (SIGMA y:{..<height}. {x. x < width \<and> D ! (y * stride + x) \<noteq> gradient (D ! 0) x y})"

lemma test_mismatches_count:
  assumes D: "m a = Some D" "height * unat stride \<le> length D" and w: "width \<le> unat stride" "0 < width" "0 < height"
    and fits: "height * unat stride < 2 ^ 32"
  shows "test_mismatches m (a, 0) width height stride = Some (card (wrong_pixels D width height (unat stride)))"
proof -
  let ?bad = "\<lambda>y x. D ! (y * unat stride + x) \<noteq> gradient (D ! 0) x y"
  have "(ucast (ucast b :: u32) :: u8) = b" for b :: u8 by transfer (simp add: take_bit_eq_mod mod_mod_cancel)
  then have g: "gradient_byte (of_nat x) (of_nat y) (ucast (D ! 0)) = gradient (D ! 0) x y" for x y by (simp add: gradient_byte_u8 gradient_def)
  have lt: "y * unat stride + x < height * unat stride" if "y < height" "x < width" for x y
    using index_row_end [of y height width "unat stride"] that w(1) by linarith
  have idx: "unat (of_nat y * stride + of_nat x :: u32) = y * unat stride + x" if "y < height" "x < width" for x y
  proof -
    have "of_nat y * stride + of_nat x = (of_nat (y * unat stride + x) :: u32)" by simp
    moreover have "unat (of_nat (y * unat stride + x) :: u32) = y * unat stride + x"
      by (rule unat_of_nat_len) (use order_less_trans [OF lt [OF that] fits] in simp)
    ultimately show ?thesis by simp
  qed
  have px: "load m (a, int (unat (of_nat y * stride + of_nat x :: u32))) = Some (D ! (y * unat stride + x))" if "y < height" "x < width" for x y
    using lt [OF that] D idx [OF that] load_Some [of m a D "y * unat stride + x"] by simp
  have row: "foreach (\<lambda>x n. do { px \<leftarrow> load m (a, int (unat (of_nat y * stride + of_nat x :: u32)));
      Some (if px \<noteq> gradient_byte (of_nat x) (of_nat y) (ucast (D ! 0)) then n + 1 else n) }) [0..<width] n
      = Some (n + card {x. x < width \<and> ?bad y x})" if "y < height" for y and n :: nat
  proof -
    have "sum_list (map (\<lambda>x. if ?bad y x then 1 else 0) [0..<width]) = card {x. x < width \<and> ?bad y x}"
      by (simp add: interv_sum_list_conv_sum_set_nat sum.If_cases Int_def)
    then show ?thesis
      using foreach_sum [of "[0..<width]" _ "\<lambda>x. if ?bad y x then 1 else 0" n] px [OF that] by (simp add: g)
  qed
  have "0 < length D" using lt [OF w(3) w(2)] D(2) by linarith
  then have "load m (a, 0) = Some (D ! 0)" using D(1) load_Some [of m a D 0] by simp
  moreover have "sum_list (map (\<lambda>y. card {x. x < width \<and> ?bad y x}) [0..<height]) = card (wrong_pixels D width height (unat stride))"
    by (simp add: wrong_pixels_def interv_sum_list_conv_sum_set_nat lessThan_atLeast0)
  ultimately show ?thesis
    using foreach_sum [of "[0..<height]" _ "\<lambda>y. card {x. x < width \<and> ?bad y x}" 0] row
    by (simp add: test_mismatches_def ptr_add_def)
qed

text \<open>The format the driver reports has room for the rows of a frame.\<close>

definition format_law :: "('w, 'x) sys_scheme \<Rightarrow> bool" where
  "format_law sys \<longleftrightarrow> (\<forall>fd type w pix. fst (sys_ioctl sys fd (VIDIOC_G_FMT type) w) = Inr (Reply_Fmt pix) \<longrightarrow>
     WIDTH \<le> unat (pf_bytesperline pix) \<and> HEIGHT * unat (pf_bytesperline pix) \<le> unat (pf_sizeimage pix))"

definition test_geometry :: "test_state \<Rightarrow> bool" where
  "test_geometry s \<longleftrightarrow> WIDTH \<le> unat (ts_stride s) \<and> HEIGHT * unat (ts_stride s) \<le> tl_sizeimage s \<and> (\<exists>n::u32. tl_sizeimage s = unat n)"

definition test_unmapped :: "test_state \<Rightarrow> bool" where
  "test_unmapped s \<longleftrightarrow> ts_map s = Map_Failed"

lemma test_format_ends:
  assumes sys: "tool_system sys maps fds 4 frame" and fmt: "format_law sys"
  shows "ends (keeps sys maps fds M F test_maps dmabuf_fds (\<lambda>s. tool_fresh frame s \<and> tl_src_fd s = -1 \<and> test_unmapped s)) (test_format sys)
    (keeps sys maps fds M F test_maps dmabuf_fds (\<lambda>s. tool_fresh frame s \<and> tl_src_fd s = -1 \<and> test_unmapped s \<and> test_geometry s))
    (keeps sys maps fds M F test_maps dmabuf_fds (tool_ok frame))"
proof -
  let ?A = "\<lambda>pix. WIDTH \<le> unat (pf_bytesperline pix) \<and> HEIGHT * unat (pf_bytesperline pix) \<le> unat (pf_sizeimage pix)"
  have q: "quietly sys maps fds (\<lambda>w. do {
      (r, w) \<leftarrow> vpipe_xioctl sys fd (VIDIOC_G_FMT V4L2_BUF_TYPE_VIDEO_OUTPUT) w;
      Some (case r of Inr (Reply_Fmt pix) \<Rightarrow> Some pix | _ \<Rightarrow> None, w) }) (\<lambda>r. case r of None \<Rightarrow> True | Some pix \<Rightarrow> ?A pix)" for fd
    unfolding quietly_def
  proof
    fix w
    obtain r w' v where x: "vpipe_xioctl sys fd (VIDIOC_G_FMT V4L2_BUF_TYPE_VIDEO_OUTPUT) w = Some (r, w')"
      "sys_ioctl sys fd (VIDIOC_G_FMT V4L2_BUF_TYPE_VIDEO_OUTPUT) v = (r, w')" "quiet sys maps fds w w'"
      using system_xioctl [OF sys, of "VIDIOC_G_FMT V4L2_BUF_TYPE_VIDEO_OUTPUT" fd w] by auto
    have "?A pix" if "r = Inr (Reply_Fmt pix)" for pix using fmt x(2) that unfolding format_law_def by (metis fst_conv)
    then show "\<exists>r w'. do { (r, w) \<leftarrow> vpipe_xioctl sys fd (VIDIOC_G_FMT V4L2_BUF_TYPE_VIDEO_OUTPUT) w;
        Some (case r of Inr (Reply_Fmt pix) \<Rightarrow> Some pix | _ \<Rightarrow> None, w) } = Some (r, w') \<and> quiet sys maps fds w w' \<and>
        (case r of None \<Rightarrow> True | Some pix \<Rightarrow> ?A pix)"
      using x(1,3) by (auto split: sum.split v4l2_reply.split)
  qed
  show ?thesis
    unfolding test_format_def
  proof (rule ends_fetch [where A = ?A])
    fix pix assume A: "?A pix"
    show "ends (keeps sys maps fds M F test_maps dmabuf_fds (\<lambda>s. tool_fresh frame s \<and> tl_src_fd s = -1 \<and> test_unmapped s))
      (block [assign (\<lambda>s. s\<lparr>ts_stride := pf_bytesperline pix, tl_sizeimage := unat (pf_sizeimage pix)\<rparr>), check (\<lambda>s. ts_stride s \<noteq> 0 \<and> tl_sizeimage s \<noteq> 0)])
      (keeps sys maps fds M F test_maps dmabuf_fds (\<lambda>s. tool_fresh frame s \<and> tl_src_fd s = -1 \<and> test_unmapped s \<and> test_geometry s))
      (keeps sys maps fds M F test_maps dmabuf_fds (tool_ok frame))"
      by (rule ends_block(2) [OF ends_keeps_assign [where Q = "\<lambda>s. tool_fresh frame s \<and> tl_src_fd s = -1 \<and> test_unmapped s \<and> test_geometry s"]
            ends_block(2) [OF ends_keeps_check ends_block(1)]])
        (use A in \<open>auto simp: tool_defs test_unmapped_def test_geometry_def\<close>)
  qed (use q in \<open>auto simp: tool_fresh_def\<close>)
qed

lemma test_import_ends:
  assumes sys: "tool_system sys maps fds 4 frame"
  shows "ends (keeps sys maps fds M F test_maps dmabuf_fds (\<lambda>s. tool_ready frame s \<and> test_unmapped s \<and> test_geometry s)) (test_import sys)
    (keeps sys maps fds M F test_maps dmabuf_fds (\<lambda>s. tool_ok frame s \<and> (\<exists>a. ts_map s = Addr a) \<and> test_geometry s))
    (keeps sys maps fds M F test_maps dmabuf_fds (tool_ok frame))"
proof (rule endsI)
  fix s w assume pre: "keeps sys maps fds M F test_maps dmabuf_fds (\<lambda>s. tool_ready frame s \<and> test_unmapped s \<and> test_geometry s) (s, w)"
  obtain addr w' where m: "sys_mmap sys (tl_sizeimage s) (tl_src_fd s) 0 w = (addr, w')" by fastforce
  have laws: "sys_laws sys maps" "run_laws sys maps fds" using sys by (simp_all add: tool_system_def)
  note l = mmap_maps [OF laws(1) m]
    run_laws_mmap(1,2) [OF laws(2), where n = "tl_sizeimage s" and fd = "tl_src_fd s" and off = 0 and w = w, unfolded m snd_conv]
  show "\<exists>go s' w'. test_import sys (s, w) = Some (go, s', w') \<and>
      (if go then keeps sys maps fds M F test_maps dmabuf_fds (\<lambda>s. tool_ok frame s \<and> (\<exists>a. ts_map s = Addr a) \<and> test_geometry s) (s', w')
       else keeps sys maps fds M F test_maps dmabuf_fds (tool_ok frame) (s', w'))"
    using pre m l by (cases addr) (simp_all add: test_import_def keeps_def tool_defs test_unmapped_def test_geometry_def)
qed

text \<open>The test ends well with a mapped picture that has no wrong pixel.\<close>

definition test_passed :: "('w, 'x) run_sys_scheme \<Rightarrow> test_state \<times> 'w \<Rightarrow> bool" where
  "test_passed sys = (\<lambda>(s, w). \<exists>a D. ts_map s = Addr a \<and> run_mem sys w a = Some D \<and> HEIGHT * unat (ts_stride s) \<le> length D \<and>
     WIDTH \<le> unat (ts_stride s) \<and> wrong_pixels D WIDTH HEIGHT (unat (ts_stride s)) = {})"

lemma test_verify_ends:
  "ends (keeps sys maps fds M F test_maps dmabuf_fds (\<lambda>s. tool_ok frame s \<and> (\<exists>a. ts_map s = Addr a) \<and> test_geometry s)) (test_verify sys)
    (\<lambda>sw. keeps sys maps fds M F test_maps dmabuf_fds (tool_ok frame) sw \<and> test_passed sys sw)
    (keeps sys maps fds M F test_maps dmabuf_fds (tool_ok frame))"
proof (rule endsI)
  fix s w assume pre: "keeps sys maps fds M F test_maps dmabuf_fds (\<lambda>s. tool_ok frame s \<and> (\<exists>a. ts_map s = Addr a) \<and> test_geometry s) (s, w)"
  then obtain a where a: "ts_map s = Addr a" by (auto simp: keeps_def)
  have geo: "WIDTH \<le> unat (ts_stride s)" "HEIGHT * unat (ts_stride s) \<le> tl_sizeimage s" "\<exists>n::u32. tl_sizeimage s = unat n"
    using pre by (simp_all add: keeps_def test_geometry_def)
  have "(a, tl_sizeimage s) \<in># maps w" using pre a by (auto simp: keeps_def test_maps_def)
  then obtain D where D: "run_mem sys w a = Some D" "tl_sizeimage s \<le> length D"
    using pre unfolding keeps_def mem_valid_def by blast
  have fits: "HEIGHT * unat (ts_stride s) < 2 ^ 32"
  proof -
    obtain n :: u32 where "tl_sizeimage s = unat n" using geo(3) by blast
    moreover have "unat n < 2 ^ LENGTH(32)" by (rule unsigned_less)
    ultimately show ?thesis using order_le_less_trans [OF geo(2)] by simp
  qed
  let ?bad = "wrong_pixels D WIDTH HEIGHT (unat (ts_stride s))"
  have len: "HEIGHT * unat (ts_stride s) \<le> length D" using geo(2) D(2) by (rule order_trans)
  have count: "test_mismatches (run_mem sys w) (a, 0) WIDTH HEIGHT (ts_stride s) = Some (card ?bad)"
    by (rule test_mismatches_count, rule D(1), rule len, rule geo(1), simp add: WIDTH_def, simp add: HEIGHT_def, rule fits)
  have fin: "finite ?bad" by (simp add: wrong_pixels_def)
  have bytes: "load_bytes (run_mem sys w) (a, 0) (tl_sizeimage s) = Some (take (tl_sizeimage s) D)" using D by (rule load_bytes_block)
  let ?s' = "s\<lparr>tl_crc := snd (vpipe_crc32 (take (tl_sizeimage s) D) (tl_crc s))\<rparr>"
  have run: "test_verify sys (s, w) = Some (card ?bad = 0, ?s', w)" using a count bytes by (simp add: test_verify_def)
  have k: "keeps sys maps fds M F test_maps dmabuf_fds (tool_ok frame) (?s', w)" using pre a by (simp add: keeps_def tool_defs)
  have "card ?bad = 0 \<longrightarrow> test_passed sys (?s', w)"
    using a D(1) len geo(1) fin unfolding test_passed_def by auto
  with run k show "\<exists>go s' w'. test_verify sys (s, w) = Some (go, s', w') \<and>
      (if go then keeps sys maps fds M F test_maps dmabuf_fds (tool_ok frame) (s', w') \<and> test_passed sys (s', w')
       else keeps sys maps fds M F test_maps dmabuf_fds (tool_ok frame) (s', w'))"
    by (intro exI [of _ "card ?bad = 0"] exI [of _ ?s'] exI [of _ w]) (simp del: card_0_eq)
qed

lemma dmabuf_test_body_ends:
  assumes sys: "tool_system sys maps fds 4 frame" and fmt: "format_law sys"
  shows "ends (keeps sys maps fds M F test_maps dmabuf_fds (\<lambda>s. tool_fresh frame s \<and> tl_src_fd s = -1 \<and> test_unmapped s)) (dmabuf_test_body sys frames)
    (\<lambda>sw. keeps sys maps fds M F test_maps dmabuf_fds (tool_ok frame) sw \<and> test_passed sys sw)
    (keeps sys maps fds M F test_maps dmabuf_fds (tool_ok frame))"
proof -
  let ?K = "keeps sys maps fds M F test_maps dmabuf_fds" and ?rest = "\<lambda>s. tl_src_fd s = -1 \<and> test_unmapped s \<and> test_geometry s"
  note defs = tool_defs test_unmapped_def test_geometry_def
  have out: "ends (?K (\<lambda>s. tool_fresh frame s \<and> ?rest s)) (tool_request_out sys) (?K (\<lambda>s. tool_half frame s \<and> ?rest s)) (?K (tool_ok frame))"
    unfolding tool_request_out_def of_nat_numeral by (rule ends_request [OF sys, where N = 4]) (auto simp: defs)
  have cap: "ends (?K (\<lambda>s. tool_half frame s \<and> ?rest s)) (tool_request_cap sys) (?K (\<lambda>s. tool_ready frame s \<and> ?rest s)) (?K (tool_ok frame))"
    unfolding tool_request_cap_def of_nat_numeral by (rule ends_request [OF sys, where N = 4]) (auto simp: defs)
  have ex: "ends (?K (\<lambda>s. tool_ready frame s \<and> ?rest s)) (tool_export sys)
      (?K (\<lambda>s. tool_ready frame s \<and> test_unmapped s \<and> test_geometry s)) (?K (tool_ok frame))"
    by (rule ends_tool_export [OF sys]) (auto simp: defs owned_def)
  have frame: "ends (?K (\<lambda>s. tool_ready frame s \<and> ?rest s)) (test_frame sys i) (?K (\<lambda>s. tool_ready frame s \<and> ?rest s)) (?K (tool_ok frame))" for i
    unfolding test_frame_def by (intro ends_seq ends_dqbuf [OF sys] common_steps [OF sys]) (auto simp: tool_ready_def)
  have start: "ends (?K (\<lambda>s. tool_fresh frame s \<and> tl_src_fd s = -1 \<and> test_unmapped s)) (call (\<lambda>s. set_backend sys (tl_fd s) VPIPE_BACKEND_VCAM_DERIVED))
        (?K (\<lambda>s. tool_fresh frame s \<and> tl_src_fd s = -1 \<and> test_unmapped s)) (?K (tool_ok frame))"
      "ends (?K (\<lambda>s. tool_fresh frame s \<and> tl_src_fd s = -1 \<and> test_unmapped s)) (tool_formats sys)
        (?K (\<lambda>s. tool_fresh frame s \<and> tl_src_fd s = -1 \<and> test_unmapped s)) (?K (tool_ok frame))"
    by (rule common_steps [OF sys], simp add: defs) (rule formats_keep [OF sys]; simp add: defs cong: uaddr.case_cong)
  have ready: "ends (?K (\<lambda>s. tool_ready frame s \<and> ?rest s)) (call (\<lambda>s. set_ctrl sys (tl_fd s) VPIPE_CID_ALGO VPIPE_ALGO_NONE))
        (?K (\<lambda>s. tool_ready frame s \<and> ?rest s)) (?K (tool_ok frame))"
      "ends (?K (\<lambda>s. tool_ready frame s \<and> ?rest s)) (each (tool_queue_capture sys) [0..<4]) (?K (\<lambda>s. tool_ready frame s \<and> ?rest s)) (?K (tool_ok frame))"
      "ends (?K (\<lambda>s. tool_ready frame s \<and> ?rest s)) (tool_streamon sys) (?K (\<lambda>s. tool_ready frame s \<and> ?rest s)) (?K (tool_ok frame))"
    by (rule common_steps [OF sys], simp add: defs)
      (rule queue_keep [OF sys] streamon_keep [OF sys]; simp add: defs cong: uaddr.case_cong)+
  note seq = ends_block(2)
  show ?thesis
    unfolding dmabuf_test_body_def
    by (rule seq [OF start(1) seq [OF start(2) seq [OF test_format_ends [OF sys fmt] seq [OF out seq [OF cap seq [OF ready(1) seq [OF ready(2)
          seq [OF ready(3) seq [OF ends_loop [OF frame] seq [OF ex seq [OF test_import_ends [OF sys] seq [OF test_verify_ends ends_block(1)]]]]]]]]]]]])
qed

lemma dmabuf_test_cleanup_run:
  assumes sys: "tool_system sys maps fds 4 frame" and "keeps sys maps fds M F test_maps dmabuf_fds (tool_ok frame) (s, w)"
  shows "\<exists>w'. dmabuf_test_cleanup sys s w = Some w' \<and> maps w' = M \<and> fds w' = F"
proof -
  have k: "mem_valid sys maps w" "maps w = M + test_maps s" "fds w = F + dmabuf_fds s" "tool_ok frame s"
    using assms(2) by (simp_all add: keeps_def)
  have laws: "sys_laws sys maps" "run_laws sys maps fds" using sys by (simp_all add: tool_system_def)
  then have um: "maps (sys_munmap sys a n v) = maps v - {#(a, n)#}" for a n v unfolding sys_laws_def by blast
  define v where "v = (case ts_map s of Addr a \<Rightarrow> sys_munmap sys a (tl_sizeimage s) w | _ \<Rightarrow> w)"
  have v: "maps v = M + mapped (tl_cap_bufs s) + mapped (tl_out_bufs s)" "fds v = fds w" "mem_valid sys maps v"
    using k(1,2) unfolding v_def by (cases "ts_map s"; simp add: run_laws_mmap [OF laws(2)] um test_maps_def)+
  define w0 where "w0 = close_fd sys (tl_src_fd s) v"
  have w0: "maps w0 = M + mapped (tl_cap_bufs s) + mapped (tl_out_bufs s)" "fds w0 = F + owned (tl_fd s)" "mem_valid sys maps w0"
    using k(3) v unfolding w0_def by (simp_all add: close_fd_run [OF sys] dmabuf_fds_def)
  obtain w1 w2 where s: "stream_off sys (tl_out_streaming s) (tl_fd s) V4L2_BUF_TYPE_VIDEO_OUTPUT w0 = Some w1"
    "stream_off sys (tl_cap_streaming s) (tl_fd s) V4L2_BUF_TYPE_VIDEO_CAPTURE w1 = Some w2"
    "maps w2 = maps w0" "fds w2 = fds w0" "mem_valid sys maps w2" by (rule streams_off [OF sys w0(3)])
  obtain w3 where u1: "vpipe_unmap_buffers sys (tl_out_bufs s) 4 w2 = Some w3" "maps w3 = maps w2 - mapped (tl_out_bufs s)" "fds w3 = fds w2" "mem_valid sys maps w3"
    using unmap_run [OF sys _ s(5)] k(4) unfolding tool_ok_def by blast
  obtain w4 where u2: "vpipe_unmap_buffers sys (tl_cap_bufs s) 4 w3 = Some w4" "maps w4 = maps w3 - mapped (tl_cap_bufs s)" "fds w4 = fds w3"
    using unmap_run [OF sys _ u1(4)] k(4) unfolding tool_ok_def by blast
  have "dmabuf_test_cleanup sys s w = Some (close_fd sys (tl_fd s) w4)"
    using s(1,2) u1(1) u2(1) by (simp add: dmabuf_test_cleanup_def w0_def v_def)
  then show ?thesis
    using s u1 u2 w0 close_fd_run [OF sys, where fd = "tl_fd s" and w = w4] by simp
qed

lemma dmabuf_test_total:
  assumes sys: "tool_system sys maps fds 4 frame" and fmt: "format_law sys" and valid: "mem_valid sys maps w"
  shows "\<exists>status w'. dmabuf_test_main sys argv w = Some (status, w') \<and> status \<le> 1 \<and> maps w' = maps w \<and> fds w' = fds w \<and>
    (status = 0 \<longrightarrow> (\<exists>frames fd w1 s v. run_open sys (arg_or 1 argv ''/dev/video0'') w = (Inr fd, w1) \<and>
       dmabuf_test_body sys frames (test_init fd, w1) = Some (True, s, v) \<and> test_passed sys (s, v)))"
proof (cases "frames_arg 2 argv 16")
  case (Some frames)
  have init: "test_maps (test_init fd) = {#} \<and> dmabuf_fds (test_init fd) = {#fd#} \<and>
      (tool_fresh frame (test_init fd) \<and> tl_src_fd (test_init fd) = -1 \<and> test_unmapped (test_init fd))" if "0 \<le> fd" for fd
    using that by (simp add: tool_defs test_init_def tool_init_def tool_state.extend_def test_unmapped_def no_bufs_ok owned_def)
  show ?thesis
    using Some run_tool_balanced [where cleanup = "dmabuf_test_cleanup sys", OF sys valid init dmabuf_test_body_ends [OF sys fmt, where frames = frames] _ dmabuf_test_cleanup_run [OF sys],
        where dev = "arg_or 1 argv ''/dev/video0''"]
    by (fastforce simp: dmabuf_test_main_def)
qed (simp add: dmabuf_test_main_def)

section \<open>The properties\<close>


lemma demo_format: "format_law demo_run"
  by (simp add: format_law_def demo_tool_sys_def demo_ioctl_def WIDTH_def HEIGHT_def)


end
