(* ===== verification/User_Capture_Tools.thy ===== *)
theory User_Capture_Tools
  imports Tool_Rules
begin

text \<open>
  The programs that move frames from a capture device through the pipeline: user/vpipe-capture-m2m.c
  and user/vpipe-capture-dmabuf.c.  Each frame is dequeued at the capture device, handed to the
  mem2mem device, by reference or by copying, and captured there.
\<close>

unbundle bit_operations_syntax

section \<open>Variables and common steps\<close>

abbreviation (input) CAPTURE_BUFFERS :: nat where "CAPTURE_BUFFERS \<equiv> 4"

record m2m_state =
  cm_vivid_fd :: int
  cm_vpipe_fd :: int
  cm_vivid_bufs :: "vpipe_mmap_buffer list"
  cm_out_bufs :: "vpipe_mmap_buffer list"
  cm_vpipe_bufs :: "vpipe_mmap_buffer list"
  cm_vivid_sizeimage :: nat
  cm_out_sizeimage :: nat
  cm_vivid_streaming :: bool
  cm_cap_streaming :: bool
  cm_out_streaming :: bool

definition m2m_init :: m2m_state where
  "m2m_init = \<lparr>cm_vivid_fd = -1, cm_vpipe_fd = -1, cm_vivid_bufs = no_bufs CAPTURE_BUFFERS, cm_out_bufs = no_bufs CAPTURE_BUFFERS,
     cm_vpipe_bufs = no_bufs CAPTURE_BUFFERS, cm_vivid_sizeimage = 0, cm_out_sizeimage = 0, cm_vivid_streaming = False,
     cm_cap_streaming = False, cm_out_streaming = False\<rparr>"

definition export_dmabuf :: "('w, 'x) run_sys_scheme \<Rightarrow> int \<Rightarrow> buf_type \<Rightarrow> u32 \<Rightarrow> 'w \<Rightarrow> (int \<times> 'w) option" where
  "export_dmabuf sys fd type index w = do {
     (r, w) \<leftarrow> vpipe_xioctl sys fd (VIDIOC_EXPBUF type index) w;
     Some (case r of Inr (Reply_Fd f) \<Rightarrow> f | _ \<Rightarrow> -1, w) }"

definition m2m_memory :: "transport_mode \<Rightarrow> u32" where
  "m2m_memory mode = (case mode of TRANSPORT_DMABUF \<Rightarrow> V4L2_MEMORY_DMABUF | TRANSPORT_MMAP \<Rightarrow> V4L2_MEMORY_MMAP)"

text \<open>Opening both devices, their formats, and their queues.\<close>

definition m2m_setup :: "('w, 'x) run_sys_scheme \<Rightarrow> string \<Rightarrow> string \<Rightarrow> transport_mode \<Rightarrow> (m2m_state, 'w) step" where
  "m2m_setup sys vivid vpipe mode = block
     [open_into sys vivid (\<lambda>f s. s\<lparr>cm_vivid_fd := f\<rparr>),
      open_into sys vpipe (\<lambda>f s. s\<lparr>cm_vpipe_fd := f\<rparr>),
      call (\<lambda>s. vpipe_set_format sys (cm_vivid_fd s) V4L2_BUF_TYPE_VIDEO_CAPTURE 640 480 V4L2_PIX_FMT_GREY),
      call (\<lambda>s. vpipe_set_format sys (cm_vpipe_fd s) V4L2_BUF_TYPE_VIDEO_OUTPUT 640 480 V4L2_PIX_FMT_GREY),
      call (\<lambda>s. vpipe_set_format sys (cm_vpipe_fd s) V4L2_BUF_TYPE_VIDEO_CAPTURE 640 480 V4L2_PIX_FMT_GREY),
      sizeimage_into sys cm_vivid_fd V4L2_BUF_TYPE_VIDEO_CAPTURE (\<lambda>n s. s\<lparr>cm_vivid_sizeimage := n\<rparr>),
      sizeimage_into sys cm_vpipe_fd V4L2_BUF_TYPE_VIDEO_OUTPUT (\<lambda>n s. s\<lparr>cm_out_sizeimage := n\<rparr>),
      check (\<lambda>s. cm_vivid_sizeimage s \<noteq> 0 \<and> cm_out_sizeimage s \<noteq> 0),
      request_into sys (of_nat CAPTURE_BUFFERS) V4L2_BUF_TYPE_VIDEO_CAPTURE cm_vivid_fd cm_vivid_bufs (\<lambda>b s. s\<lparr>cm_vivid_bufs := b\<rparr>),
      request_into sys (of_nat CAPTURE_BUFFERS) V4L2_BUF_TYPE_VIDEO_CAPTURE cm_vpipe_fd cm_vpipe_bufs (\<lambda>b s. s\<lparr>cm_vpipe_bufs := b\<rparr>),
      fetch (\<lambda>s. request_bufs sys (cm_vpipe_fd s) (of_nat CAPTURE_BUFFERS) V4L2_BUF_TYPE_VIDEO_OUTPUT (m2m_memory mode)) (\<lambda>_. block [])]"

text \<open>One turn of the loop that exports and queues the capture buffers.\<close>

definition m2m_export :: "('w, 'x) run_sys_scheme \<Rightarrow> nat \<Rightarrow> (m2m_state, 'w) step" where
  "m2m_export sys i = (\<lambda>(s, w). do {
     (f, w) \<leftarrow> export_dmabuf sys (cm_vivid_fd s) V4L2_BUF_TYPE_VIDEO_CAPTURE (of_nat i) w;
     if length (cm_vivid_bufs s) \<le> i then None
     else Some (0 \<le> f, s\<lparr>cm_vivid_bufs := (cm_vivid_bufs s)[i := (cm_vivid_bufs s ! i)\<lparr>mb_dmabuf_fd := f\<rparr>]\<rparr>, w) })"

definition m2m_prepare :: "('w, 'x) run_sys_scheme \<Rightarrow> transport_mode \<Rightarrow> nat \<Rightarrow> (m2m_state, 'w) step" where
  "m2m_prepare sys mode i = block
     [if mode = TRANSPORT_DMABUF then m2m_export sys i else block [],
      call (\<lambda>s. vpipe_queue_mmap_buffer sys (cm_vivid_fd s) V4L2_BUF_TYPE_VIDEO_CAPTURE V4L2_MEMORY_MMAP (of_nat i) (-1)),
      call (\<lambda>s. vpipe_queue_mmap_buffer sys (cm_vpipe_fd s) V4L2_BUF_TYPE_VIDEO_CAPTURE V4L2_MEMORY_MMAP (of_nat i) (-1))]"

definition m2m_streamon :: "('w, 'x) run_sys_scheme \<Rightarrow> (m2m_state, 'w) step" where
  "m2m_streamon sys = block
     [call (\<lambda>s. stream_on sys (cm_vivid_fd s) V4L2_BUF_TYPE_VIDEO_CAPTURE), assign (\<lambda>s. s\<lparr>cm_vivid_streaming := True\<rparr>),
      call (\<lambda>s. stream_on sys (cm_vpipe_fd s) V4L2_BUF_TYPE_VIDEO_CAPTURE), assign (\<lambda>s. s\<lparr>cm_cap_streaming := True\<rparr>),
      call (\<lambda>s. stream_on sys (cm_vpipe_fd s) V4L2_BUF_TYPE_VIDEO_OUTPUT), assign (\<lambda>s. s\<lparr>cm_out_streaming := True\<rparr>)]"

text \<open>
  The buffer given to the mem2mem device: the captured one by its descriptor, or the buffer of
  the same index of the device's own queue, filled with as much of the frame as both hold.
\<close>

definition m2m_copy_len :: "v4l2_buffer \<Rightarrow> vpipe_mmap_buffer \<Rightarrow> vpipe_mmap_buffer \<Rightarrow> nat" where
  "m2m_copy_len dq from to =
     (let n = unat (ub_bytesused dq);
          n = (if n > mb_length from then mb_length from else n)
      in if n > mb_length to then mb_length to else n)"

definition m2m_submit :: "('w, 'x) run_sys_scheme \<Rightarrow> transport_mode \<Rightarrow> v4l2_buffer \<Rightarrow> (m2m_state, 'w) step" where
  "m2m_submit sys mode dq = (\<lambda>(s, w).
     let i = unat (ub_index dq); b = (zero_buf V4L2_BUF_TYPE_VIDEO_OUTPUT (m2m_memory mode) (ub_index dq))\<lparr>ub_bytesused := ub_bytesused dq\<rparr>
     in if length (cm_vivid_bufs s) \<le> i then None
        else let from = cm_vivid_bufs s ! i
        in case mode of
          TRANSPORT_DMABUF \<Rightarrow> call (\<lambda>s. qbuf sys (cm_vpipe_fd s) (b\<lparr>ub_fd := mb_dmabuf_fd from, ub_length := of_nat (mb_length from)\<rparr>)) (s, w)
        | TRANSPORT_MMAP \<Rightarrow>
            if length (cm_out_bufs s) \<le> i then None
            else do {
              let to = cm_out_bufs s ! i;
              let n = m2m_copy_len dq from to;
              dst \<leftarrow> buf_addr (cm_out_bufs s) i;
              src \<leftarrow> buf_addr (cm_vivid_bufs s) i;
              m \<leftarrow> memcpy (run_mem sys w) dst src n;
              call (\<lambda>s. qbuf sys (cm_vpipe_fd s) (b\<lparr>ub_bytesused := of_nat n, ub_length := of_nat (mb_length to)\<rparr>)) (s, run_put sys m w) })"

text \<open>
  A turn of the loop of frames; \<open>controls\<close> are the values set before the frame is submitted,
  \<open>row\<close> the line written for it.
\<close>

definition m2m_frame ::
    "('w, 'x) run_sys_scheme \<Rightarrow> transport_mode \<Rightarrow> (v4l2_buffer \<Rightarrow> (u32 \<times> s32) list) \<Rightarrow>
     (m2m_state \<Rightarrow> v4l2_buffer \<Rightarrow> v4l2_buffer \<Rightarrow> u64 \<Rightarrow> u64 \<Rightarrow> u8 list) \<Rightarrow> string \<Rightarrow> (m2m_state, 'w) step" where
  "m2m_frame sys mode controls row csv =
     fetch (\<lambda>s. dqbuf sys (cm_vivid_fd s) V4L2_BUF_TYPE_VIDEO_CAPTURE V4L2_MEMORY_MMAP) (\<lambda>vivid_dq.
     tool_now sys (\<lambda>vivid_ns. block
       [check (\<lambda>_. unat (ub_index vivid_dq) < CAPTURE_BUFFERS),
        each (\<lambda>(cid, v). call (\<lambda>s. set_ctrl sys (cm_vpipe_fd s) cid v)) (controls vivid_dq),
        m2m_submit sys mode vivid_dq,
        fetch (\<lambda>s. dqbuf sys (cm_vpipe_fd s) V4L2_BUF_TYPE_VIDEO_CAPTURE V4L2_MEMORY_MMAP) (\<lambda>vpipe_dq.
        tool_now sys (\<lambda>vpipe_ns.
        fetch (\<lambda>s. dqbuf sys (cm_vpipe_fd s) V4L2_BUF_TYPE_VIDEO_OUTPUT (m2m_memory mode)) (\<lambda>out_dq. block
          [call (\<lambda>s w. Some (True, snd (os_fwrite (run_fs sys) csv (row s vivid_dq vpipe_dq vivid_ns vpipe_ns) w))),
           call (\<lambda>s. qbuf sys (cm_vpipe_fd s) vpipe_dq),
           call (\<lambda>s. qbuf sys (cm_vivid_fd s) vivid_dq)])))]))"

definition m2m_streams_off :: "('w, 'x) run_sys_scheme \<Rightarrow> m2m_state \<Rightarrow> 'w \<Rightarrow> 'w option" where
  "m2m_streams_off sys s w = do {
     w \<leftarrow> stream_off sys (0 \<le> cm_vpipe_fd s \<and> cm_out_streaming s) (cm_vpipe_fd s) V4L2_BUF_TYPE_VIDEO_OUTPUT w;
     w \<leftarrow> stream_off sys (0 \<le> cm_vpipe_fd s \<and> cm_cap_streaming s) (cm_vpipe_fd s) V4L2_BUF_TYPE_VIDEO_CAPTURE w;
     stream_off sys (0 \<le> cm_vivid_fd s \<and> cm_vivid_streaming s) (cm_vivid_fd s) V4L2_BUF_TYPE_VIDEO_CAPTURE w }"

section \<open>user/vpipe-capture-m2m.c\<close>

definition m2m_header :: string where
  "m2m_header = ''frame,transport,algo,vivid_sequence,vpipe_sequence,vivid_dq_monotonic_'' @ ''ns,vpipe_dq_monotonic_ns,vpipe_bytesused''"

definition m2m_controls :: "u32 \<Rightarrow> u64 \<Rightarrow> v4l2_buffer \<Rightarrow> (u32 \<times> s32) list" where
  "m2m_controls algo threshold dq =
     [(VPIPE_CID_SRC_SEQUENCE, ub_sequence dq), (VPIPE_CID_ALGO, algo), (VPIPE_CID_THRESHOLD, ucast threshold)]"

definition m2m_row :: "string \<Rightarrow> string \<Rightarrow> nat \<Rightarrow> m2m_state \<Rightarrow> v4l2_buffer \<Rightarrow> v4l2_buffer \<Rightarrow> u64 \<Rightarrow> u64 \<Rightarrow> u8 list" where
  "m2m_row transport algo i s vivid_dq vpipe_dq vivid_ns vpipe_ns = csv_join [dec i, bytes_of transport, bytes_of algo,
     dec (unat (ub_sequence vivid_dq)), dec (unat (ub_sequence vpipe_dq)), dec (unat vivid_ns), dec (unat vpipe_ns),
     dec (unat (ub_bytesused vpipe_dq))]"

definition capture_m2m_body ::
    "('w, 'x) run_sys_scheme \<Rightarrow> bool \<Rightarrow> string \<Rightarrow> string \<Rightarrow> string \<Rightarrow> transport_mode \<Rightarrow> string \<Rightarrow> u32 \<Rightarrow> string \<Rightarrow> u64 \<Rightarrow> nat \<Rightarrow>
     (m2m_state, 'w) step" where
  "capture_m2m_body sys dup vivid vpipe csv mode transport_name algo_id algo_name threshold frames = block
     [m2m_setup sys vivid vpipe mode,
      if mode = TRANSPORT_MMAP
      then request_into sys (of_nat CAPTURE_BUFFERS) V4L2_BUF_TYPE_VIDEO_OUTPUT cm_vpipe_fd cm_out_bufs (\<lambda>b s. s\<lparr>cm_out_bufs := b\<rparr>)
      else block [],
      tool_csv sys dup csv m2m_header,
      each (m2m_prepare sys mode) [0..<CAPTURE_BUFFERS],
      m2m_streamon sys,
      each (\<lambda>i. m2m_frame sys mode (m2m_controls algo_id threshold) (m2m_row transport_name algo_name i) csv) [0..<frames]]"

definition capture_m2m_cleanup :: "('w, 'x) run_sys_scheme \<Rightarrow> m2m_state \<Rightarrow> 'w \<Rightarrow> 'w option" where
  "capture_m2m_cleanup sys s w = do {
     w \<leftarrow> m2m_streams_off sys s w;
     w \<leftarrow> vpipe_unmap_buffers sys (cm_vivid_bufs s) CAPTURE_BUFFERS w;
     w \<leftarrow> vpipe_unmap_buffers sys (cm_out_bufs s) CAPTURE_BUFFERS w;
     w \<leftarrow> vpipe_unmap_buffers sys (cm_vpipe_bufs s) CAPTURE_BUFFERS w;
     Some (close_fd sys (cm_vivid_fd s) (close_fd sys (cm_vpipe_fd s) w)) }"

definition threshold_arg :: "nat \<Rightarrow> string list \<Rightarrow> u64 option" where
  "threshold_arg i argv = (if length argv > i then parse_uint_range (Some (bytes_of (argv ! i))) 0 255 else Some 127)"

definition capture_m2m_main :: "('w, 'x) run_sys_scheme \<Rightarrow> bool \<Rightarrow> string list \<Rightarrow> 'w \<Rightarrow> (nat \<times> 'w) option" where
  "capture_m2m_main sys dup argv w =
     (let vivid = arg_or 1 argv ''/dev/video0''; vpipe = arg_or 2 argv ''/dev/video1''; csv = arg_or 3 argv ''bench/m2m.csv'';
          transport_name = arg_or 5 argv ''dmabuf''; algo_name = arg_or 6 argv ''none''
      in case (parse_transport transport_name, parse_algo algo_name, frames_arg 4 argv 600, threshold_arg 7 argv) of
           (Some mode, Some algo_id, Some frames, Some threshold) \<Rightarrow>
             run_program (capture_m2m_body sys dup vivid vpipe csv mode transport_name algo_id algo_name threshold frames) (capture_m2m_cleanup sys) m2m_init w
         | _ \<Rightarrow> Some (1, w))"

section \<open>user/vpipe-capture-dmabuf.c\<close>

definition dmabuf_header :: string where
  "dmabuf_header = ''frame,vivid_sequence,vpipe_sequence,vivid_buf_index,dmabuf_fd,vivid_'' @ ''dequeue_ns,vpipe_dequeue_ns,vpipe_bytesused''"

definition dmabuf_controls :: "v4l2_buffer \<Rightarrow> (u32 \<times> s32) list" where
  "dmabuf_controls dq = [(VPIPE_CID_SRC_SEQUENCE, ub_sequence dq), (VPIPE_CID_ALGO, VPIPE_ALGO_NONE)]"

definition dmabuf_row :: "nat \<Rightarrow> m2m_state \<Rightarrow> v4l2_buffer \<Rightarrow> v4l2_buffer \<Rightarrow> u64 \<Rightarrow> u64 \<Rightarrow> u8 list" where
  "dmabuf_row i s vivid_dq vpipe_dq vivid_ns vpipe_ns = csv_join [dec i, dec (unat (ub_sequence vivid_dq)), dec (unat (ub_sequence vpipe_dq)),
     dec (unat (ub_index vivid_dq)), dec_int (mb_dmabuf_fd (cm_vivid_bufs s ! unat (ub_index vivid_dq))), dec (unat vivid_ns),
     dec (unat vpipe_ns), dec (unat (ub_bytesused vpipe_dq))]"

definition capture_dmabuf_body :: "('w, 'x) run_sys_scheme \<Rightarrow> bool \<Rightarrow> string \<Rightarrow> string \<Rightarrow> string \<Rightarrow> nat \<Rightarrow> (m2m_state, 'w) step" where
  "capture_dmabuf_body sys dup vivid vpipe csv frames = block
     [m2m_setup sys vivid vpipe TRANSPORT_DMABUF,
      tool_csv sys dup csv dmabuf_header,
      each (m2m_prepare sys TRANSPORT_DMABUF) [0..<CAPTURE_BUFFERS],
      m2m_streamon sys,
      each (\<lambda>i. m2m_frame sys TRANSPORT_DMABUF dmabuf_controls (dmabuf_row i) csv) [0..<frames]]"

definition capture_dmabuf_cleanup :: "('w, 'x) run_sys_scheme \<Rightarrow> m2m_state \<Rightarrow> 'w \<Rightarrow> 'w option" where
  "capture_dmabuf_cleanup sys s w = do {
     w \<leftarrow> m2m_streams_off sys s w;
     w \<leftarrow> vpipe_unmap_buffers sys (cm_vivid_bufs s) CAPTURE_BUFFERS w;
     w \<leftarrow> vpipe_unmap_buffers sys (cm_vpipe_bufs s) CAPTURE_BUFFERS w;
     Some (close_fd sys (cm_vivid_fd s) (close_fd sys (cm_vpipe_fd s) w)) }"

definition capture_dmabuf_main :: "('w, 'x) run_sys_scheme \<Rightarrow> bool \<Rightarrow> string list \<Rightarrow> 'w \<Rightarrow> (nat \<times> 'w) option" where
  "capture_dmabuf_main sys dup argv w =
     (let vivid = arg_or 1 argv ''/dev/video0''; vpipe = arg_or 2 argv ''/dev/video1''; csv = arg_or 3 argv ''bench/dmabuf.csv''
      in case frames_arg 4 argv 600 of None \<Rightarrow> Some (1, w)
         | Some frames \<Rightarrow> run_program (capture_dmabuf_body sys dup vivid vpipe csv frames) (capture_dmabuf_cleanup sys) m2m_init w)"

section \<open>What the capture programs hold\<close>

definition m2m_maps :: "m2m_state \<Rightarrow> (nat \<times> nat) multiset" where
  "m2m_maps s = mapped (cm_vivid_bufs s) + mapped (cm_out_bufs s) + mapped (cm_vpipe_bufs s)"

definition m2m_fds :: "m2m_state \<Rightarrow> int multiset" where
  "m2m_fds s = owned (cm_vivid_fd s) + owned (cm_vpipe_fd s) + buf_fds (cm_vivid_bufs s)"

definition m2m_ok :: "nat \<Rightarrow> transport_mode \<Rightarrow> m2m_state \<Rightarrow> bool" where
  "m2m_ok frame mode s \<longleftrightarrow> bufs_back 4 frame (cm_vivid_bufs s) \<and> bufs_ok 4 frame 4 (cm_out_bufs s) \<and> bufs_ok 4 frame 4 (cm_vpipe_bufs s) \<and>
     (mode = TRANSPORT_DMABUF \<longrightarrow> mapped (cm_out_bufs s) = {#})"

definition m2m_ready :: "nat \<Rightarrow> transport_mode \<Rightarrow> m2m_state \<Rightarrow> bool" where
  "m2m_ready frame mode s \<longleftrightarrow> m2m_ok frame mode s \<and> bufs_ready 4 (cm_vivid_bufs s) \<and> (mode = TRANSPORT_MMAP \<longrightarrow> bufs_ready 4 (cm_out_bufs s))"

text \<open>Nothing exported yet.\<close>

definition m2m_new :: "nat \<Rightarrow> m2m_state \<Rightarrow> bool" where
  "m2m_new frame s \<longleftrightarrow> bufs_ok 4 frame 4 (cm_vivid_bufs s) \<and> bufs_ok 4 frame 4 (cm_out_bufs s) \<and> bufs_ok 4 frame 4 (cm_vpipe_bufs s)"

lemmas m2m_defs = m2m_maps_def m2m_fds_def m2m_ok_def m2m_ready_def m2m_new_def bufs_ok_back

abbreviation (input) m2m_keeps where
  "m2m_keeps sys maps fds M F \<equiv> keeps sys maps fds M F m2m_maps m2m_fds"

lemma m2m_setup_ends:
  assumes sys: "tool_system sys maps fds 4 frame"
  shows "ends (m2m_keeps sys maps fds M F (\<lambda>s. m2m_new frame s \<and> m2m_maps s = {#} \<and> cm_vivid_fd s = -1 \<and> cm_vpipe_fd s = -1))
    (m2m_setup sys vivid vpipe mode)
    (m2m_keeps sys maps fds M F (\<lambda>s. m2m_new frame s \<and> bufs_ready 4 (cm_vivid_bufs s) \<and> mapped (cm_out_bufs s) = {#}))
    (m2m_keeps sys maps fds M F (m2m_ok frame mode))"
proof -
  let ?K = "m2m_keeps sys maps fds M F" and ?R = "m2m_keeps sys maps fds M F (m2m_ok frame mode)"
  let ?P2 = "\<lambda>s. m2m_new frame s \<and> m2m_maps s = {#}"
  let ?P3 = "\<lambda>s. m2m_new frame s \<and> bufs_ready 4 (cm_vivid_bufs s) \<and> mapped (cm_out_bufs s) = {#} \<and> mapped (cm_vpipe_bufs s) = {#}"
  let ?P4 = "\<lambda>s. m2m_new frame s \<and> bufs_ready 4 (cm_vivid_bufs s) \<and> mapped (cm_out_bufs s) = {#}"
  have op: "ends (?K (\<lambda>s. m2m_new frame s \<and> m2m_maps s = {#} \<and> cm_vivid_fd s = -1 \<and> cm_vpipe_fd s = -1)) (open_into sys vivid (\<lambda>f s. s\<lparr>cm_vivid_fd := f\<rparr>))
        (?K (\<lambda>s. m2m_new frame s \<and> m2m_maps s = {#} \<and> cm_vpipe_fd s = -1)) ?R"
      "ends (?K (\<lambda>s. m2m_new frame s \<and> m2m_maps s = {#} \<and> cm_vpipe_fd s = -1)) (open_into sys vpipe (\<lambda>f s. s\<lparr>cm_vpipe_fd := f\<rparr>)) (?K ?P2) ?R"
    by (rule ends_open [OF sys]; auto simp: m2m_defs owned_def)+
  have fmt: "ends (?K ?P2) (call (\<lambda>s. vpipe_set_format sys (fd s) type w h pf)) (?K ?P2) ?R" for fd type w h pf
    by (rule common_steps [OF sys]) (auto simp: m2m_defs)
  have size: "ends (?K ?P2) (sizeimage_into sys cm_vivid_fd V4L2_BUF_TYPE_VIDEO_CAPTURE (\<lambda>n s. s\<lparr>cm_vivid_sizeimage := n\<rparr>)) (?K ?P2) ?R"
      "ends (?K ?P2) (sizeimage_into sys cm_vpipe_fd V4L2_BUF_TYPE_VIDEO_OUTPUT (\<lambda>n s. s\<lparr>cm_out_sizeimage := n\<rparr>)) (?K ?P2) ?R"
    by (rule ends_sizeimage [OF sys]; simp add: m2m_defs)+
  have chk: "ends (?K ?P2) (check (\<lambda>s. cm_vivid_sizeimage s \<noteq> 0 \<and> cm_out_sizeimage s \<noteq> 0)) (?K ?P2) ?R"
    by (rule ends_keeps_check) (auto simp: m2m_defs)
  have req: "ends (?K ?P2) (request_into sys 4 V4L2_BUF_TYPE_VIDEO_CAPTURE cm_vivid_fd cm_vivid_bufs (\<lambda>b s. s\<lparr>cm_vivid_bufs := b\<rparr>)) (?K ?P3) ?R"
      "ends (?K ?P3) (request_into sys 4 V4L2_BUF_TYPE_VIDEO_CAPTURE cm_vpipe_fd cm_vpipe_bufs (\<lambda>b s. s\<lparr>cm_vpipe_bufs := b\<rparr>)) (?K ?P4) ?R"
    by (rule ends_request [OF sys, where N = 4]; auto simp: m2m_defs)+
  have out: "ends (?K ?P4) (fetch (\<lambda>s. request_bufs sys (cm_vpipe_fd s) 4 V4L2_BUF_TYPE_VIDEO_OUTPUT (m2m_memory mode)) (\<lambda>_. block [])) (?K ?P4) ?R"
    by (rule ends_fetch_any) (auto simp: m2m_defs quietly_calls [OF sys] ends_block)
  note seq = ends_block(2)
  show ?thesis
    unfolding m2m_setup_def of_nat_numeral
    by (rule seq [OF op(1) seq [OF op(2) seq [OF fmt seq [OF fmt seq [OF fmt seq [OF size(1) seq [OF size(2) seq [OF chk seq [OF req(1)
          seq [OF req(2) seq [OF out ends_block(1)]]]]]]]]]]])
qed

text \<open>The buffers from \<open>i\<close> on are not exported.\<close>

definition unexported :: "nat \<Rightarrow> m2m_state \<Rightarrow> bool" where
  "unexported i s \<longleftrightarrow> (\<forall>j<4. i \<le> j \<longrightarrow> mb_dmabuf_fd (cm_vivid_bufs s ! j) = -1)"

lemma export_run:
  assumes sys: "tool_system sys maps fds depth frame" and valid: "mem_valid sys maps w"
  obtains f w' where "export_dmabuf sys fd type index w = Some (f, w')" "maps w' = maps w" "fds w' = fds w + owned f" "mem_valid sys maps w'"
proof -
  obtain r w' where x: "vpipe_xioctl sys fd (VIDIOC_EXPBUF type index) w = Some (r, w')"
    "maps w' = maps w" "fds w' = fds w + exported r" "mem_valid sys maps w \<longrightarrow> mem_valid sys maps w'"
    using xioctl_run [of sys maps fds fd "VIDIOC_EXPBUF type index" w] sys unfolding tool_system_def by metis
  have "owned (case r of Inr (Reply_Fd f) \<Rightarrow> f | _ \<Rightarrow> -1) = exported r"
    by (auto simp: exported_def owned_def split: sum.split v4l2_reply.split)
  with x valid that show ?thesis by (simp add: export_dmabuf_def)
qed

lemma m2m_export_ends:
  assumes sys: "tool_system sys maps fds 4 frame" and i: "i < 4"
  shows "ends (m2m_keeps sys maps fds M F (\<lambda>s. m2m_ready frame mode s \<and> unexported i s)) (m2m_export sys i)
    (m2m_keeps sys maps fds M F (\<lambda>s. m2m_ready frame mode s \<and> unexported (Suc i) s)) (m2m_keeps sys maps fds M F (m2m_ok frame mode))"
proof (rule endsI)
  fix s w assume pre: "m2m_keeps sys maps fds M F (\<lambda>s. m2m_ready frame mode s \<and> unexported i s) (s, w)"
  then have p: "mem_valid sys maps w" "maps w = M + m2m_maps s" "fds w = F + m2m_fds s" "m2m_ready frame mode s" "unexported i s"
    by (simp_all add: keeps_def)
  obtain f w' where x: "export_dmabuf sys (cm_vivid_fd s) V4L2_BUF_TYPE_VIDEO_CAPTURE (of_nat i) w = Some (f, w')"
    "maps w' = maps w" "fds w' = fds w + owned f" "mem_valid sys maps w'" by (rule export_run [OF sys p(1)])
  let ?B = "cm_vivid_bufs s" let ?B' = "?B[i := (?B ! i)\<lparr>mb_dmabuf_fd := f\<rparr>]" let ?s' = "s\<lparr>cm_vivid_bufs := ?B'\<rparr>"
  have len: "i < length ?B" "mb_dmabuf_fd (?B ! i) = -1" using p(4,5) i by (auto simp: m2m_defs bufs_back_def unexported_def)
  have same: "unmapped_buffer (?B' ! j) = unmapped_buffer (?B ! j)" "mb_length (?B' ! j) = mb_length (?B ! j)" for j
    using len(1) by (cases "i = j"; simp add: unmapped_buffer_def)+
  have "m2m_ready frame mode ?s'" using p(4) by (simp add: m2m_defs bufs_back_def bufs_ready_def same)
  moreover have "unexported (Suc i) ?s'" using p(5) by (auto simp: unexported_def)
  moreover have "m2m_maps ?s' = m2m_maps s" by (simp add: m2m_maps_def mapped_same [OF len(1)])
  moreover have "m2m_fds ?s' = m2m_fds s + owned f" by (simp add: m2m_fds_def buf_fds_update [OF len])
  ultimately have "m2m_keeps sys maps fds M F (\<lambda>s. m2m_ready frame mode s \<and> unexported (Suc i) s) (?s', w')"
    using x p by (simp add: keeps_def)
  then have "m2m_keeps sys maps fds M F (\<lambda>s. m2m_ready frame mode s \<and> unexported (Suc i) s) (?s', w')" "m2m_keeps sys maps fds M F (m2m_ok frame mode) (?s', w')"
    by (simp_all add: keeps_def m2m_ready_def)
  then show "\<exists>go s' w'. m2m_export sys i (s, w) = Some (go, s', w') \<and>
      (if go then m2m_keeps sys maps fds M F (\<lambda>s. m2m_ready frame mode s \<and> unexported (Suc i) s) (s', w')
       else m2m_keeps sys maps fds M F (m2m_ok frame mode) (s', w'))"
    using x(1) len(1) by (simp add: m2m_export_def)
qed

lemma m2m_prepare_ends:
  assumes sys: "tool_system sys maps fds 4 frame"
  shows "ends (m2m_keeps sys maps fds M F (\<lambda>s. m2m_ready frame mode s \<and> unexported 0 s)) (each (m2m_prepare sys mode) [0..<4])
    (m2m_keeps sys maps fds M F (m2m_ready frame mode)) (m2m_keeps sys maps fds M F (m2m_ok frame mode))"
proof -
  let ?I = "\<lambda>i. m2m_keeps sys maps fds M F (\<lambda>s. m2m_ready frame mode s \<and> unexported i s)"
  have "ends (?I i) (m2m_prepare sys mode i) (?I (Suc i)) (m2m_keeps sys maps fds M F (m2m_ok frame mode))" if i: "i < 4" for i
  proof -
    have ex: "ends (?I i) (if mode = TRANSPORT_DMABUF then m2m_export sys i else block []) (?I (Suc i)) (m2m_keeps sys maps fds M F (m2m_ok frame mode))"
      using m2m_export_ends [OF sys i] by (auto simp: ends_def keeps_def unexported_def)
    have q: "ends (?I (Suc i)) (call (\<lambda>s. vpipe_queue_mmap_buffer sys (fd s) t m n d)) (?I (Suc i)) (m2m_keeps sys maps fds M F (m2m_ok frame mode))" for fd t m n d
      by (rule common_steps [OF sys]) (simp add: m2m_ready_def)
    show ?thesis unfolding m2m_prepare_def
      by (rule ends_block(2) [OF ex ends_block(2) [OF q ends_block(2) [OF q ends_block(1)]]])
  qed
  then have "ends (?I 0) (each (m2m_prepare sys mode) [0..<4]) (?I 4) (m2m_keeps sys maps fds M F (m2m_ok frame mode))"
    by (intro ends_each) auto
  then show ?thesis by (rule ends_conseq) (auto simp: keeps_def)
qed

lemma m2m_submit_ends:
  assumes sys: "tool_system sys maps fds 4 frame" and i: "unat (ub_index dq) < 4"
  shows "ends (m2m_keeps sys maps fds M F (m2m_ready frame mode)) (m2m_submit sys mode dq)
    (m2m_keeps sys maps fds M F (m2m_ready frame mode)) (m2m_keeps sys maps fds M F (m2m_ok frame mode))"
proof (rule endsI)
  fix s w assume pre: "m2m_keeps sys maps fds M F (m2m_ready frame mode) (s, w)"
  then have p: "mem_valid sys maps w" "maps w = M + m2m_maps s" "m2m_ready frame mode s" by (simp_all add: keeps_def)
  let ?i = "unat (ub_index dq)" and ?post = "\<lambda>go sw. if go then m2m_keeps sys maps fds M F (m2m_ready frame mode) sw else m2m_keeps sys maps fds M F (m2m_ok frame mode) sw"
  have q: "\<exists>go s' w'. call (\<lambda>s. qbuf sys (cm_vpipe_fd s) b) (s, v) = Some (go, s', w') \<and> ?post go (s', w')"
    if "m2m_keeps sys maps fds M F (m2m_ready frame mode) (s, v)" for b v
    using common_steps(4) [OF sys, of "m2m_ready frame mode" "m2m_ok frame mode" M F m2m_maps m2m_fds cm_vpipe_fd "\<lambda>_. b"] that
    by (auto simp: ends_def m2m_ready_def)
  have len: "?i < length (cm_vivid_bufs s)" "?i < length (cm_out_bufs s)" using p(3) i by (auto simp: m2m_defs bufs_back_def bufs_ok_def)
  show "\<exists>go s' w'. m2m_submit sys mode dq (s, w) = Some (go, s', w') \<and> ?post go (s', w')"
  proof (cases mode)
    case TRANSPORT_DMABUF
    then show ?thesis using len q [OF pre] by (simp add: m2m_submit_def Let_def)
  next
    case TRANSPORT_MMAP
    let ?from = "cm_vivid_bufs s ! ?i" and ?to = "cm_out_bufs s ! ?i"
    let ?n = "m2m_copy_len dq ?from ?to"
    have sub: "mapped (cm_vivid_bufs s) \<subseteq># maps w" "mapped (cm_out_bufs s) \<subseteq># maps w"
      using p(2) by (auto simp: m2m_maps_def subset_mset.add_increasing subset_mset.add_increasing2)
    have rdy: "\<not> unmapped_buffer ?from" "\<not> unmapped_buffer ?to" using p(3) i TRANSPORT_MMAP by (auto simp: m2m_ready_def bufs_ready_def)
    obtain a X where X: "buf_addr (cm_vivid_bufs s) ?i = Some (a, 0)" "run_mem sys w a = Some X" "mb_length ?from \<le> length X"
      by (rule bufs_backed [OF rdy(1) len(1) p(1) sub(1)])
    obtain b Y where Y: "buf_addr (cm_out_bufs s) ?i = Some (b, 0)" "run_mem sys w b = Some Y" "mb_length ?to \<le> length Y"
      by (rule bufs_backed [OF rdy(2) len(2) p(1) sub(2)])
    have n: "?n \<le> length X" "?n \<le> length Y" using X(3) Y(3) by (auto simp: m2m_copy_len_def Let_def)
    note copy = memcpy_start [OF X(2) Y(2) n]
    let ?v = "run_put sys ((run_mem sys w)(b \<mapsto> splice 0 (take ?n X) Y)) w"
    have "run_laws sys maps fds" using sys by (simp add: tool_system_def)
    then have "quiet sys maps fds w ?v" using n by (intro put_quiet [OF _ Y(2)]) simp_all
    from keeps_quiet [OF pre this] have "m2m_keeps sys maps fds M F (m2m_ready frame mode) (s, ?v)" .
    from q [OF this] show ?thesis using len X(1) Y(1) copy TRANSPORT_MMAP by (simp add: m2m_submit_def Let_def)
  qed
qed

lemma m2m_frame_ends:
  assumes sys: "tool_system sys maps fds 4 frame"
  shows "ends (m2m_keeps sys maps fds M F (m2m_ready frame mode)) (m2m_frame sys mode controls row csv)
    (m2m_keeps sys maps fds M F (m2m_ready frame mode)) (m2m_keeps sys maps fds M F (m2m_ok frame mode))"
proof -
  have R: "m2m_ok frame mode s" if "m2m_ready frame mode s" for s using that by (simp add: m2m_ready_def)
  have row: "ends (m2m_keeps sys maps fds M F (m2m_ready frame mode)) (call (\<lambda>s w. Some (True, snd (os_fwrite (run_fs sys) csv (r s) w))))
      (m2m_keeps sys maps fds M F (m2m_ready frame mode)) (m2m_keeps sys maps fds M F (m2m_ok frame mode))" for r
    by (rule ends_call) (use R quietly_files [OF sys] in auto)
  show ?thesis
    unfolding m2m_frame_def
    by (intro ends_dqbuf [OF sys] ends_now [OF sys] ends_guard ends_seq m2m_submit_ends [OF sys] ends_each_list row common_steps [OF sys])
      (auto intro: common_steps [OF sys] R)
qed

lemma m2m_streamon_ends:
  assumes sys: "tool_system sys maps fds 4 frame"
  shows "ends (m2m_keeps sys maps fds M F (m2m_ready frame mode)) (m2m_streamon sys)
    (m2m_keeps sys maps fds M F (m2m_ready frame mode)) (m2m_keeps sys maps fds M F (m2m_ok frame mode))"
  unfolding m2m_streamon_def
  by (intro ends_seq common_steps [OF sys] ends_keeps_assign) (auto simp: m2m_defs)

lemma m2m_streams_off_run:
  assumes sys: "tool_system sys maps fds depth frame" and valid: "mem_valid sys maps w"
  obtains w' where "m2m_streams_off sys s w = Some w'" "maps w' = maps w" "fds w' = fds w" "mem_valid sys maps w'"
proof -
  obtain w1 w2 where s: "stream_off sys (0 \<le> cm_vpipe_fd s \<and> cm_out_streaming s) (cm_vpipe_fd s) V4L2_BUF_TYPE_VIDEO_OUTPUT w = Some w1"
    "stream_off sys (0 \<le> cm_vpipe_fd s \<and> cm_cap_streaming s) (cm_vpipe_fd s) V4L2_BUF_TYPE_VIDEO_CAPTURE w1 = Some w2"
    "maps w2 = maps w" "fds w2 = fds w" "mem_valid sys maps w2" by (rule streams_off [OF sys valid])
  obtain w3 where "stream_off sys (0 \<le> cm_vivid_fd s \<and> cm_vivid_streaming s) (cm_vivid_fd s) V4L2_BUF_TYPE_VIDEO_CAPTURE w2 = Some w3"
    "quiet sys maps fds w2 w3" using stream_off_quiet [OF sys] by blast
  with s that show ?thesis by (simp add: m2m_streams_off_def quiet_def)
qed

lemma capture_m2m_body_ends:
  assumes sys: "tool_system sys maps fds 4 frame"
  shows "ends (m2m_keeps sys maps fds M F (\<lambda>s. m2m_new frame s \<and> m2m_maps s = {#} \<and> cm_vivid_fd s = -1 \<and> cm_vpipe_fd s = -1))
    (capture_m2m_body sys dup vivid vpipe csv mode transport_name algo_id algo_name threshold frames)
    (m2m_keeps sys maps fds M F (m2m_ready frame mode)) (m2m_keeps sys maps fds M F (m2m_ok frame mode))"
proof -
  let ?K = "m2m_keeps sys maps fds M F" and ?R = "m2m_keeps sys maps fds M F (m2m_ok frame mode)"
  let ?P = "\<lambda>s. m2m_new frame s \<and> bufs_ready 4 (cm_vivid_bufs s) \<and> mapped (cm_out_bufs s) = {#}" and ?N = "\<lambda>s. m2m_ready frame mode s \<and> unexported 0 s"
  have un: "unexported 0 s" if "m2m_new frame s" for s using that by (simp add: m2m_new_def bufs_ok_def unexported_def)
  have out: "ends (?K ?P) (if mode = TRANSPORT_MMAP
      then request_into sys 4 V4L2_BUF_TYPE_VIDEO_OUTPUT cm_vpipe_fd cm_out_bufs (\<lambda>b s. s\<lparr>cm_out_bufs := b\<rparr>) else block []) (?K ?N) ?R"
  proof (cases mode)
    case TRANSPORT_DMABUF
    then show ?thesis using ends_conseq [OF ends_block(1) [of "?K ?P"], of "?K ?P" "?K ?N"] un by (auto simp: keeps_def m2m_defs)
  next
    case TRANSPORT_MMAP
    have "ends (?K ?P) (request_into sys 4 V4L2_BUF_TYPE_VIDEO_OUTPUT cm_vpipe_fd cm_out_bufs (\<lambda>b s. s\<lparr>cm_out_bufs := b\<rparr>)) (?K ?N) ?R"
      by (rule ends_request [OF sys, where N = 4]) (use un TRANSPORT_MMAP in \<open>auto simp: m2m_defs unexported_def\<close>)
    then show ?thesis using TRANSPORT_MMAP by simp
  qed
  have csv: "ends (?K ?N) (tool_csv sys dup csv m2m_header) (?K ?N) ?R" by (rule common_steps [OF sys]) (simp add: m2m_ready_def)
  note seq = ends_block(2)
  show ?thesis
    unfolding capture_m2m_body_def of_nat_numeral
    by (rule seq [OF m2m_setup_ends [OF sys] seq [OF out seq [OF csv seq [OF m2m_prepare_ends [OF sys] seq [OF m2m_streamon_ends [OF sys]
          seq [OF ends_loop [OF m2m_frame_ends [OF sys]] ends_block(1)]]]]]])
qed

lemma capture_dmabuf_body_ends:
  assumes sys: "tool_system sys maps fds 4 frame"
  shows "ends (m2m_keeps sys maps fds M F (\<lambda>s. m2m_new frame s \<and> m2m_maps s = {#} \<and> cm_vivid_fd s = -1 \<and> cm_vpipe_fd s = -1))
    (capture_dmabuf_body sys dup vivid vpipe csv frames)
    (m2m_keeps sys maps fds M F (m2m_ready frame TRANSPORT_DMABUF)) (m2m_keeps sys maps fds M F (m2m_ok frame TRANSPORT_DMABUF))"
proof -
  let ?K = "m2m_keeps sys maps fds M F" and ?R = "m2m_keeps sys maps fds M F (m2m_ok frame TRANSPORT_DMABUF)"
  let ?P = "\<lambda>s. m2m_new frame s \<and> bufs_ready 4 (cm_vivid_bufs s) \<and> mapped (cm_out_bufs s) = {#}"
  have "ends (?K ?P) (tool_csv sys dup csv dmabuf_header) (?K ?P) ?R" by (rule common_steps [OF sys]) (simp add: m2m_defs)
  then have csv: "ends (?K ?P) (tool_csv sys dup csv dmabuf_header) (?K (\<lambda>s. m2m_ready frame TRANSPORT_DMABUF s \<and> unexported 0 s)) ?R"
    by (rule ends_conseq) (auto simp: keeps_def m2m_defs unexported_def bufs_ok_def)
  note seq = ends_block(2)
  show ?thesis
    unfolding capture_dmabuf_body_def
    by (rule seq [OF m2m_setup_ends [OF sys] seq [OF csv seq [OF m2m_prepare_ends [OF sys] seq [OF m2m_streamon_ends [OF sys]
          seq [OF ends_loop [OF m2m_frame_ends [OF sys]] ends_block(1)]]]]])
qed

lemma capture_m2m_cleanup_run:
  assumes sys: "tool_system sys maps fds 4 frame" and "m2m_keeps sys maps fds M F (m2m_ok frame mode) (s, w)"
  shows "\<exists>w'. capture_m2m_cleanup sys s w = Some w' \<and> maps w' = M \<and> fds w' = F"
proof -
  have k: "mem_valid sys maps w" "maps w = M + m2m_maps s" "fds w = F + m2m_fds s" "m2m_ok frame mode s" using assms(2) by (simp_all add: keeps_def)
  obtain w1 where w1: "m2m_streams_off sys s w = Some w1" "maps w1 = maps w" "fds w1 = fds w" "mem_valid sys maps w1"
    by (rule m2m_streams_off_run [OF sys k(1)])
  have b: "bufs_back 4 frame (cm_vivid_bufs s)" "bufs_ok 4 frame 4 (cm_out_bufs s)" "bufs_ok 4 frame 4 (cm_vpipe_bufs s)" using k(4) by (simp_all add: m2m_ok_def)
  obtain w2 where w2: "vpipe_unmap_buffers sys (cm_vivid_bufs s) 4 w1 = Some w2" "maps w2 = maps w1 - mapped (cm_vivid_bufs s)"
    "fds w2 = fds w1 - buf_fds (cm_vivid_bufs s)" "mem_valid sys maps w2" by (rule unmap_back [OF sys b(1) w1(4)])
  obtain w3 where w3: "vpipe_unmap_buffers sys (cm_out_bufs s) 4 w2 = Some w3" "maps w3 = maps w2 - mapped (cm_out_bufs s)" "fds w3 = fds w2" "mem_valid sys maps w3"
    by (rule unmap_run [OF sys b(2) w2(4)])
  obtain w4 where w4: "vpipe_unmap_buffers sys (cm_vpipe_bufs s) 4 w3 = Some w4" "maps w4 = maps w3 - mapped (cm_vpipe_bufs s)" "fds w4 = fds w3"
    by (rule unmap_run [OF sys b(3) w3(4)])
  have "maps w4 = M" "fds w4 = F + owned (cm_vivid_fd s) + owned (cm_vpipe_fd s)"
    using k(2,3) w1 w2 w3 w4 by (simp_all add: m2m_maps_def m2m_fds_def multiset_eq_iff)
  then show ?thesis using w1(1) w2(1) w3(1) w4(1) by (simp add: capture_m2m_cleanup_def close_fd_run [OF sys])
qed

lemma capture_dmabuf_cleanup_run:
  assumes sys: "tool_system sys maps fds 4 frame" and "m2m_keeps sys maps fds M F (m2m_ok frame TRANSPORT_DMABUF) (s, w)"
  shows "\<exists>w'. capture_dmabuf_cleanup sys s w = Some w' \<and> maps w' = M \<and> fds w' = F"
proof -
  have k: "mem_valid sys maps w" "maps w = M + m2m_maps s" "fds w = F + m2m_fds s" "m2m_ok frame TRANSPORT_DMABUF s" using assms(2) by (simp_all add: keeps_def)
  obtain w1 where w1: "m2m_streams_off sys s w = Some w1" "maps w1 = maps w" "fds w1 = fds w" "mem_valid sys maps w1"
    by (rule m2m_streams_off_run [OF sys k(1)])
  have b: "bufs_back 4 frame (cm_vivid_bufs s)" "mapped (cm_out_bufs s) = {#}" "bufs_ok 4 frame 4 (cm_vpipe_bufs s)" using k(4) by (simp_all add: m2m_ok_def)
  obtain w2 where w2: "vpipe_unmap_buffers sys (cm_vivid_bufs s) 4 w1 = Some w2" "maps w2 = maps w1 - mapped (cm_vivid_bufs s)"
    "fds w2 = fds w1 - buf_fds (cm_vivid_bufs s)" "mem_valid sys maps w2" by (rule unmap_back [OF sys b(1) w1(4)])
  obtain w4 where w4: "vpipe_unmap_buffers sys (cm_vpipe_bufs s) 4 w2 = Some w4" "maps w4 = maps w2 - mapped (cm_vpipe_bufs s)" "fds w4 = fds w2"
    by (rule unmap_run [OF sys b(3) w2(4)])
  have "maps w4 = M" "fds w4 = F + owned (cm_vivid_fd s) + owned (cm_vpipe_fd s)"
    using k(2,3) w1 w2 w4 b(2) by (simp_all add: m2m_maps_def m2m_fds_def multiset_eq_iff)
  then show ?thesis using w1(1) w2(1) w4(1) by (simp add: capture_dmabuf_cleanup_def close_fd_run [OF sys])
qed

lemma m2m_init_ok: "m2m_new frame m2m_init" "m2m_maps m2m_init = {#}" "m2m_fds m2m_init = {#}" "cm_vivid_fd m2m_init = -1" "cm_vpipe_fd m2m_init = -1"
  by (simp_all add: m2m_init_def m2m_defs no_bufs_ok bufs_ok_back(2) [OF no_bufs_ok(1)] owned_def)

lemma capture_m2m_total:
  assumes sys: "tool_system sys maps fds 4 frame" and valid: "mem_valid sys maps w"
  shows "\<exists>status w'. capture_m2m_main sys dup argv w = Some (status, w') \<and> status \<le> 1 \<and> maps w' = maps w \<and> fds w' = fds w"
proof -
  have "\<exists>status w'. run_program (capture_m2m_body sys dup vivid vpipe csv mode tn algo an t frames) (capture_m2m_cleanup sys) m2m_init w = Some (status, w') \<and>
      status \<le> 1 \<and> maps w' = maps w \<and> fds w' = fds w" for vivid vpipe csv mode tn algo an t frames
    by (rule run_program_total [OF capture_m2m_body_ends [OF sys] valid]) (auto simp: m2m_init_ok m2m_ready_def capture_m2m_cleanup_run [OF sys])
  then show ?thesis unfolding capture_m2m_main_def Let_def by (simp split: option.split)
qed

lemma capture_dmabuf_total:
  assumes sys: "tool_system sys maps fds 4 frame" and valid: "mem_valid sys maps w"
  shows "\<exists>status w'. capture_dmabuf_main sys dup argv w = Some (status, w') \<and> status \<le> 1 \<and> maps w' = maps w \<and> fds w' = fds w"
proof -
  have "\<exists>status w'. run_program (capture_dmabuf_body sys dup vivid vpipe csv frames) (capture_dmabuf_cleanup sys) m2m_init w = Some (status, w') \<and>
      status \<le> 1 \<and> maps w' = maps w \<and> fds w' = fds w" for vivid vpipe csv frames
    by (rule run_program_total [OF capture_dmabuf_body_ends [OF sys] valid]) (auto simp: m2m_init_ok m2m_ready_def capture_dmabuf_cleanup_run [OF sys])
  then show ?thesis unfolding capture_dmabuf_main_def Let_def by (simp split: option.split)
qed

section \<open>Properties\<close>

text \<open>
  C35.  The copying transport.  A captured frame of the reported size is copied to the start of
  the output buffer of the same index, as much of it as both buffers hold and not a byte more;
  the rest of that buffer and all other memory stay as they are; and the buffer queued at the
  mem2mem device states exactly the number of bytes copied.
\<close>

theorem m2m_submit_copies:
  assumes i: "i = unat (ub_index dq)" "i < length (cm_vivid_bufs s)" "i < length (cm_out_bufs s)"
    and src: "mb_addr (cm_vivid_bufs s ! i) = Addr a" "run_mem sys w a = Some X" "mb_length (cm_vivid_bufs s ! i) \<le> length X"
    and dst: "mb_addr (cm_out_bufs s ! i) = Addr b" "run_mem sys w b = Some Y" "mb_length (cm_out_bufs s ! i) \<le> length Y"
    and len: "mb_length (cm_out_bufs s ! i) < 2 ^ 32"
    and n: "n = min (unat (ub_bytesused dq)) (min (mb_length (cm_vivid_bufs s ! i)) (mb_length (cm_out_bufs s ! i)))"
  shows "\<exists>buf. m2m_submit sys TRANSPORT_MMAP dq (s, w) =
      call (\<lambda>s. qbuf sys (cm_vpipe_fd s) buf) (s, run_put sys ((run_mem sys w)(b \<mapsto> take n X @ drop n Y)) w) \<and>
    ub_type buf = V4L2_BUF_TYPE_VIDEO_OUTPUT \<and> ub_memory buf = V4L2_MEMORY_MMAP \<and> ub_index buf = ub_index dq \<and>
    unat (ub_bytesused buf) = n \<and> unat (ub_length buf) = mb_length (cm_out_bufs s ! i)"
proof -
  have c: "m2m_copy_len dq (cm_vivid_bufs s ! i) (cm_out_bufs s ! i) = n" using n by (auto simp: m2m_copy_len_def Let_def)
  have le: "n \<le> length X" "n \<le> length Y" "n < 2 ^ 32" using n src(3) dst(3) len by auto
  have w: "unat (of_nat k :: u32) = k" if "k < 2 ^ 32" for k using that by (simp add: unat_of_nat)
  have "splice 0 (take n X) Y = take n X @ drop n Y" using le by (simp add: splice_def)
  then show ?thesis
    using i src(1,2) dst(1,2) c memcpy_start [OF src(2) dst(2) le(1,2)] w [OF len] w [OF le(3)]
    by (auto simp: m2m_submit_def m2m_memory_def buf_addr_def Let_def zero_buf_def)
qed

theorem m2m_submit_copies_witness:
  "\<exists>buf. m2m_submit demo_run TRANSPORT_MMAP ((zero_buf V4L2_BUF_TYPE_VIDEO_CAPTURE V4L2_MEMORY_MMAP 0)\<lparr>ub_bytesused := 5\<rparr>)
      (m2m_init\<lparr>cm_vivid_bufs := [\<lparr>mb_addr = Addr 1, mb_length = 3, mb_dmabuf_fd = -1\<rparr>],
         cm_out_bufs := [\<lparr>mb_addr = Addr 2, mb_length = 2, mb_dmabuf_fd = -1\<rparr>]\<rparr>, demo_process\<lparr>rw_mem := [1 \<mapsto> [7, 8, 9], 2 \<mapsto> [0, 0, 4]]\<rparr>) =
      call (\<lambda>s. qbuf demo_run (cm_vpipe_fd s) buf) (m2m_init\<lparr>cm_vivid_bufs := [\<lparr>mb_addr = Addr 1, mb_length = 3, mb_dmabuf_fd = -1\<rparr>],
         cm_out_bufs := [\<lparr>mb_addr = Addr 2, mb_length = 2, mb_dmabuf_fd = -1\<rparr>]\<rparr>, demo_process\<lparr>rw_mem := [1 \<mapsto> [7, 8, 9], 2 \<mapsto> [7, 8, 4]]\<rparr>) \<and>
    unat (ub_bytesused buf) = 2 \<and> unat (ub_length buf) = 2"
proof -
  let ?dq = "(zero_buf V4L2_BUF_TYPE_VIDEO_CAPTURE V4L2_MEMORY_MMAP 0)\<lparr>ub_bytesused := 5\<rparr>"
  let ?s = "m2m_init\<lparr>cm_vivid_bufs := [\<lparr>mb_addr = Addr 1, mb_length = 3, mb_dmabuf_fd = -1\<rparr>],
    cm_out_bufs := [\<lparr>mb_addr = Addr 2, mb_length = 2, mb_dmabuf_fd = -1\<rparr>]\<rparr>"
  let ?w = "demo_process\<lparr>rw_mem := [1 \<mapsto> [7, 8, 9], 2 \<mapsto> [0, 0, 4]]\<rparr>"
  have "run_mem demo_run = rw_mem" "run_put demo_run = (\<lambda>m w. w\<lparr>rw_mem := m\<rparr>)" by (simp_all add: demo_tool_sys_def)
  then show ?thesis
    using m2m_submit_copies [of 0 ?dq ?s 1 demo_run ?w "[7, 8, 9]" 2 "[0, 0, 4]" 2] by (auto simp: zero_buf_def)
qed



end
