(* ===== verification/User_Capture_Direct.thy ===== *)
theory User_Capture_Direct
  imports Tool_Rules
begin

text \<open>
  The programs that capture frames from one device: user/vpipe-capture-mmap.c with mapped
  buffers, and user/vpipe-capture-read.c with \<open>read\<close>.
\<close>

unbundle bit_operations_syntax

section \<open>The system\<close>

text \<open>
  What these programs use beyond the others: \<open>read\<close> of a frame, the number of minor faults of the
  process, the result of \<open>munmap\<close>, and the size of a page.
\<close>

record 'w capture_sys = "'w run_sys" +
  cap_read :: "int \<Rightarrow> nat \<Rightarrow> 'w \<Rightarrow> u8 list result \<times> 'w"
  cap_minflt :: "'w \<Rightarrow> s64 option \<times> 'w"
  cap_munmap :: "nat \<Rightarrow> nat \<Rightarrow> 'w \<Rightarrow> bool \<times> 'w"
  cap_page_size :: int

abbreviation (input) DIRECT_BUFFERS :: nat where "DIRECT_BUFFERS \<equiv> 4"

text \<open>The fields of a line that come from the dequeued buffer.\<close>

definition stamp_fields :: "v4l2_buffer \<Rightarrow> u8 list list" where
  "stamp_fields b = [dec_int (sint (fst (ub_timestamp b))), dec_int (sint (snd (ub_timestamp b))), dec (unat (ub_sequence b)),
     dec (unat (ub_bytesused b))]"

section \<open>user/vpipe-capture-mmap.c\<close>

record mmap_state =
  mm_fd :: int
  mm_bufs :: "vpipe_mmap_buffer list"
  mm_queued_at :: "u64 list"

definition mmap_init :: mmap_state where
  "mmap_init = \<lparr>mm_fd = -1, mm_bufs = replicate DIRECT_BUFFERS \<lparr>mb_addr = Null, mb_length = 0, mb_dmabuf_fd = 0\<rparr>,
     mm_queued_at = replicate DIRECT_BUFFERS 0\<rparr>"

text \<open>\<open>queued_at[i] = vpipe_now_monotonic_ns()\<close>; storing outside the array is a fault.\<close>

definition mmap_stamp :: "('w, 'x) run_sys_scheme \<Rightarrow> nat \<Rightarrow> (mmap_state, 'w) step" where
  "mmap_stamp sys i = (\<lambda>(s, w). case now_ns sys w of (t, w) \<Rightarrow>
     if length (mm_queued_at s) \<le> i then None else Some (True, s\<lparr>mm_queued_at := (mm_queued_at s)[i := t]\<rparr>, w))"

definition mmap_row :: "('w, 'x) run_sys_scheme \<Rightarrow> string \<Rightarrow> nat \<Rightarrow> v4l2_buffer \<Rightarrow> u64 \<Rightarrow> (mmap_state, 'w) step" where
  "mmap_row sys csv i b dq_ns = (\<lambda>(s, w). let j = unat (ub_index b) in
     if length (mm_queued_at s) \<le> j then None
     else tool_row sys csv (csv_join ([dec i, dec j, dec (unat (mm_queued_at s ! j)), dec (unat dq_ns)] @ stamp_fields b)) (s, w))"

definition mmap_queue :: "('w, 'x) run_sys_scheme \<Rightarrow> nat \<Rightarrow> (mmap_state, 'w) step" where
  "mmap_queue sys i = block
     [mmap_stamp sys i,
      call (\<lambda>s. vpipe_queue_mmap_buffer sys (mm_fd s) V4L2_BUF_TYPE_VIDEO_CAPTURE V4L2_MEMORY_MMAP (of_nat i) (-1))]"

definition mmap_frame :: "('w, 'x) run_sys_scheme \<Rightarrow> string \<Rightarrow> nat \<Rightarrow> (mmap_state, 'w) step" where
  "mmap_frame sys csv i =
     fetch (\<lambda>s. dqbuf sys (mm_fd s) V4L2_BUF_TYPE_VIDEO_CAPTURE V4L2_MEMORY_MMAP) (\<lambda>b.
     tool_now sys (\<lambda>dq_ns. block
       [mmap_row sys csv i b dq_ns, mmap_stamp sys (unat (ub_index b)), call (\<lambda>s. qbuf sys (mm_fd s) b)]))"

definition mmap_header :: string where
  "mmap_header = ''frame,buffer_index,enqueue_monotonic_ns,dequeue_monotonic_ns,v4l2_'' @ ''timestamp_sec,v4l2_timestamp_usec,sequence,bytesused''"

definition capture_mmap_body :: "('w, 'x) run_sys_scheme \<Rightarrow> bool \<Rightarrow> string \<Rightarrow> string \<Rightarrow> nat \<Rightarrow> (mmap_state, 'w) step" where
  "capture_mmap_body sys dup video csv frames = block
     [open_into sys video (\<lambda>f s. s\<lparr>mm_fd := f\<rparr>),
      call (\<lambda>s. vpipe_set_format sys (mm_fd s) V4L2_BUF_TYPE_VIDEO_CAPTURE 640 480 V4L2_PIX_FMT_GREY),
      request_into sys (of_nat DIRECT_BUFFERS) V4L2_BUF_TYPE_VIDEO_CAPTURE mm_fd mm_bufs (\<lambda>b s. s\<lparr>mm_bufs := b\<rparr>),
      tool_csv sys dup csv mmap_header,
      each (mmap_queue sys) [0..<DIRECT_BUFFERS],
      call (\<lambda>s. stream_on sys (mm_fd s) V4L2_BUF_TYPE_VIDEO_CAPTURE),
      each (mmap_frame sys csv) [0..<frames]]"

text \<open>Every failure returns at once, without releasing anything.\<close>

definition capture_mmap_main :: "('w, 'x) run_sys_scheme \<Rightarrow> bool \<Rightarrow> string list \<Rightarrow> 'w \<Rightarrow> (nat \<times> 'w) option" where
  "capture_mmap_main sys dup argv w = do {
     let video = arg_or 1 argv ''/dev/video0'';
     let csv = arg_or 2 argv ''bench/mmap.csv'';
     let frames = unat (uint_arg 3 argv 600);
     (done, s, w) \<leftarrow> capture_mmap_body sys dup video csv frames (mmap_init, w);
     if \<not> done then Some (1, w)
     else do {
       w \<leftarrow> vpipe_unmap_buffers sys (mm_bufs s) DIRECT_BUFFERS w;
       Some (0, sys_close sys (mm_fd s) w) } }"

section \<open>user/vpipe-capture-read.c\<close>

record read_state =
  rd_fd :: int
  rd_crc :: crc32_state

definition read_header :: string where
  "read_header = ''frame,synthetic_sequence,read_start_monotonic_ns,read_'' @ ''end_monotonic_ns,bytesused,crc32''"

definition read_row :: "('w, 'x) run_sys_scheme \<Rightarrow> string \<Rightarrow> nat \<Rightarrow> u64 \<Rightarrow> u64 \<Rightarrow> u8 list \<Rightarrow> (read_state, 'w) step" where
  "read_row sys csv i start_ns end_ns bytes = (\<lambda>(s, w). case vpipe_crc32 bytes (rd_crc s) of (crc, st) \<Rightarrow>
     tool_row sys csv (csv_join [dec i, dec i, dec (unat start_ns), dec (unat end_ns), dec (length bytes), dec (unat crc)]) (s\<lparr>rd_crc := st\<rparr>, w))"

definition read_frame :: "('w, 'x) capture_sys_scheme \<Rightarrow> string \<Rightarrow> nat \<Rightarrow> (read_state, 'w) step" where
  "read_frame sys csv i =
     tool_now sys (\<lambda>start_ns.
     fetch (\<lambda>s w. case cap_read sys (rd_fd s) (640 * 480) w of (r, w) \<Rightarrow> Some (Some r, w)) (\<lambda>r.
     tool_now sys (\<lambda>end_ns. case r of Inl _ \<Rightarrow> check (\<lambda>_. False) | Inr bytes \<Rightarrow> read_row sys csv i start_ns end_ns bytes)))"

text \<open>\<open>room\<close>: whether the buffer can be allocated.\<close>

definition capture_read_body :: "('w, 'x) capture_sys_scheme \<Rightarrow> bool \<Rightarrow> bool \<Rightarrow> string \<Rightarrow> string \<Rightarrow> nat \<Rightarrow> (read_state, 'w) step" where
  "capture_read_body sys room dup video csv frames = block
     [open_into sys video (\<lambda>f s. s\<lparr>rd_fd := f\<rparr>),
      call (\<lambda>s. vpipe_set_format sys (rd_fd s) V4L2_BUF_TYPE_VIDEO_CAPTURE 640 480 V4L2_PIX_FMT_GREY),
      check (\<lambda>_. room),
      tool_csv sys dup csv read_header,
      each (read_frame sys csv) [0..<frames]]"

definition capture_read_cleanup :: "('w, 'x) capture_sys_scheme \<Rightarrow> read_state \<Rightarrow> 'w \<Rightarrow> 'w option" where
  "capture_read_cleanup sys s w = Some (close_fd sys (rd_fd s) w)"

definition capture_read_main :: "('w, 'x) capture_sys_scheme \<Rightarrow> bool \<Rightarrow> bool \<Rightarrow> string list \<Rightarrow> 'w \<Rightarrow> (nat \<times> 'w) option" where
  "capture_read_main sys room dup argv w =
     (let video = arg_or 1 argv ''/dev/video0''; csv = arg_or 2 argv ''bench/read.csv''
      in case frames_arg 3 argv 600 of None \<Rightarrow> Some (1, w)
         | Some frames \<Rightarrow> run_program (capture_read_body sys room dup video csv frames) (capture_read_cleanup sys)
             \<lparr>rd_fd = -1, rd_crc = crc32_state_init\<rparr> w)"

section \<open>What the programs rely on\<close>

text \<open>
  Reading a frame and counting faults change neither mappings nor descriptors; unmapping a
  mapping succeeds; and, for the program that does not check it, a captured buffer has the index
  of a requested one.
\<close>

definition capture_laws :: "('w, 'x) capture_sys_scheme \<Rightarrow> ('w \<Rightarrow> (nat \<times> nat) multiset) \<Rightarrow> ('w \<Rightarrow> int multiset) \<Rightarrow> bool" where
  "capture_laws sys maps fds \<longleftrightarrow> (\<forall>w. (\<forall>fd n. quiet sys maps fds w (snd (cap_read sys fd n w))) \<and> quiet sys maps fds w (snd (cap_minflt sys w)) \<and>
     (\<forall>a n. cap_munmap sys a n w = (True, sys_munmap sys a n w)))"

definition index_law :: "('w, 'x) sys_scheme \<Rightarrow> u32 \<Rightarrow> bool" where
  "index_law sys depth \<longleftrightarrow> (\<forall>fd w b b'. fst (sys_ioctl sys fd (VIDIOC_DQBUF b) w) = Inr (Reply_Buf b') \<longrightarrow> ub_index b' < depth)"

lemma quietly_dqbuf_index:
  assumes sys: "tool_system sys maps fds depth frame" and law: "index_law sys n"
  shows "quietly sys maps fds (dqbuf sys fd type memory) (\<lambda>b. case b of None \<Rightarrow> True | Some b \<Rightarrow> ub_index b < n)"
  unfolding quietly_def
proof
  fix w
  obtain r w' v where x: "vpipe_xioctl sys fd (VIDIOC_DQBUF (zero_buf type memory 0)) w = Some (r, w')"
    "sys_ioctl sys fd (VIDIOC_DQBUF (zero_buf type memory 0)) v = (r, w')" "quiet sys maps fds w w'"
    using system_xioctl [OF sys, of "VIDIOC_DQBUF (zero_buf type memory 0)" fd w] by auto
  have "ub_index b < n" if "r = Inr (Reply_Buf b)" for b using law x(2) that unfolding index_law_def by (metis fst_conv)
  then show "\<exists>r w'. dqbuf sys fd type memory w = Some (r, w') \<and> quiet sys maps fds w w' \<and> (case r of None \<Rightarrow> True | Some b \<Rightarrow> ub_index b < n)"
    using x(1,3) by (auto simp: dqbuf_def split: sum.split v4l2_reply.split)
qed

section \<open>Mapped buffers\<close>

definition mmap_maps :: "mmap_state \<Rightarrow> (nat \<times> nat) multiset" where "mmap_maps s = mapped (mm_bufs s)"
definition mmap_fds :: "mmap_state \<Rightarrow> int multiset" where "mmap_fds s = owned (mm_fd s)"

definition mmap_fresh :: "mmap_state \<Rightarrow> bool" where
  "mmap_fresh s \<longleftrightarrow> length (mm_queued_at s) = 4 \<and> length (mm_bufs s) = 4 \<and> (\<forall>i<4. unmapped_buffer (mm_bufs s ! i))"

definition mmap_ready :: "nat \<Rightarrow> int \<Rightarrow> mmap_state \<Rightarrow> bool" where
  "mmap_ready frame f s \<longleftrightarrow> length (mm_queued_at s) = 4 \<and> bufs_ok 4 frame 4 (mm_bufs s) \<and> mm_fd s = f"

lemma mmap_ready_fd: "mmap_ready frame f s \<Longrightarrow> mm_fd s = f"
  by (simp add: mmap_ready_def)

lemma mmap_request_ends:
  assumes sys: "tool_system sys maps fds 4 frame"
  shows "ends (keeps sys maps fds M F mmap_maps mmap_fds (\<lambda>s. mmap_fresh s \<and> mm_fd s = f))
    (request_into sys 4 V4L2_BUF_TYPE_VIDEO_CAPTURE mm_fd mm_bufs (\<lambda>b s. s\<lparr>mm_bufs := b\<rparr>)) (keeps sys maps fds M F mmap_maps mmap_fds (mmap_ready frame f))
    (keeps sys maps fds M F mmap_maps mmap_fds (\<lambda>s. mm_fd s = f))"
proof (rule endsI)
  fix s w assume pre: "keeps sys maps fds M F mmap_maps mmap_fds (\<lambda>s. mmap_fresh s \<and> mm_fd s = f) (s, w)"
  then have p: "mem_valid sys maps w" "maps w = M + mmap_maps s" "fds w = F + mmap_fds s" "length (mm_queued_at s) = 4" "length (mm_bufs s) = 4" "mm_fd s = f"
    "\<forall>i<length (mm_bufs s). unmapped_buffer (mm_bufs s ! i)" by (simp_all add: keeps_def mmap_fresh_def)
  have none: "mapped (mm_bufs s) = {#}" using p(7) by (intro mapped_none) (auto simp: in_set_conv_nth)
  obtain res bufs' w' where "vpipe_request_mmap_buffers sys (mm_fd s) V4L2_BUF_TYPE_VIDEO_CAPTURE 4 (mm_bufs s) w = Some (res, bufs', w')"
    "maps w' = maps w + mapped bufs'" "fds w' = fds w" "mem_valid sys maps w'" "res \<noteq> None \<longrightarrow> bufs_ok 4 frame 4 bufs'"
    using request_ready [OF sys _ _ p(7) p(1), of "mm_fd s" V4L2_BUF_TYPE_VIDEO_CAPTURE] p(5) by auto
  then show "\<exists>go s' w'. request_into sys 4 V4L2_BUF_TYPE_VIDEO_CAPTURE mm_fd mm_bufs (\<lambda>b s. s\<lparr>mm_bufs := b\<rparr>) (s, w) = Some (go, s', w') \<and>
      (if go then keeps sys maps fds M F mmap_maps mmap_fds (mmap_ready frame f) (s', w')
       else keeps sys maps fds M F mmap_maps mmap_fds (\<lambda>s. mm_fd s = f) (s', w'))"
    using p none by (auto simp: request_into_def keeps_def mmap_maps_def mmap_fds_def mmap_ready_def)
qed

lemma mmap_stamp_ends:
  assumes sys: "tool_system sys maps fds 4 frame" and i: "i < 4"
  shows "ends (keeps sys maps fds M F mmap_maps mmap_fds (mmap_ready frame f)) (mmap_stamp sys i)
    (keeps sys maps fds M F mmap_maps mmap_fds (mmap_ready frame f)) R"
proof (rule endsI)
  fix s w assume pre: "keeps sys maps fds M F mmap_maps mmap_fds (mmap_ready frame f) (s, w)"
  obtain t w' where t: "now_ns sys w = (t, w')" by fastforce
  have "run_laws sys maps fds" using sys by (simp add: tool_system_def)
  from keeps_quiet [OF pre now_quiet [OF this t]] show "\<exists>go s' w'. mmap_stamp sys i (s, w) = Some (go, s', w') \<and>
      (if go then keeps sys maps fds M F mmap_maps mmap_fds (mmap_ready frame f) (s', w') else R (s', w'))"
    using t i by (simp add: mmap_stamp_def keeps_def mmap_maps_def mmap_fds_def mmap_ready_def)
qed

lemma mmap_row_ends:
  assumes sys: "tool_system sys maps fds 4 frame" and j: "ub_index b < 4"
  shows "ends (keeps sys maps fds M F mmap_maps mmap_fds (mmap_ready frame f)) (mmap_row sys csv i b t)
    (keeps sys maps fds M F mmap_maps mmap_fds (mmap_ready frame f)) (keeps sys maps fds M F mmap_maps mmap_fds (\<lambda>s. mm_fd s = f))"
proof (rule ends_local)
  fix s w assume "keeps sys maps fds M F mmap_maps mmap_fds (mmap_ready frame f) (s, w)"
  then show "mmap_row sys csv i b t (s, w) = tool_row sys csv (csv_join ([dec i, dec (unat (ub_index b)),
      dec (unat (mm_queued_at s ! unat (ub_index b))), dec (unat t)] @ stamp_fields b)) (s, w)"
    using j by (simp add: mmap_row_def Let_def keeps_def mmap_ready_def word_less_nat_alt)
qed (rule common_steps(8) [OF sys], erule mmap_ready_fd)

lemma mmap_frame_ends:
  assumes sys: "tool_system sys maps fds 4 frame" and law: "index_law sys 4"
  shows "ends (keeps sys maps fds M F mmap_maps mmap_fds (mmap_ready frame f)) (mmap_frame sys csv i)
    (keeps sys maps fds M F mmap_maps mmap_fds (mmap_ready frame f)) (keeps sys maps fds M F mmap_maps mmap_fds (\<lambda>s. mm_fd s = f))"
  unfolding mmap_frame_def
proof (rule ends_fetch [where A = "\<lambda>b. ub_index b < 4"])
  fix b :: v4l2_buffer assume b: "ub_index b < 4"
  then have "unat (ub_index b) < 4" by (simp add: word_less_nat_alt)
  note steps = mmap_row_ends [OF sys b] mmap_stamp_ends [OF sys this] common_steps(4) [OF sys, where P = "mmap_ready frame f" and R = "\<lambda>s. mm_fd s = f", OF mmap_ready_fd]
  show "ends (keeps sys maps fds M F mmap_maps mmap_fds (mmap_ready frame f))
      (tool_now sys (\<lambda>t. block [mmap_row sys csv i b t, mmap_stamp sys (unat (ub_index b)), call (\<lambda>s. qbuf sys (mm_fd s) b)]))
      (keeps sys maps fds M F mmap_maps mmap_fds (mmap_ready frame f)) (keeps sys maps fds M F mmap_maps mmap_fds (\<lambda>s. mm_fd s = f))"
    by (rule ends_now [OF sys]) (rule ends_seq steps | assumption | erule mmap_ready_fd)+
qed (simp_all add: quietly_dqbuf_index [OF sys law] mmap_ready_fd)

text \<open>The body after the device is open.\<close>

definition capture_mmap_rest :: "('w, 'x) run_sys_scheme \<Rightarrow> bool \<Rightarrow> string \<Rightarrow> nat \<Rightarrow> (mmap_state, 'w) step" where
  "capture_mmap_rest sys dup csv frames = block
     [call (\<lambda>s. vpipe_set_format sys (mm_fd s) V4L2_BUF_TYPE_VIDEO_CAPTURE 640 480 V4L2_PIX_FMT_GREY),
      request_into sys (of_nat DIRECT_BUFFERS) V4L2_BUF_TYPE_VIDEO_CAPTURE mm_fd mm_bufs (\<lambda>b s. s\<lparr>mm_bufs := b\<rparr>),
      tool_csv sys dup csv mmap_header,
      each (mmap_queue sys) [0..<DIRECT_BUFFERS],
      call (\<lambda>s. stream_on sys (mm_fd s) V4L2_BUF_TYPE_VIDEO_CAPTURE),
      each (mmap_frame sys csv) [0..<frames]]"

lemma capture_mmap_body_rest:
  "capture_mmap_body sys dup video csv frames (s, w) = (case run_open sys video w of
     (Inl _, w) \<Rightarrow> Some (False, s, w) | (Inr f, w) \<Rightarrow> capture_mmap_rest sys dup csv frames (s\<lparr>mm_fd := f\<rparr>, w))"
  unfolding capture_mmap_body_def capture_mmap_rest_def block.simps(2) [of "open_into sys video p" for p]
  by (simp only: andthen_def open_into_def split: prod.split sum.split) simp

lemma mmap_rest_ends:
  assumes sys: "tool_system sys maps fds 4 frame" and law: "index_law sys 4"
  shows "ends (keeps sys maps fds M F mmap_maps mmap_fds (\<lambda>s. mmap_fresh s \<and> mm_fd s = f)) (capture_mmap_rest sys dup csv frames)
    (keeps sys maps fds M F mmap_maps mmap_fds (mmap_ready frame f)) (keeps sys maps fds M F mmap_maps mmap_fds (\<lambda>s. mm_fd s = f))"
proof -
  let ?K = "keeps sys maps fds M F mmap_maps mmap_fds"
  let ?A = "?K (mmap_ready frame f)" and ?R = "?K (\<lambda>s. mm_fd s = f)"
  have csv: "ends ?A (tool_csv sys dup csv mmap_header) ?A ?R" by (rule common_steps(7) [OF sys]) (erule mmap_ready_fd)
  have on: "ends ?A (call (\<lambda>s. stream_on sys (mm_fd s) V4L2_BUF_TYPE_VIDEO_CAPTURE)) ?A ?R" by (rule common_steps(6) [OF sys]) (erule mmap_ready_fd)
  have 1: "ends (?K (\<lambda>s. mmap_fresh s \<and> mm_fd s = f)) (call (\<lambda>s. vpipe_set_format sys (mm_fd s) V4L2_BUF_TYPE_VIDEO_CAPTURE 640 480 V4L2_PIX_FMT_GREY))
      (?K (\<lambda>s. mmap_fresh s \<and> mm_fd s = f)) ?R"
    by (rule common_steps(5) [OF sys]) simp
  have "ends ?A (mmap_queue sys i) ?A ?R" if "i < 4" for i
    unfolding mmap_queue_def by (rule ends_seq mmap_stamp_ends [OF sys that] common_steps(3) [OF sys] | erule mmap_ready_fd)+
  then have 2: "ends ?A (each (mmap_queue sys) [0..<4]) ?A ?R" by (rule ends_loop)
  have 3: "ends ?A (each (mmap_frame sys csv) [0..<frames]) ?A ?R" by (rule ends_loop) (rule mmap_frame_ends [OF sys law])
  show ?thesis unfolding capture_mmap_rest_def of_nat_numeral
    by (rule ends_block(2) [OF 1 ends_block(2) [OF mmap_request_ends [OF sys] ends_block(2) [OF csv
      ends_block(2) [OF 2 ends_block(2) [OF on ends_block(2) [OF 3 ends_block(1)]]]]]])
qed

text \<open>A run that succeeds gives everything back; one that fails after opening the device keeps its descriptor.\<close>

lemma capture_mmap_total:
  assumes sys: "tool_system sys maps fds 4 frame" and law: "index_law sys 4" and valid: "mem_valid sys maps w"
  shows "\<exists>status w'. capture_mmap_main sys dup argv w = Some (status, w') \<and> status \<le> 1 \<and>
    (case fst (run_open sys (arg_or 1 argv ''/dev/video0'') w) of Inl _ \<Rightarrow> status = 1 \<and> maps w' = maps w \<and> fds w' = fds w
     | Inr fd \<Rightarrow> if status = 0 then maps w' = maps w \<and> fds w' = fds w else fds w' = add_mset fd (fds w))"
proof -
  obtain r w1 where op: "run_open sys (arg_or 1 argv ''/dev/video0'') w = (r, w1)" by fastforce
  have laws: "sys_laws sys maps" "run_laws sys maps fds" using sys by (simp_all add: tool_system_def)
  note o = run_laws_open [OF laws(2), where p = "arg_or 1 argv ''/dev/video0''" and w = w, unfolded op fst_conv snd_conv]
  show ?thesis
  proof (cases r)
    case (Inl e)
    then show ?thesis using op o by (simp add: capture_mmap_main_def capture_mmap_body_rest Let_def)
  next
    case (Inr f)
    let ?K = "keeps sys maps fds (maps w) (fds w) mmap_maps mmap_fds"
    let ?s = "mmap_init\<lparr>mm_fd := f\<rparr>" and ?csv = "arg_or 2 argv ''bench/mmap.csv''" and ?n = "unat (uint_arg 3 argv 600)"
    have f: "0 \<le> f" "fds w1 = add_mset f (fds w)" "maps w1 = maps w" "mem_valid sys maps w1" using o Inr valid by simp_all
    have "mapped (mm_bufs mmap_init) = {#}" by (rule mapped_none) (simp add: mmap_init_def unmapped_buffer_def)
    then have "?K (\<lambda>s. mmap_fresh s \<and> mm_fd s = f) (?s, w1)"
      using f by (auto simp: keeps_def mmap_init_def mmap_fresh_def mmap_maps_def mmap_fds_def owned_def unmapped_buffer_def)
    from endsD [OF mmap_rest_ends [OF sys law, where dup = dup and csv = ?csv and frames = ?n] this] obtain go s v where
      b: "capture_mmap_rest sys dup ?csv ?n (?s, w1) = Some (go, s, v)" "if go then ?K (mmap_ready frame f) (s, v) else ?K (\<lambda>s. mm_fd s = f) (s, v)"
      by blast
    have body: "capture_mmap_body sys dup (arg_or 1 argv ''/dev/video0'') ?csv ?n (mmap_init, w) = Some (go, s, v)"
      using op Inr b(1) by (simp add: capture_mmap_body_rest)
    show ?thesis
    proof (cases go)
      case True
      then have k: "mem_valid sys maps v" "maps v = maps w + mapped (mm_bufs s)" "fds v = add_mset f (fds w)" "bufs_ok 4 frame 4 (mm_bufs s)" "mm_fd s = f"
        using b(2) f(1) by (simp_all add: keeps_def mmap_maps_def mmap_fds_def mmap_ready_def owned_def)
      obtain v' where u: "vpipe_unmap_buffers sys (mm_bufs s) 4 v = Some v'" "maps v' = maps v - mapped (mm_bufs s)" "fds v' = fds v"
        by (rule unmap_run [OF sys k(4,1)])
      have "maps (sys_close sys f v') = maps w" "fds (sys_close sys f v') = fds w"
        using laws u k by (auto simp: run_laws_mmap sys_laws_def)
      then show ?thesis using body op Inr True u(1) k(5) by (simp add: capture_mmap_main_def Let_def)
    next
      case False
      then show ?thesis using body op Inr b(2) f(1) by (simp add: capture_mmap_main_def Let_def keeps_def mmap_fds_def owned_def)
    qed
  qed
qed

section \<open>Reading\<close>

definition read_fds :: "read_state \<Rightarrow> int multiset" where "read_fds s = owned (rd_fd s)"

lemma read_quietly:
  assumes "capture_laws sys maps fds"
  shows "quietly sys maps fds (\<lambda>w. case cap_read sys fd n w of (r, w) \<Rightarrow> Some (Some r, w)) (\<lambda>_. True)"
proof (rule quietlyI)
  fix w
  have "quiet sys maps fds w (snd (cap_read sys fd n w))" using assms unfolding capture_laws_def by blast
  then show "\<exists>r w'. (case cap_read sys fd n w of (r, w) \<Rightarrow> Some (Some r, w)) = Some (r, w') \<and> quiet sys maps fds w w'"
    by (simp add: case_prod_unfold)
qed

lemma read_row_ends:
  assumes sys: "tool_system sys maps fds depth frame"
  shows "ends (keeps sys maps fds M F (\<lambda>_. {#}) read_fds (\<lambda>_. True)) (read_row sys csv i t0 t1 bytes)
    (keeps sys maps fds M F (\<lambda>_. {#}) read_fds (\<lambda>_. True)) (keeps sys maps fds M F (\<lambda>_. {#}) read_fds (\<lambda>_. True))"
proof (rule endsI)
  let ?A = "keeps sys maps fds M F (\<lambda>_. {#}) read_fds (\<lambda>_. True)"
  fix s w assume pre: "?A (s, w)"
  obtain crc st where c: "vpipe_crc32 bytes (rd_crc s) = (crc, st)" by fastforce
  have "?A (s\<lparr>rd_crc := st\<rparr>, w)" using pre by (simp add: keeps_def read_fds_def)
  from endsD [OF common_steps(8) [OF sys, where P = "\<lambda>_. True" and R = "\<lambda>_. True", OF TrueI] this]
  show "\<exists>go s' w'. read_row sys csv i t0 t1 bytes (s, w) = Some (go, s', w') \<and> (if go then ?A (s', w') else ?A (s', w'))"
    using c by (simp add: read_row_def)
qed

lemma read_frame_ends:
  assumes sys: "tool_system sys maps fds depth frame" and laws: "capture_laws sys maps fds"
  shows "ends (keeps sys maps fds M F (\<lambda>_. {#}) read_fds (\<lambda>_. True)) (read_frame sys csv i)
    (keeps sys maps fds M F (\<lambda>_. {#}) read_fds (\<lambda>_. True)) (keeps sys maps fds M F (\<lambda>_. {#}) read_fds (\<lambda>_. True))"
  unfolding read_frame_def
proof (intro ends_now [OF sys] ends_fetch_any read_quietly [OF laws] TrueI)
  fix r :: "u8 list result" and t0 t1
  have "ends (keeps sys maps fds M F (\<lambda>_. {#}) read_fds (\<lambda>_. True)) (check (\<lambda>_. False))
    (keeps sys maps fds M F (\<lambda>_. {#}) read_fds (\<lambda>_. True)) (keeps sys maps fds M F (\<lambda>_. {#}) read_fds (\<lambda>_. True))"
    by (rule ends_keeps_check) simp_all
  then show "ends (keeps sys maps fds M F (\<lambda>_. {#}) read_fds (\<lambda>_. True)) (case r of Inl _ \<Rightarrow> check (\<lambda>_. False) | Inr bytes \<Rightarrow> read_row sys csv i t0 t1 bytes)
    (keeps sys maps fds M F (\<lambda>_. {#}) read_fds (\<lambda>_. True)) (keeps sys maps fds M F (\<lambda>_. {#}) read_fds (\<lambda>_. True))"
    by (simp add: read_row_ends [OF sys] split: sum.split)
qed

lemma capture_read_total:
  assumes sys: "tool_system sys maps fds depth frame" and laws: "capture_laws sys maps fds" and valid: "mem_valid sys maps w"
  shows "\<exists>status w'. capture_read_main sys room dup argv w = Some (status, w') \<and> status \<le> 1 \<and> maps w' = maps w \<and> fds w' = fds w"
proof -
  let ?K = "keeps sys maps fds (maps w) (fds w) (\<lambda>_. {#}) read_fds"
  let ?A = "?K (\<lambda>_. True)"
  note calls = common_steps [OF sys, where P = "\<lambda>_. True" and R = "\<lambda>_. True", OF TrueI]
  have 1: "ends (?K (\<lambda>s. rd_fd s = -1)) (open_into sys video (\<lambda>f s. s\<lparr>rd_fd := f\<rparr>)) ?A ?A" for video
    by (rule ends_open [OF sys]) (simp_all add: read_fds_def owned_def)
  have 2: "ends ?A (check (\<lambda>_. room)) ?A ?A" by (rule ends_keeps_check) simp_all
  have 3: "ends ?A (each (read_frame sys csv) [0..<frames]) ?A ?A" for csv frames by (rule ends_loop) (rule read_frame_ends [OF sys laws])
  have body: "ends (?K (\<lambda>s. rd_fd s = -1)) (capture_read_body sys room dup video csv frames) ?A ?A" for video csv frames
    unfolding capture_read_body_def
    by (rule ends_block(2) [OF 1 ends_block(2) [OF calls(5) ends_block(2) [OF 2 ends_block(2) [OF calls(7) ends_block(2) [OF 3 ends_block(1)]]]]])
  have "\<exists>w'. capture_read_cleanup sys s v = Some w' \<and> maps w' = maps w \<and> fds w' = fds w" if "?A (s, v)" for s v
    using that close_fd_run [OF sys] by (simp add: capture_read_cleanup_def keeps_def read_fds_def)
  then have "\<exists>status w'. run_program (capture_read_body sys room dup video csv frames) (capture_read_cleanup sys) \<lparr>rd_fd = -1, rd_crc = crc32_state_init\<rparr> w =
      Some (status, w') \<and> status \<le> 1 \<and> maps w' = maps w \<and> fds w' = fds w" for video csv frames
    by (intro run_program_total [OF body valid]) (simp_all add: read_fds_def owned_def)
  then show ?thesis unfolding capture_read_main_def Let_def by (simp split: option.split)
qed

end
