(* ===== verification/User_Fixture_Tools.thy ===== *)
theory User_Fixture_Tools
  imports User_Capture_Tools User_Capture_Direct
begin

text \<open>
  The programs that feed an image file through the pipeline: user/vpipe-bench-fixture.c, which
  measures, and user/vpipe-fixture-feed.c, which stores the processed frame.  Both copy the
  image into memory of a DMA heap, which the device imports.
\<close>

unbundle bit_operations_syntax

section \<open>Memory of a heap\<close>

abbreviation (input) FIXTURE_BUFFERS :: nat where "FIXTURE_BUFFERS \<equiv> 2"

record fixture_dmabuf =
  fb_fd :: int
  fb_addr :: uaddr
  fb_length :: nat

definition no_dmabuf :: fixture_dmabuf where
  "no_dmabuf = \<lparr>fb_fd = -1, fb_addr = Map_Failed, fb_length = 0\<rparr>"

definition dma_heap_alloc_fd :: "('w, 'x) run_sys_scheme \<Rightarrow> string \<Rightarrow> nat \<Rightarrow> 'w \<Rightarrow> int \<times> 'w" where
  "dma_heap_alloc_fd sys heap n w =
     (case run_open sys heap w of (Inl _, w) \<Rightarrow> (-1, w)
      | (Inr heap_fd, w) \<Rightarrow>
          (case sys_ioctl sys heap_fd (DMA_HEAP_IOCTL_ALLOC n) w of
             (Inr (Reply_Fd f), w) \<Rightarrow> (f, sys_close sys heap_fd w)
           | (_, w) \<Rightarrow> (-1, sys_close sys heap_fd w)))"

definition queue_dmabuf :: "('w, 'x) run_sys_scheme \<Rightarrow> int \<Rightarrow> u32 \<Rightarrow> int \<Rightarrow> nat \<Rightarrow> nat \<Rightarrow> 'w \<Rightarrow> (bool \<times> 'w) option" where
  "queue_dmabuf sys fd index dmabuf_fd bytesused n =
     qbuf sys fd ((zero_buf V4L2_BUF_TYPE_VIDEO_OUTPUT V4L2_MEMORY_DMABUF index)
       \<lparr>ub_fd := dmabuf_fd, ub_bytesused := of_nat bytesused, ub_length := of_nat n\<rparr>)"

text \<open>A buffer is allocated and mapped, and the image copied to its start.\<close>

definition heap_buffer ::
    "('w, 'x) run_sys_scheme \<Rightarrow> string \<Rightarrow> nat \<Rightarrow> u8 list \<Rightarrow> fixture_dmabuf \<Rightarrow> 'w \<Rightarrow> (bool \<times> fixture_dmabuf \<times> 'w) option" where
  "heap_buffer sys heap n px b w = (case dma_heap_alloc_fd sys heap n w of (f, w) \<Rightarrow>
     let b = b\<lparr>fb_fd := f\<rparr> in
     if f < 0 then Some (False, b, w)
     else case sys_mmap sys n f 0 w of
       (None, w) \<Rightarrow> Some (False, b\<lparr>fb_length := n, fb_addr := Map_Failed\<rparr>, w)
     | (Some a, w) \<Rightarrow> do {
         m \<leftarrow> store_bytes (run_mem sys w) (a, 0) px;
         Some (True, b\<lparr>fb_length := n, fb_addr := Addr a\<rparr>, run_put sys m w) })"

text \<open>
  The memory from the address of a captured buffer on; an index outside the array is a fault,
  and so is reading behind the memory, in \<open>vpipe_write_pgm\<close>.
\<close>

definition frame_bytes :: "mem \<Rightarrow> vpipe_mmap_buffer list \<Rightarrow> nat \<Rightarrow> u8 list option" where
  "frame_bytes m bufs i =
     (if length bufs \<le> i then None
      else Some (case mb_addr (bufs ! i) of Addr a \<Rightarrow> (case m a of None \<Rightarrow> [] | Some D \<Rightarrow> D) | _ \<Rightarrow> []))"

definition fixture_dump ::
    "('w, 'x) run_sys_scheme \<Rightarrow> bool \<Rightarrow> string \<Rightarrow> vpipe_pgm_image \<Rightarrow> ('s \<Rightarrow> vpipe_mmap_buffer list) \<Rightarrow> nat \<Rightarrow> ('s, 'w) step" where
  "fixture_dump sys dup path img bufs i = (\<lambda>(s, w). do {
     D \<leftarrow> frame_bytes (run_mem sys w) (bufs s) i;
     (done, w) \<leftarrow> vpipe_write_pgm (run_fs sys) dup path D (pgm_width img) (pgm_height img) w;
     Some (done, s, w) })"

text \<open>The pixels of an image that was read.\<close>

definition fixture_pixels :: "vpipe_pgm_image \<Rightarrow> u8 list" where
  "fixture_pixels img = (case pgm_pixels img of None \<Rightarrow> [] | Some px \<Rightarrow> take (pgm_size img) px)"

section \<open>user/vpipe-bench-fixture.c\<close>

record fixture_state =
  fx_fd :: int
  fx_cap :: "vpipe_mmap_buffer list"
  fx_out :: "fixture_dmabuf list"
  fx_sizeimage :: nat
  fx_cap_streaming :: bool
  fx_out_streaming :: bool

definition fixture_init :: fixture_state where
  "fixture_init = \<lparr>fx_fd = -1, fx_cap = no_bufs FIXTURE_BUFFERS, fx_out = replicate FIXTURE_BUFFERS no_dmabuf,
     fx_sizeimage = 0, fx_cap_streaming = False, fx_out_streaming = False\<rparr>"

definition fixture_alloc :: "('w, 'x) run_sys_scheme \<Rightarrow> string \<Rightarrow> vpipe_pgm_image \<Rightarrow> nat \<Rightarrow> (fixture_state, 'w) step" where
  "fixture_alloc sys heap img i = (\<lambda>(s, w).
     if length (fx_out s) \<le> i then None
     else do {
       (done, b, w) \<leftarrow> heap_buffer sys heap (fx_sizeimage s) (fixture_pixels img) (fx_out s ! i) w;
       Some (done, s\<lparr>fx_out := (fx_out s)[i := b]\<rparr>, w) })"

definition fixture_submit :: "('w, 'x) run_sys_scheme \<Rightarrow> vpipe_pgm_image \<Rightarrow> nat \<Rightarrow> (fixture_state, 'w) step" where
  "fixture_submit sys img j = (\<lambda>(s, w).
     if length (fx_out s) \<le> j then None
     else call (\<lambda>s. queue_dmabuf sys (fx_fd s) (of_nat j) (fb_fd (fx_out s ! j)) (pgm_size img) (fb_length (fx_out s ! j))) (s, w))"

definition fixture_header :: string where
  "fixture_header = ''frame,output_index,enqueue_monotonic_ns,dequeue_'' @ ''monotonic_ns,vpipe_sequence,bytesused,algo''"

definition fixture_row :: "string \<Rightarrow> nat \<Rightarrow> v4l2_buffer \<Rightarrow> u64 \<Rightarrow> u64 \<Rightarrow> u8 list" where
  "fixture_row algo_name i cap_dq enqueue_ns dequeue_ns = csv_join [dec i, dec (i mod FIXTURE_BUFFERS), dec (unat enqueue_ns),
     dec (unat dequeue_ns), dec (unat (ub_sequence cap_dq)), dec (unat (ub_bytesused cap_dq)), bytes_of algo_name]"

definition fixture_frame ::
    "('w, 'x) run_sys_scheme \<Rightarrow> bool \<Rightarrow> string \<Rightarrow> string option \<Rightarrow> string \<Rightarrow> vpipe_pgm_image \<Rightarrow> nat \<Rightarrow> (fixture_state, 'w) step" where
  "fixture_frame sys dup csv out_path algo_name img i =
     tool_now sys (\<lambda>enqueue_ns. block
       [fixture_submit sys img (i mod FIXTURE_BUFFERS),
        fetch (\<lambda>s. dqbuf sys (fx_fd s) V4L2_BUF_TYPE_VIDEO_CAPTURE V4L2_MEMORY_MMAP) (\<lambda>cap_dq.
        tool_now sys (\<lambda>dequeue_ns. block
          [check (\<lambda>_. unat (ub_index cap_dq) < FIXTURE_BUFFERS),
           fetch (\<lambda>s. dqbuf sys (fx_fd s) V4L2_BUF_TYPE_VIDEO_OUTPUT V4L2_MEMORY_DMABUF) (\<lambda>out_dq. block
             [case out_path of None \<Rightarrow> block []
              | Some path \<Rightarrow> if i = 0 then fixture_dump sys dup path img fx_cap (unat (ub_index cap_dq)) else block [],
              tool_row sys csv (fixture_row algo_name i cap_dq enqueue_ns dequeue_ns),
              call (\<lambda>s. qbuf sys (fx_fd s) cap_dq)])]))])"

definition bench_fixture_body ::
    "('w, 'x) run_sys_scheme \<Rightarrow> bool \<Rightarrow> string \<Rightarrow> string \<Rightarrow> string \<Rightarrow> string option \<Rightarrow> string \<Rightarrow> u32 \<Rightarrow> u64 \<Rightarrow> nat \<Rightarrow> vpipe_pgm_image \<Rightarrow>
     (fixture_state, 'w) step" where
  "bench_fixture_body sys dup video heap csv out_path algo_name algo_id threshold frames img = block
     [open_into sys video (\<lambda>f s. s\<lparr>fx_fd := f\<rparr>),
      call (\<lambda>s. vpipe_set_format sys (fx_fd s) V4L2_BUF_TYPE_VIDEO_OUTPUT (pgm_width img) (pgm_height img) V4L2_PIX_FMT_GREY),
      call (\<lambda>s. vpipe_set_format sys (fx_fd s) V4L2_BUF_TYPE_VIDEO_CAPTURE (pgm_width img) (pgm_height img) V4L2_PIX_FMT_GREY),
      sizeimage_into sys fx_fd V4L2_BUF_TYPE_VIDEO_OUTPUT (\<lambda>n s. s\<lparr>fx_sizeimage := n\<rparr>),
      check (\<lambda>s. fx_sizeimage s \<noteq> 0),
      check (\<lambda>s. pgm_size img \<le> fx_sizeimage s),
      fetch (\<lambda>s. request_bufs sys (fx_fd s) (of_nat FIXTURE_BUFFERS) V4L2_BUF_TYPE_VIDEO_OUTPUT V4L2_MEMORY_DMABUF) (\<lambda>_. block []),
      request_into sys (of_nat FIXTURE_BUFFERS) V4L2_BUF_TYPE_VIDEO_CAPTURE fx_fd fx_cap (\<lambda>b s. s\<lparr>fx_cap := b\<rparr>),
      each (fixture_alloc sys heap img) [0..<FIXTURE_BUFFERS],
      call (\<lambda>s. set_ctrl sys (fx_fd s) VPIPE_CID_ALGO algo_id),
      call (\<lambda>s. set_ctrl sys (fx_fd s) VPIPE_CID_THRESHOLD (ucast threshold)),
      tool_csv sys dup csv fixture_header,
      each (\<lambda>i. call (\<lambda>s. vpipe_queue_mmap_buffer sys (fx_fd s) V4L2_BUF_TYPE_VIDEO_CAPTURE V4L2_MEMORY_MMAP (of_nat i) (-1))) [0..<FIXTURE_BUFFERS],
      call (\<lambda>s. stream_on sys (fx_fd s) V4L2_BUF_TYPE_VIDEO_CAPTURE), assign (\<lambda>s. s\<lparr>fx_cap_streaming := True\<rparr>),
      call (\<lambda>s. stream_on sys (fx_fd s) V4L2_BUF_TYPE_VIDEO_OUTPUT), assign (\<lambda>s. s\<lparr>fx_out_streaming := True\<rparr>),
      each (fixture_frame sys dup csv out_path algo_name img) [0..<frames]]"

text \<open>The label \<open>cleanup\<close>.\<close>

definition heap_release :: "('w, 'x) run_sys_scheme \<Rightarrow> fixture_dmabuf \<Rightarrow> 'w \<Rightarrow> 'w" where
  "heap_release sys b w =
     close_fd sys (fb_fd b) (case fb_addr b of Map_Failed \<Rightarrow> w
       | Addr a \<Rightarrow> if fb_length b \<noteq> 0 then sys_munmap sys a (fb_length b) w else w
       | Null \<Rightarrow> if fb_length b \<noteq> 0 then sys_munmap sys 0 (fb_length b) w else w)"

definition bench_fixture_cleanup :: "('w, 'x) run_sys_scheme \<Rightarrow> fixture_state \<Rightarrow> 'w \<Rightarrow> 'w option" where
  "bench_fixture_cleanup sys s w = do {
     w \<leftarrow> stream_off sys (0 \<le> fx_fd s \<and> fx_out_streaming s) (fx_fd s) V4L2_BUF_TYPE_VIDEO_OUTPUT w;
     w \<leftarrow> stream_off sys (0 \<le> fx_fd s \<and> fx_cap_streaming s) (fx_fd s) V4L2_BUF_TYPE_VIDEO_CAPTURE w;
     w \<leftarrow> foreach (\<lambda>i w. if length (fx_out s) \<le> i then None else Some (heap_release sys (fx_out s ! i) w)) [0..<FIXTURE_BUFFERS] w;
     w \<leftarrow> vpipe_unmap_buffers sys (fx_cap s) FIXTURE_BUFFERS w;
     Some (close_fd sys (fx_fd s) w) }"

text \<open>\<open>files\<close>: the contents of files; \<open>room\<close>: whether the pixels can be allocated.\<close>

definition bench_fixture_main ::
    "('w, 'x) run_sys_scheme \<Rightarrow> ('w \<Rightarrow> string \<rightharpoonup> u8 list) \<Rightarrow> bool \<Rightarrow> bool \<Rightarrow> string list \<Rightarrow> 'w \<Rightarrow> (nat \<times> 'w) option" where
  "bench_fixture_main sys files room dup argv w =
     (let video = arg_or 1 argv ''/dev/video0''; heap = arg_or 2 argv ''/dev/dma_heap/system''; fixture = arg_or 3 argv ''tests/fixtures/ramp.pgm'';
          csv = arg_or 4 argv ''bench/fixture.csv''; algo_name = arg_or 6 argv ''none'';
          out_path = (if length argv > 8 then Some (argv ! 8) else None)
      in case (frames_arg 5 argv 600, threshold_arg 7 argv, parse_algo algo_name) of
           (Some frames, Some threshold, Some algo_id) \<Rightarrow>
             (case vpipe_read_pgm (files w fixture) room of
                (False, img) \<Rightarrow> Some (1, w)
              | (True, img) \<Rightarrow> run_program (bench_fixture_body sys dup video heap csv out_path algo_name algo_id threshold frames img)
                  (bench_fixture_cleanup sys) fixture_init w)
         | _ \<Rightarrow> Some (1, w))"

section \<open>user/vpipe-fixture-feed.c\<close>

record feed_state =
  fe_fd :: int
  fe_cap :: "vpipe_mmap_buffer list"
  fe_buf :: fixture_dmabuf
  fe_sizeimage :: nat

definition feed_init :: feed_state where
  "feed_init = \<lparr>fe_fd = -1, fe_cap = replicate FIXTURE_BUFFERS \<lparr>mb_addr = Null, mb_length = 0, mb_dmabuf_fd = 0\<rparr>,
     fe_buf = no_dmabuf, fe_sizeimage = 0\<rparr>"

definition feed_alloc :: "('w, 'x) run_sys_scheme \<Rightarrow> string \<Rightarrow> vpipe_pgm_image \<Rightarrow> (feed_state, 'w) step" where
  "feed_alloc sys heap img = (\<lambda>(s, w). do {
     (done, b, w) \<leftarrow> heap_buffer sys heap (fe_sizeimage s) (fixture_pixels img) (fe_buf s) w;
     Some (done, s\<lparr>fe_buf := b\<rparr>, w) })"

definition fixture_feed_body :: "('w, 'x) run_sys_scheme \<Rightarrow> bool \<Rightarrow> string \<Rightarrow> string \<Rightarrow> string \<Rightarrow> vpipe_pgm_image \<Rightarrow> (feed_state, 'w) step" where
  "fixture_feed_body sys dup video heap out_path img = block
     [open_into sys video (\<lambda>f s. s\<lparr>fe_fd := f\<rparr>),
      call (\<lambda>s. vpipe_set_format sys (fe_fd s) V4L2_BUF_TYPE_VIDEO_OUTPUT (pgm_width img) (pgm_height img) V4L2_PIX_FMT_GREY),
      call (\<lambda>s. vpipe_set_format sys (fe_fd s) V4L2_BUF_TYPE_VIDEO_CAPTURE (pgm_width img) (pgm_height img) V4L2_PIX_FMT_GREY),
      sizeimage_into sys fe_fd V4L2_BUF_TYPE_VIDEO_OUTPUT (\<lambda>n s. s\<lparr>fe_sizeimage := n\<rparr>),
      check (\<lambda>s. fe_sizeimage s \<noteq> 0),
      check (\<lambda>s. pgm_size img \<le> fe_sizeimage s),
      fetch (\<lambda>s. request_bufs sys (fe_fd s) (of_nat FIXTURE_BUFFERS) V4L2_BUF_TYPE_VIDEO_OUTPUT V4L2_MEMORY_DMABUF) (\<lambda>_. block []),
      request_into sys (of_nat FIXTURE_BUFFERS) V4L2_BUF_TYPE_VIDEO_CAPTURE fe_fd fe_cap (\<lambda>b s. s\<lparr>fe_cap := b\<rparr>),
      feed_alloc sys heap img,
      call (\<lambda>s. set_ctrl sys (fe_fd s) VPIPE_CID_ALGO VPIPE_ALGO_THRESHOLD),
      call (\<lambda>s. set_ctrl sys (fe_fd s) VPIPE_CID_THRESHOLD 127),
      call (\<lambda>s. vpipe_queue_mmap_buffer sys (fe_fd s) V4L2_BUF_TYPE_VIDEO_CAPTURE V4L2_MEMORY_MMAP 0 (-1)),
      call (\<lambda>s. queue_dmabuf sys (fe_fd s) 0 (fb_fd (fe_buf s)) (pgm_size img) (fe_sizeimage s)),
      call (\<lambda>s. stream_on sys (fe_fd s) V4L2_BUF_TYPE_VIDEO_CAPTURE),
      call (\<lambda>s. stream_on sys (fe_fd s) V4L2_BUF_TYPE_VIDEO_OUTPUT),
      fetch (\<lambda>s. dqbuf sys (fe_fd s) V4L2_BUF_TYPE_VIDEO_CAPTURE V4L2_MEMORY_MMAP) (\<lambda>cap_dq.
        fixture_dump sys dup out_path img fe_cap (unat (ub_index cap_dq)))]"

text \<open>Every failure returns at once, without releasing anything.\<close>

definition fixture_feed_main ::
    "('w, 'x) run_sys_scheme \<Rightarrow> ('w \<Rightarrow> string \<rightharpoonup> u8 list) \<Rightarrow> bool \<Rightarrow> bool \<Rightarrow> string list \<Rightarrow> 'w \<Rightarrow> (nat \<times> 'w) option" where
  "fixture_feed_main sys files room dup argv w = do {
     let video = arg_or 1 argv ''/dev/video0'';
     let heap = arg_or 2 argv ''/dev/dma_heap/system'';
     let fixture = arg_or 3 argv ''tests/fixtures/ramp.pgm'';
     let out_path = arg_or 4 argv ''bench/ramp.kernel.pgm'';
     (case vpipe_read_pgm (files w fixture) room of
        (False, img) \<Rightarrow> Some (1, w)
      | (True, img) \<Rightarrow> do {
          (done, s, w) \<leftarrow> fixture_feed_body sys dup video heap out_path img (feed_init, w);
          if \<not> done then Some (1, w)
          else do {
            let w = (case fb_addr (fe_buf s) of Addr a \<Rightarrow> sys_munmap sys a (fe_sizeimage s) w | _ \<Rightarrow> w);
            let w = sys_close sys (fb_fd (fe_buf s)) w;
            w \<leftarrow> vpipe_unmap_buffers sys (fe_cap s) FIXTURE_BUFFERS w;
            Some (0, sys_close sys (fe_fd s) w) } }) }"

section \<open>What the programs hold\<close>

definition heap_maps :: "fixture_dmabuf \<Rightarrow> (nat \<times> nat) multiset" where
  "heap_maps b = (case fb_addr b of Addr a \<Rightarrow> {#(a, fb_length b)#} | _ \<Rightarrow> {#})"

definition heap_ok :: "fixture_dmabuf \<Rightarrow> bool" where
  "heap_ok b \<longleftrightarrow> fb_addr b \<noteq> Null \<and> (\<forall>a. fb_addr b = Addr a \<longrightarrow> fb_length b \<noteq> 0)"

definition heap_full :: "nat \<Rightarrow> fixture_dmabuf \<Rightarrow> bool" where
  "heap_full n b \<longleftrightarrow> 0 \<le> fb_fd b \<and> fb_length b = n \<and> (\<exists>a. fb_addr b = Addr a)"

lemma no_dmabuf_holds [simp]: "heap_maps no_dmabuf = {#}" "owned (fb_fd no_dmabuf) = {#}" "heap_ok no_dmabuf"
  by (simp_all add: no_dmabuf_def heap_maps_def owned_def heap_ok_def)

lemma heap_alloc_run:
  assumes sys: "tool_system sys maps fds depth frame" and valid: "mem_valid sys maps w" and run: "dma_heap_alloc_fd sys heap n w = (f, w')"
  shows "maps w' = maps w" "fds w' = fds w + owned f" "mem_valid sys maps w'"
proof -
  have laws: "sys_laws sys maps" "run_laws sys maps fds" using sys by (simp_all add: tool_system_def)
  obtain r w1 where op: "run_open sys heap w = (r, w1)" by fastforce
  note o = run_laws_open [OF laws(2), where p = heap and w = w, unfolded op fst_conv snd_conv]
  have "maps w' = maps w \<and> fds w' = fds w + owned f \<and> mem_valid sys maps w'"
  proof (cases r)
    case (Inl e)
    then show ?thesis using run op o valid by (simp add: dma_heap_alloc_fd_def owned_def)
  next
    case (Inr h)
    obtain q w2 where io: "sys_ioctl sys h (DMA_HEAP_IOCTL_ALLOC n) w1 = (q, w2)" by fastforce
    have m: "maps (snd (sys_ioctl sys fd req v)) = maps v" "maps (sys_close sys fd v) = maps v" for fd req v
      using laws(1) unfolding sys_laws_def by blast+
    note i = run_laws_ioctl [OF laws(2), where fd = h and req = "DMA_HEAP_IOCTL_ALLOC n" and w = w1, unfolded io fst_conv snd_conv]
    have "maps w2 = maps w1" using m(1) [of h "DMA_HEAP_IOCTL_ALLOC n" w1] io by simp
    moreover have "w' = sys_close sys h w2 \<and> exported q = owned f"
      using run op io Inr by (auto simp: dma_heap_alloc_fd_def exported_def owned_def split: sum.splits v4l2_reply.splits)
    ultimately show ?thesis
      using o i valid Inr m(2) run_laws_mmap(4,6) [OF laws(2)] by simp
  qed
  then show "maps w' = maps w" "fds w' = fds w + owned f" "mem_valid sys maps w'" by blast+
qed

lemma heap_buffer_run:
  assumes sys: "tool_system sys maps fds depth frame" and valid: "mem_valid sys maps w" and n: "length px \<le> n" "n \<noteq> 0" and b: "fb_addr b = Map_Failed"
  obtains full b' w' where "heap_buffer sys heap n px b w = Some (full, b', w')" "maps w' = maps w + heap_maps b'" "fds w' = fds w + owned (fb_fd b')"
    "mem_valid sys maps w'" "heap_ok b'" "full \<longrightarrow> heap_full n b'"
proof -
  have laws: "run_laws sys maps fds" using sys by (simp add: tool_system_def)
  obtain f w1 where al: "dma_heap_alloc_fd sys heap n w = (f, w1)" by fastforce
  note w1 = heap_alloc_run [OF sys valid al]
  obtain r w2 where mm: "sys_mmap sys n f 0 w1 = (r, w2)" by fastforce
  note w2 = mmap_run [OF sys w1(3) mm]
  consider "f < 0" | "0 \<le> f" "r = None" | a where "0 \<le> f" "r = Some a" by (cases r) force+
  then show thesis
  proof cases
    case 1
    then have "heap_buffer sys heap n px b w = Some (False, b\<lparr>fb_fd := f\<rparr>, w1)" using al by (simp add: heap_buffer_def)
    then show thesis by (rule that) (use w1 b in \<open>simp_all add: heap_maps_def heap_ok_def\<close>)
  next
    case 2
    then have "heap_buffer sys heap n px b w = Some (False, b\<lparr>fb_fd := f, fb_length := n, fb_addr := Map_Failed\<rparr>, w2)" using al mm by (simp add: heap_buffer_def)
    then show thesis by (rule that) (use w1 w2 2 in \<open>simp_all add: heap_maps_def heap_ok_def\<close>)
  next
    case 3
    then have "(a, n) \<in># maps w2" using w2(1) by simp
    then obtain D where D: "run_mem sys w2 a = Some D" "n \<le> length D" using w2(3) unfolding mem_valid_def by blast
    let ?m = "(run_mem sys w2)(a \<mapsto> splice 0 px D)"
    have "store_bytes (run_mem sys w2) (a, 0) px = Some ?m" using D n(1) by (simp add: store_bytes_def in_block_def)
    then have run: "heap_buffer sys heap n px b w = Some (True, b\<lparr>fb_fd := f, fb_length := n, fb_addr := Addr a\<rparr>, run_put sys ?m w2)"
      using al mm 3 by (simp add: heap_buffer_def)
    have "quiet sys maps fds w2 (run_put sys ?m w2)" using D n(1) by (intro put_quiet [OF laws D(1)]) simp
    then show thesis by (intro that [OF run]) (use w1 w2 3 n(2) in \<open>simp_all add: quiet_def heap_maps_def heap_ok_def heap_full_def\<close>)
  qed
qed

lemma write_pgm_run:
  assumes laws: "run_laws sys maps fds" and n: "unat width * unat height \<le> length D"
  shows "\<exists>r w'. vpipe_write_pgm (run_fs sys) dup path D width height w = Some (r, w') \<and> quiet sys maps fds w w'"
proof -
  obtain made v where v: "vpipe_ensure_parent_dir (run_fs sys) dup path w = (made, v)" by fastforce
  have q: "quiet sys maps fds w v" using parent_dir_quiet [OF laws, of w dup path] v by simp
  show ?thesis
  proof (cases "made \<and> os_fopen_w (run_fs sys) path v \<noteq> None")
    case False
    then show ?thesis using v q by (cases made) (auto simp: vpipe_write_pgm_def Let_def)
  next
    case True
    then obtain u where u: "made" "os_fopen_w (run_fs sys) path v = Some u" by blast
    let ?u = "snd (os_fwrite (run_fs sys) path (pgm_header width height) u)"
    let ?w = "snd (os_fwrite (run_fs sys) path (take (unat width * unat height) D) ?u)"
    have "quiet sys maps fds v u" by (rule run_laws_quiet(5) [OF laws u(2)])
    then have "quiet sys maps fds w ?w" using q run_laws_quiet(6) [OF laws] by (meson quiet_trans)
    then show ?thesis using v u n by (simp add: vpipe_write_pgm_def Let_def case_prod_unfold)
  qed
qed

lemma ends_dump:
  assumes sys: "tool_system sys maps fds depth frame" and fit: "unat (pgm_width img) * unat (pgm_height img) \<le> frame"
    and P: "\<And>s. P s \<Longrightarrow> bufs_ok N frame N (bufs s) \<and> bufs_ready N (bufs s) \<and> mapped (bufs s) \<subseteq># rm s \<and> R s" and i: "i < N"
  shows "ends (keeps sys maps fds M F rm rf P) (fixture_dump sys dup path img bufs i) (keeps sys maps fds M F rm rf P) (keeps sys maps fds M F rm rf R)"
proof (rule endsI)
  fix s w assume pre: "keeps sys maps fds M F rm rf P (s, w)"
  then have p: "P s" "mem_valid sys maps w" "mapped (bufs s) \<subseteq># maps w"
    using P [of s] by (auto simp: keeps_def intro: subset_mset.order_trans)
  have b: "\<not> unmapped_buffer (bufs s ! i)" "i < length (bufs s)" "frame \<le> mb_length (bufs s ! i)"
    using P [OF p(1)] i by (auto simp: bufs_ok_def bufs_ready_def)
  obtain a D where D: "buf_addr (bufs s) i = Some (a, 0)" "run_mem sys w a = Some D" "mb_length (bufs s ! i) \<le> length D"
    by (rule bufs_backed [OF b(1,2) p(2,3)])
  then have "mb_addr (bufs s ! i) = Addr a" using b(2) by (auto simp: buf_addr_def split: uaddr.splits)
  then have fb: "frame_bytes (run_mem sys w) (bufs s) i = Some D" using D(2) b(2) by (simp add: frame_bytes_def)
  have "run_laws sys maps fds" using sys by (simp add: tool_system_def)
  from write_pgm_run [OF this, of "pgm_width img" "pgm_height img" D dup path w] obtain r w' where
    w': "vpipe_write_pgm (run_fs sys) dup path D (pgm_width img) (pgm_height img) w = Some (r, w')" "quiet sys maps fds w w'"
    using fit b(3) D(3) by auto
  note k = keeps_quiet [OF pre w'(2)]
  show "\<exists>go s' w'. fixture_dump sys dup path img bufs i (s, w) = Some (go, s', w') \<and>
      (if go then keeps sys maps fds M F rm rf P (s', w') else keeps sys maps fds M F rm rf R (s', w'))"
    using fb w'(1) k keeps_mono [OF k, of R] P by (simp add: fixture_dump_def)
qed

section \<open>The benchmark\<close>

definition fixture_maps :: "fixture_state \<Rightarrow> (nat \<times> nat) multiset" where
  "fixture_maps s = mapped (fx_cap s) + sum_list (map heap_maps (fx_out s))"

definition fixture_fds :: "fixture_state \<Rightarrow> int multiset" where
  "fixture_fds s = owned (fx_fd s) + sum_list (map (\<lambda>b. owned (fb_fd b)) (fx_out s))"

definition fixture_ok :: "nat \<Rightarrow> fixture_state \<Rightarrow> bool" where
  "fixture_ok frame s \<longleftrightarrow> length (fx_out s) = 2 \<and> (\<forall>b\<in>set (fx_out s). heap_ok b) \<and> bufs_ok 2 frame 2 (fx_cap s)"

definition fixture_fresh :: "nat \<Rightarrow> fixture_state \<Rightarrow> bool" where
  "fixture_fresh frame s \<longleftrightarrow> fixture_ok frame s \<and> mapped (fx_cap s) = {#} \<and> fx_out s = replicate 2 no_dmabuf"

text \<open>The first \<open>k\<close> buffers of the heap are allocated.\<close>

definition fixture_filled :: "nat \<Rightarrow> vpipe_pgm_image \<Rightarrow> nat \<Rightarrow> fixture_state \<Rightarrow> bool" where
  "fixture_filled frame img k s \<longleftrightarrow> fixture_ok frame s \<and> bufs_ready 2 (fx_cap s) \<and> fx_sizeimage s \<noteq> 0 \<and> pgm_size img \<le> fx_sizeimage s \<and>
     (\<forall>i<2. k \<le> i \<longrightarrow> fx_out s ! i = no_dmabuf)"

definition fixture_ready :: "nat \<Rightarrow> fixture_state \<Rightarrow> bool" where
  "fixture_ready frame s \<longleftrightarrow> fixture_ok frame s \<and> bufs_ready 2 (fx_cap s)"

lemma fixture_weaken:
  "fixture_fresh frame s \<Longrightarrow> fixture_ok frame s" "fixture_filled frame img k s \<Longrightarrow> fixture_ok frame s" "fixture_ready frame s \<Longrightarrow> fixture_ok frame s"
  "fixture_filled frame img k s \<Longrightarrow> fixture_ready frame s"
  by (simp_all add: fixture_fresh_def fixture_filled_def fixture_ready_def)

lemma pixels_fit: "length (fixture_pixels img) \<le> pgm_size img"
  by (simp add: fixture_pixels_def split: option.split)

lemma fixture_alloc_ends:
  assumes sys: "tool_system sys maps fds 2 frame" and i: "i < 2"
  shows "ends (keeps sys maps fds M F fixture_maps fixture_fds (fixture_filled frame img i)) (fixture_alloc sys heap img i)
    (keeps sys maps fds M F fixture_maps fixture_fds (fixture_filled frame img (Suc i))) (keeps sys maps fds M F fixture_maps fixture_fds (fixture_ok frame))"
proof (rule endsI)
  fix s w assume "keeps sys maps fds M F fixture_maps fixture_fds (fixture_filled frame img i) (s, w)"
  then have p: "mem_valid sys maps w" "maps w = M + fixture_maps s" "fds w = F + fixture_fds s" "fixture_filled frame img i s" by (simp_all add: keeps_def)
  then have s: "length (fx_out s) = 2" "fx_out s ! i = no_dmabuf" "fx_sizeimage s \<noteq> 0" "length (fixture_pixels img) \<le> fx_sizeimage s"
    using i pixels_fit [of img] by (auto simp: fixture_filled_def fixture_ok_def)
  have "fb_addr (fx_out s ! i) = Map_Failed" using s(2) by (simp add: no_dmabuf_def)
  from heap_buffer_run [OF sys p(1) s(4,3) this, of heap] obtain full b w' where
    b: "heap_buffer sys heap (fx_sizeimage s) (fixture_pixels img) (fx_out s ! i) w = Some (full, b, w')" "maps w' = maps w + heap_maps b"
      "fds w' = fds w + owned (fb_fd b)" "mem_valid sys maps w'" "heap_ok b" by metis
  let ?s = "s\<lparr>fx_out := (fx_out s)[i := b]\<rparr>"
  have acc: "fixture_maps ?s = fixture_maps s + heap_maps b" "fixture_fds ?s = fixture_fds s + owned (fb_fd b)"
    using sum_list_update_mset [of i "fx_out s" heap_maps b] sum_list_update_mset [of i "fx_out s" "\<lambda>b. owned (fb_fd b)" b] s(1,2) i
    by (simp_all add: fixture_maps_def fixture_fds_def)
  have "fixture_filled frame img (Suc i) ?s" using p(4) b(5) s(1)
    by (auto simp: fixture_filled_def fixture_ok_def dest!: set_update_subset_insert [THEN subsetD])
  then show "\<exists>go s' w'. fixture_alloc sys heap img i (s, w) = Some (go, s', w') \<and>
      (if go then keeps sys maps fds M F fixture_maps fixture_fds (fixture_filled frame img (Suc i)) (s', w')
       else keeps sys maps fds M F fixture_maps fixture_fds (fixture_ok frame) (s', w'))"
    using b p s(1) i acc fixture_weaken(2) by (simp add: fixture_alloc_def keeps_def union_assoc)
qed

lemma fixture_frame_ends:
  assumes sys: "tool_system sys maps fds 2 frame" and fit: "unat (pgm_width img) * unat (pgm_height img) \<le> frame"
  shows "ends (keeps sys maps fds M F fixture_maps fixture_fds (fixture_ready frame)) (fixture_frame sys dup csv out_path algo img i)
    (keeps sys maps fds M F fixture_maps fixture_fds (fixture_ready frame)) (keeps sys maps fds M F fixture_maps fixture_fds (fixture_ok frame))"
proof -
  let ?A = "keeps sys maps fds M F fixture_maps fixture_fds (fixture_ready frame)" and ?R = "keeps sys maps fds M F fixture_maps fixture_fds (fixture_ok frame)"
  have q: "ends ?A (call (\<lambda>s. qbuf sys (fx_fd s) (b s))) ?A ?R" for b by (rule common_steps(4) [OF sys]) (erule fixture_weaken)
  have row: "ends ?A (tool_row sys csv r) ?A ?R" for r by (rule common_steps(8) [OF sys]) (erule fixture_weaken)
  have submit: "ends ?A (fixture_submit sys img j) ?A ?R" if j: "j < 2" for j
  proof (rule ends_local)
    fix s w assume "?A (s, w)"
    then show "fixture_submit sys img j (s, w) = call (\<lambda>s. qbuf sys (fx_fd s) ((zero_buf V4L2_BUF_TYPE_VIDEO_OUTPUT V4L2_MEMORY_DMABUF (of_nat j))
        \<lparr>ub_fd := fb_fd (fx_out s ! j), ub_bytesused := of_nat (pgm_size img), ub_length := of_nat (fb_length (fx_out s ! j))\<rparr>)) (s, w)"
      using j by (simp add: fixture_submit_def queue_dmabuf_def keeps_def fixture_ready_def fixture_ok_def)
  qed (rule q)
  have "ends ?A (fixture_dump sys dup path img fx_cap j) ?A ?R" if "j < 2" for path j
    by (rule ends_dump [OF sys fit _ that]) (simp add: fixture_ready_def fixture_ok_def fixture_maps_def)
  then have dump: "ends ?A (case out_path of None \<Rightarrow> block [] | Some path \<Rightarrow> if i = 0 then fixture_dump sys dup path img fx_cap j else block []) ?A ?R"
    if "j < 2" for j using that ends_seq(1) [of ?A ?R] by (simp split: option.split)
  show ?thesis unfolding fixture_frame_def
    by (intro ends_now [OF sys] ends_dqbuf [OF sys] ends_guard ends_seq submit dump row q) (simp_all add: fixture_weaken)
qed

lemma bench_fixture_body_ends:
  assumes sys: "tool_system sys maps fds 2 frame" and fit: "unat (pgm_width img) * unat (pgm_height img) \<le> frame"
  shows "ends (keeps sys maps fds M F fixture_maps fixture_fds (\<lambda>s. fixture_fresh frame s \<and> fx_fd s = -1))
    (bench_fixture_body sys dup video heap csv out_path algo_name algo_id threshold frames img)
    (keeps sys maps fds M F fixture_maps fixture_fds (fixture_ready frame)) (keeps sys maps fds M F fixture_maps fixture_fds (fixture_ok frame))"
proof -
  let ?K = "keeps sys maps fds M F fixture_maps fixture_fds" and ?sized = "\<lambda>s. fixture_fresh frame s \<and> fx_sizeimage s \<noteq> 0"
  let ?fits = "\<lambda>s. ?sized s \<and> pgm_size img \<le> fx_sizeimage s"
  let ?Z = "?K (fixture_fresh frame)" and ?A = "?K (fixture_ready frame)" and ?R = "?K (fixture_ok frame)"
  note defs = fixture_maps_def fixture_fds_def fixture_fresh_def fixture_ready_def fixture_ok_def
  have 1: "ends (?K (\<lambda>s. fixture_fresh frame s \<and> fx_fd s = -1)) (open_into sys video (\<lambda>f s. s\<lparr>fx_fd := f\<rparr>)) ?Z ?R"
    by (rule ends_open [OF sys]) (simp_all add: defs owned_def)
  have 2: "ends ?Z (call (\<lambda>s. vpipe_set_format sys (fx_fd s) type wd ht V4L2_PIX_FMT_GREY)) ?Z ?R" for type wd ht
    by (rule common_steps(5) [OF sys]) (erule fixture_weaken)
  have 3: "ends ?Z (sizeimage_into sys fx_fd V4L2_BUF_TYPE_VIDEO_OUTPUT (\<lambda>n s. s\<lparr>fx_sizeimage := n\<rparr>)) ?Z ?R"
    by (rule ends_sizeimage [OF sys]) (simp add: defs)
  have 4: "ends ?Z (check (\<lambda>s. fx_sizeimage s \<noteq> 0)) (?K ?sized) ?R" by (rule ends_keeps_check) (simp_all add: fixture_weaken)
  have 5: "ends (?K ?sized) (check (\<lambda>s. pgm_size img \<le> fx_sizeimage s)) (?K ?fits) ?R" by (rule ends_keeps_check) (auto intro: fixture_weaken)
  have 6: "ends (?K ?fits) (fetch (\<lambda>s. request_bufs sys (fx_fd s) 2 V4L2_BUF_TYPE_VIDEO_OUTPUT V4L2_MEMORY_DMABUF) (\<lambda>_. block [])) (?K ?fits) ?R"
    by (rule ends_fetch_any, rule quietly_calls [OF sys], erule conjE, erule conjE, erule fixture_weaken, rule ends_seq(1))
  have 7: "ends (?K ?fits) (request_into sys 2 V4L2_BUF_TYPE_VIDEO_CAPTURE fx_fd fx_cap (\<lambda>b s. s\<lparr>fx_cap := b\<rparr>)) (?K (fixture_filled frame img 0)) ?R"
    by (rule ends_request [OF sys, where N = 2]) (simp_all add: defs fixture_filled_def)
  have 8: "ends (?K (fixture_filled frame img 0)) (each (fixture_alloc sys heap img) [0..<2]) ?A ?R"
    using ends_each [of 0 2 "\<lambda>k. ?K (fixture_filled frame img k)" "fixture_alloc sys heap img" ?R] fixture_alloc_ends [OF sys]
    by (auto elim!: ends_conseq intro: keeps_mono fixture_weaken)
  have 9: "ends ?A (call (\<lambda>s. set_ctrl sys (fx_fd s) cid v)) ?A ?R" for cid v by (rule common_steps(2) [OF sys]) (erule fixture_weaken)
  have 10: "ends ?A (tool_csv sys dup csv fixture_header) ?A ?R" by (rule common_steps(7) [OF sys]) (erule fixture_weaken)
  have 11: "ends ?A (each (\<lambda>i. call (\<lambda>s. vpipe_queue_mmap_buffer sys (fx_fd s) V4L2_BUF_TYPE_VIDEO_CAPTURE V4L2_MEMORY_MMAP (of_nat i) (-1))) [0..<2]) ?A ?R"
    by (rule ends_loop, rule common_steps(3) [OF sys]) (erule fixture_weaken)
  have 12: "ends ?A (call (\<lambda>s. stream_on sys (fx_fd s) type)) ?A ?R" for type by (rule common_steps(6) [OF sys]) (erule fixture_weaken)
  have 13: "ends ?A (assign (\<lambda>s. s\<lparr>fx_cap_streaming := True\<rparr>)) ?A ?R" "ends ?A (assign (\<lambda>s. s\<lparr>fx_out_streaming := True\<rparr>)) ?A ?R"
    by (rule ends_keeps_assign, simp add: defs)+
  have 14: "ends ?A (each (fixture_frame sys dup csv out_path algo_name img) [0..<frames]) ?A ?R"
    by (rule ends_loop) (rule fixture_frame_ends [OF sys fit])
  show ?thesis unfolding bench_fixture_body_def of_nat_numeral
    by (rule ends_block(2) [OF 1 ends_block(2) [OF 2 ends_block(2) [OF 2 ends_block(2) [OF 3 ends_block(2) [OF 4 ends_block(2) [OF 5 ends_block(2) [OF 6
      ends_block(2) [OF 7 ends_block(2) [OF 8 ends_block(2) [OF 9 ends_block(2) [OF 9 ends_block(2) [OF 10 ends_block(2) [OF 11 ends_block(2) [OF 12
      ends_block(2) [OF 13(1) ends_block(2) [OF 12 ends_block(2) [OF 13(2) ends_block(2) [OF 14 ends_block(1)]]]]]]]]]]]]]]]]]])
qed

lemma heap_release_run:
  assumes sys: "tool_system sys maps fds depth frame" and ok: "heap_ok b" and valid: "mem_valid sys maps w"
  shows "maps (heap_release sys b w) = maps w - heap_maps b" "fds (heap_release sys b w) = fds w - owned (fb_fd b)" "mem_valid sys maps (heap_release sys b w)"
  using ok munmap_run [OF sys valid] close_fd_run [OF sys] valid
  by (auto simp: heap_release_def heap_maps_def heap_ok_def split: uaddr.split)

lemma heap_release_all:
  assumes sys: "tool_system sys maps fds depth frame" and ok: "\<forall>b\<in>set bs. heap_ok b" and valid: "mem_valid sys maps w"
  shows "\<exists>w'. foreach (\<lambda>i w. if length bs \<le> i then None else Some (heap_release sys (bs ! i) w)) [0..<length bs] w = Some w' \<and>
    maps w' = maps w - sum_list (map heap_maps bs) \<and> fds w' = fds w - sum_list (map (\<lambda>b. owned (fb_fd b)) bs) \<and> mem_valid sys maps w'"
proof -
  let ?I = "\<lambda>k v. maps v = maps w - sum_list (map heap_maps (take k bs)) \<and> fds v = fds w - sum_list (map (\<lambda>b. owned (fb_fd b)) (take k bs)) \<and> mem_valid sys maps v"
  have "\<exists>w'. foreach (\<lambda>i w. if length bs \<le> i then None else Some (heap_release sys (bs ! i) w)) [0..<length bs] w = Some w' \<and> ?I (length bs) w'"
  proof (rule foreach_upt [where I = ?I])
    fix k v assume k: "k < length bs" and v: "?I k v"
    then show "\<exists>v'. (if length bs \<le> k then None else Some (heap_release sys (bs ! k) v)) = Some v' \<and> ?I (Suc k) v'"
      using heap_release_run [OF sys, of "bs ! k" v] ok by (simp add: take_Suc_conv_app_nth)
  qed (use valid in simp_all)
  then show ?thesis by simp
qed

lemma bench_fixture_cleanup_run:
  assumes sys: "tool_system sys maps fds depth frame" and k: "keeps sys maps fds M F fixture_maps fixture_fds (fixture_ok frame) (s, v)"
  shows "\<exists>w'. bench_fixture_cleanup sys s v = Some w' \<and> maps w' = M \<and> fds w' = F"
proof -
  have p: "mem_valid sys maps v" "maps v = M + mapped (fx_cap s) + sum_list (map heap_maps (fx_out s))"
    "fds v = F + owned (fx_fd s) + sum_list (map (\<lambda>b. owned (fb_fd b)) (fx_out s))"
    "length (fx_out s) = 2" "\<forall>b\<in>set (fx_out s). heap_ok b" "bufs_ok 2 frame 2 (fx_cap s)"
    using k by (simp_all add: keeps_def fixture_maps_def fixture_fds_def fixture_ok_def ac_simps)
  obtain v1 v2 where 1: "stream_off sys (0 \<le> fx_fd s \<and> fx_out_streaming s) (fx_fd s) V4L2_BUF_TYPE_VIDEO_OUTPUT v = Some v1"
    "stream_off sys (0 \<le> fx_fd s \<and> fx_cap_streaming s) (fx_fd s) V4L2_BUF_TYPE_VIDEO_CAPTURE v1 = Some v2"
    "maps v2 = maps v" "fds v2 = fds v" "mem_valid sys maps v2"
    by (rule streams_off [OF sys p(1)])
  from heap_release_all [OF sys p(5) 1(5)] obtain v3 where
    2: "foreach (\<lambda>i w. if length (fx_out s) \<le> i then None else Some (heap_release sys (fx_out s ! i) w)) [0..<2] v2 = Some v3"
    "maps v3 = maps v2 - sum_list (map heap_maps (fx_out s))" "fds v3 = fds v2 - sum_list (map (\<lambda>b. owned (fb_fd b)) (fx_out s))" "mem_valid sys maps v3"
    unfolding p(4) by blast
  obtain v4 where 3: "vpipe_unmap_buffers sys (fx_cap s) 2 v3 = Some v4" "maps v4 = maps v3 - mapped (fx_cap s)" "fds v4 = fds v3"
    by (rule unmap_run [OF sys p(6) 2(4)])
  show ?thesis unfolding bench_fixture_cleanup_def 1(1) bind.simps 1(2) 2(1) 3(1) using 1 2 3 p close_fd_run [OF sys] by simp
qed

section \<open>The feeder\<close>

definition feed_maps :: "feed_state \<Rightarrow> (nat \<times> nat) multiset" where
  "feed_maps s = mapped (fe_cap s) + heap_maps (fe_buf s)"

definition feed_fds :: "feed_state \<Rightarrow> int multiset" where
  "feed_fds s = owned (fe_fd s) + owned (fb_fd (fe_buf s))"

definition feed_fresh :: "feed_state \<Rightarrow> bool" where
  "feed_fresh s \<longleftrightarrow> length (fe_cap s) = 2 \<and> (\<forall>i<2. unmapped_buffer (fe_cap s ! i)) \<and> fe_buf s = no_dmabuf"

definition feed_mapped :: "nat \<Rightarrow> feed_state \<Rightarrow> bool" where
  "feed_mapped frame s \<longleftrightarrow> bufs_ok 2 frame 2 (fe_cap s) \<and> bufs_ready 2 (fe_cap s) \<and> 0 \<le> fe_fd s"

definition feed_ready :: "nat \<Rightarrow> feed_state \<Rightarrow> bool" where
  "feed_ready frame s \<longleftrightarrow> feed_mapped frame s \<and> heap_full (fe_sizeimage s) (fe_buf s)"

lemma feed_request_ends:
  assumes sys: "tool_system sys maps fds 2 frame"
  shows "ends (keeps sys maps fds M F feed_maps feed_fds (\<lambda>s. feed_fresh s \<and> 0 \<le> fe_fd s \<and> P (fe_sizeimage s)))
    (request_into sys 2 V4L2_BUF_TYPE_VIDEO_CAPTURE fe_fd fe_cap (\<lambda>b s. s\<lparr>fe_cap := b\<rparr>))
    (keeps sys maps fds M F feed_maps feed_fds (\<lambda>s. feed_mapped frame s \<and> fe_buf s = no_dmabuf \<and> P (fe_sizeimage s)))
    (keeps sys maps fds M F feed_maps feed_fds (\<lambda>_. True))"
proof (rule endsI)
  fix s w assume "keeps sys maps fds M F feed_maps feed_fds (\<lambda>s. feed_fresh s \<and> 0 \<le> fe_fd s \<and> P (fe_sizeimage s)) (s, w)"
  then have p: "mem_valid sys maps w" "maps w = M + feed_maps s" "fds w = F + feed_fds s" "length (fe_cap s) = 2"
    "\<forall>i<length (fe_cap s). unmapped_buffer (fe_cap s ! i)" "fe_buf s = no_dmabuf" "0 \<le> fe_fd s" "P (fe_sizeimage s)" by (simp_all add: keeps_def feed_fresh_def)
  have none: "mapped (fe_cap s) = {#}" using p(5) by (intro mapped_none) (auto simp: in_set_conv_nth)
  obtain res bufs' w' where "vpipe_request_mmap_buffers sys (fe_fd s) V4L2_BUF_TYPE_VIDEO_CAPTURE 2 (fe_cap s) w = Some (res, bufs', w')"
    "maps w' = maps w + mapped bufs'" "fds w' = fds w" "mem_valid sys maps w'" "res \<noteq> None \<longrightarrow> bufs_ok 2 frame 2 bufs' \<and> bufs_ready 2 bufs'"
    using request_ready [OF sys _ _ p(5,1), of "fe_fd s" V4L2_BUF_TYPE_VIDEO_CAPTURE] p(4) by auto
  then show "\<exists>go s' w'. request_into sys 2 V4L2_BUF_TYPE_VIDEO_CAPTURE fe_fd fe_cap (\<lambda>b s. s\<lparr>fe_cap := b\<rparr>) (s, w) = Some (go, s', w') \<and>
      (if go then keeps sys maps fds M F feed_maps feed_fds (\<lambda>s. feed_mapped frame s \<and> fe_buf s = no_dmabuf \<and> P (fe_sizeimage s)) (s', w')
       else keeps sys maps fds M F feed_maps feed_fds (\<lambda>_. True) (s', w'))"
    using p none by (auto simp: request_into_def keeps_def feed_maps_def feed_fds_def feed_mapped_def)
qed

lemma feed_alloc_ends:
  assumes sys: "tool_system sys maps fds 2 frame"
  shows "ends (keeps sys maps fds M F feed_maps feed_fds (\<lambda>s. feed_mapped frame s \<and> fe_buf s = no_dmabuf \<and> fe_sizeimage s \<noteq> 0 \<and> pgm_size img \<le> fe_sizeimage s))
    (feed_alloc sys heap img) (keeps sys maps fds M F feed_maps feed_fds (feed_ready frame)) (keeps sys maps fds M F feed_maps feed_fds (\<lambda>_. True))"
proof (rule endsI)
  fix s w assume "keeps sys maps fds M F feed_maps feed_fds (\<lambda>s. feed_mapped frame s \<and> fe_buf s = no_dmabuf \<and> fe_sizeimage s \<noteq> 0 \<and> pgm_size img \<le> fe_sizeimage s) (s, w)"
  then have p: "mem_valid sys maps w" "maps w = M + feed_maps s" "fds w = F + feed_fds s" "feed_mapped frame s" "fe_buf s = no_dmabuf"
    "fe_sizeimage s \<noteq> 0" "length (fixture_pixels img) \<le> fe_sizeimage s" using pixels_fit [of img] by (auto simp: keeps_def)
  have "fb_addr (fe_buf s) = Map_Failed" using p(5) by (simp add: no_dmabuf_def)
  from heap_buffer_run [OF sys p(1,7,6) this, of heap] obtain full b w' where
    b: "heap_buffer sys heap (fe_sizeimage s) (fixture_pixels img) (fe_buf s) w = Some (full, b, w')" "maps w' = maps w + heap_maps b"
      "fds w' = fds w + owned (fb_fd b)" "mem_valid sys maps w'" "full \<longrightarrow> heap_full (fe_sizeimage s) b" by metis
  then show "\<exists>go s' w'. feed_alloc sys heap img (s, w) = Some (go, s', w') \<and>
      (if go then keeps sys maps fds M F feed_maps feed_fds (feed_ready frame) (s', w') else keeps sys maps fds M F feed_maps feed_fds (\<lambda>_. True) (s', w'))"
    using p by (auto simp: feed_alloc_def keeps_def feed_maps_def feed_fds_def feed_ready_def feed_mapped_def)
qed

lemma fixture_feed_body_ends:
  assumes sys: "tool_system sys maps fds 2 frame" and law: "index_law sys 2" and fit: "unat (pgm_width img) * unat (pgm_height img) \<le> frame"
  shows "ends (keeps sys maps fds M F feed_maps feed_fds (\<lambda>s. feed_fresh s \<and> fe_fd s = -1)) (fixture_feed_body sys dup video heap out_path img)
    (keeps sys maps fds M F feed_maps feed_fds (feed_ready frame)) (keeps sys maps fds M F feed_maps feed_fds (\<lambda>_. True))"
proof -
  let ?K = "keeps sys maps fds M F feed_maps feed_fds" and ?open = "\<lambda>s. feed_fresh s \<and> 0 \<le> fe_fd s"
  let ?fits = "\<lambda>s. feed_fresh s \<and> 0 \<le> fe_fd s \<and> fe_sizeimage s \<noteq> 0 \<and> pgm_size img \<le> fe_sizeimage s"
  let ?Z = "?K ?open" and ?A = "?K (feed_ready frame)" and ?R = "?K (\<lambda>_. True)"
  have 1: "ends (?K (\<lambda>s. feed_fresh s \<and> fe_fd s = -1)) (open_into sys video (\<lambda>f s. s\<lparr>fe_fd := f\<rparr>)) ?Z ?R"
    by (rule ends_open [OF sys]) (simp_all add: feed_maps_def feed_fds_def feed_fresh_def owned_def)
  have 2: "ends ?Z (call (\<lambda>s. vpipe_set_format sys (fe_fd s) type wd ht V4L2_PIX_FMT_GREY)) ?Z ?R" for type wd ht
    by (rule common_steps(5) [OF sys]) simp
  have 3: "ends ?Z (sizeimage_into sys fe_fd V4L2_BUF_TYPE_VIDEO_OUTPUT (\<lambda>n s. s\<lparr>fe_sizeimage := n\<rparr>)) ?Z ?R"
    by (rule ends_sizeimage [OF sys]) (simp add: feed_maps_def feed_fds_def feed_fresh_def)
  have 4: "ends ?Z (check (\<lambda>s. fe_sizeimage s \<noteq> 0)) (?K (\<lambda>s. ?open s \<and> fe_sizeimage s \<noteq> 0)) ?R" by (rule ends_keeps_check) simp_all
  have 5: "ends (?K (\<lambda>s. ?open s \<and> fe_sizeimage s \<noteq> 0)) (check (\<lambda>s. pgm_size img \<le> fe_sizeimage s)) (?K ?fits) ?R"
    by (rule ends_keeps_check) simp_all
  have 6: "ends (?K ?fits) (fetch (\<lambda>s. request_bufs sys (fe_fd s) 2 V4L2_BUF_TYPE_VIDEO_OUTPUT V4L2_MEMORY_DMABUF) (\<lambda>_. block [])) (?K ?fits) ?R"
    by (rule ends_fetch_any, rule quietly_calls [OF sys], rule TrueI, rule ends_seq(1))
  note 7 = feed_request_ends [OF sys, where P = "\<lambda>n. n \<noteq> 0 \<and> pgm_size img \<le> n"]
  note calls = common_steps [OF sys, where P = "feed_ready frame" and R = "\<lambda>_. True", OF TrueI]
  have 8: "ends ?A (fetch (\<lambda>s. dqbuf sys (fe_fd s) V4L2_BUF_TYPE_VIDEO_CAPTURE V4L2_MEMORY_MMAP) (\<lambda>cap_dq.
      fixture_dump sys dup out_path img fe_cap (unat (ub_index cap_dq)))) ?A ?R"
  proof (rule ends_fetch [where A = "\<lambda>b. ub_index b < 2"])
    fix b :: v4l2_buffer assume "ub_index b < 2"
    then have "unat (ub_index b) < 2" by (simp add: word_less_nat_alt)
    then show "ends ?A (fixture_dump sys dup out_path img fe_cap (unat (ub_index b))) ?A ?R"
      by (intro ends_dump [OF sys fit]) (simp_all add: feed_ready_def feed_mapped_def feed_maps_def)
  qed (simp_all add: quietly_dqbuf_index [OF sys law])
  show ?thesis unfolding fixture_feed_body_def queue_dmabuf_def of_nat_numeral
    by (rule ends_block(2) [OF 1 ends_block(2) [OF 2 ends_block(2) [OF 2 ends_block(2) [OF 3 ends_block(2) [OF 4 ends_block(2) [OF 5 ends_block(2) [OF 6
      ends_block(2) [OF 7 ends_block(2) [OF feed_alloc_ends [OF sys] ends_block(2) [OF calls(2) ends_block(2) [OF calls(2) ends_block(2) [OF calls(3)
      ends_block(2) [OF calls(4) ends_block(2) [OF calls(6) ends_block(2) [OF calls(6) ends_block(2) [OF 8 ends_block(1)]]]]]]]]]]]]]]]])
qed

section \<open>Properties\<close>

lemma sum_none: "sum_list (replicate n {#}) = {#}"
  by (induction n) simp_all

lemma bench_fixture_total:
  assumes sys: "tool_system sys maps fds 2 frame" and valid: "mem_valid sys maps w"
    and fit: "\<And>img. vpipe_read_pgm (files w (arg_or 3 argv ''tests/fixtures/ramp.pgm'')) room = (True, img) \<Longrightarrow> unat (pgm_width img) * unat (pgm_height img) \<le> frame"
  shows "\<exists>status w'. bench_fixture_main sys files room dup argv w = Some (status, w') \<and> status \<le> 1 \<and> maps w' = maps w \<and> fds w' = fds w"
proof -
  have init: "fixture_maps fixture_init = {#}" "fixture_fds fixture_init = {#}" "fixture_fresh frame fixture_init \<and> fx_fd fixture_init = -1"
    using no_bufs_ok(1) [of 2 frame] no_bufs_ok(2) [of 2]
    by (simp_all add: fixture_init_def fixture_maps_def fixture_fds_def fixture_fresh_def fixture_ok_def owned_def no_dmabuf_def heap_maps_def heap_ok_def sum_none)
  have "\<exists>status w'. run_program (bench_fixture_body sys dup video heap csv out_path algo_name algo_id threshold frames img) (bench_fixture_cleanup sys) fixture_init w =
      Some (status, w') \<and> status \<le> 1 \<and> maps w' = maps w \<and> fds w' = fds w"
    if "unat (pgm_width img) * unat (pgm_height img) \<le> frame" for video heap csv out_path algo_name algo_id threshold frames img
    by (rule run_program_total [OF bench_fixture_body_ends [OF sys that] valid init fixture_weaken(3) bench_fixture_cleanup_run [OF sys]])
  then show ?thesis unfolding bench_fixture_main_def Let_def using fit by (simp split: option.split prod.split bool.split)
qed

lemma fixture_feed_total:
  assumes sys: "tool_system sys maps fds 2 frame" and law: "index_law sys 2" and valid: "mem_valid sys maps w"
    and fit: "\<And>img. vpipe_read_pgm (files w (arg_or 3 argv ''tests/fixtures/ramp.pgm'')) room = (True, img) \<Longrightarrow> unat (pgm_width img) * unat (pgm_height img) \<le> frame"
  shows "\<exists>status w'. fixture_feed_main sys files room dup argv w = Some (status, w') \<and> status \<le> 1 \<and> (status = 0 \<longrightarrow> maps w' = maps w \<and> fds w' = fds w)"
proof -
  obtain b img where r: "vpipe_read_pgm (files w (arg_or 3 argv ''tests/fixtures/ramp.pgm'')) room = (b, img)" by fastforce
  show ?thesis
  proof (cases b)
    case False
    then show ?thesis using r by (simp add: fixture_feed_main_def)
  next
    case True
    then have r': "vpipe_read_pgm (files w (arg_or 3 argv ''tests/fixtures/ramp.pgm'')) room = (True, img)" using r by simp
    let ?K = "keeps sys maps fds (maps w) (fds w) feed_maps feed_fds"
    let ?body = "fixture_feed_body sys dup (arg_or 1 argv ''/dev/video0'') (arg_or 2 argv ''/dev/dma_heap/system'') (arg_or 4 argv ''bench/ramp.kernel.pgm'') img"
    have "mapped (fe_cap feed_init) = {#}" by (rule mapped_none) (simp add: feed_init_def unmapped_buffer_def)
    then have "?K (\<lambda>s. feed_fresh s \<and> fe_fd s = -1) (feed_init, w)"
      using valid by (auto simp: keeps_def feed_init_def feed_fresh_def feed_maps_def feed_fds_def owned_def unmapped_buffer_def no_dmabuf_def heap_maps_def)
    from endsD [OF fixture_feed_body_ends [OF sys law fit [OF r'], where dup = dup and video = "arg_or 1 argv ''/dev/video0''" and heap = "arg_or 2 argv ''/dev/dma_heap/system''" and out_path = "arg_or 4 argv ''bench/ramp.kernel.pgm''"] this] obtain go s v where
      x: "?body (feed_init, w) = Some (go, s, v)" "go \<longrightarrow> ?K (feed_ready frame) (s, v)" by (metis (no_types))
    show ?thesis
    proof (cases go)
      case False
      then show ?thesis using r' x(1) by (simp add: fixture_feed_main_def)
    next
      case go: True
      then obtain a where k: "mem_valid sys maps v" "maps v = maps w + mapped (fe_cap s) + {#(a, fe_sizeimage s)#}" "fb_addr (fe_buf s) = Addr a"
        "fds v = fds w + {#fe_fd s#} + {#fb_fd (fe_buf s)#}" "bufs_ok 2 frame 2 (fe_cap s)"
        using x(2) by (auto simp: keeps_def feed_ready_def feed_mapped_def heap_full_def feed_maps_def feed_fds_def heap_maps_def owned_def)
      let ?v1 = "sys_munmap sys a (fe_sizeimage s) v" and ?v2 = "sys_close sys (fb_fd (fe_buf s)) (sys_munmap sys a (fe_sizeimage s) v)"
      have laws: "sys_laws sys maps" "run_laws sys maps fds" using sys by (simp_all add: tool_system_def)
      have close: "maps (sys_close sys f u) = maps u" for f u using laws(1) unfolding sys_laws_def by blast
      have v2: "mem_valid sys maps ?v2" "maps ?v2 = maps w + mapped (fe_cap s)" "fds ?v2 = fds w + {#fe_fd s#}"
        using munmap_run [OF sys k(1), of a "fe_sizeimage s"] run_laws_mmap(4,6) [OF laws(2)] close k(2,4) by simp_all
      obtain v3 where v3: "vpipe_unmap_buffers sys (fe_cap s) 2 ?v2 = Some v3" "maps v3 = maps ?v2 - mapped (fe_cap s)" "fds v3 = fds ?v2"
        by (rule unmap_run [OF sys k(5) v2(1)])
      have "maps (sys_close sys (fe_fd s) v3) = maps w" "fds (sys_close sys (fe_fd s) v3) = fds w"
        using v2 v3 close run_laws_mmap(4) [OF laws(2)] by simp_all
      then show ?thesis using r' x(1) go k(3) v3(1) by (simp add: fixture_feed_main_def)
    qed
  qed
qed

text \<open>
  C39.  The fixture tools.  For an image that a captured buffer can hold, neither program faults:
  the image is copied inside the memory obtained from the heap, and the processed frame is read
  inside the captured buffer.  Both return 0 or 1 for every command line.  The benchmark has
  then released every mapping and descriptor, the heap's included, on every path; the feeder has
  when it succeeds.
\<close>

theorem fixture_tools_total:
  assumes "tool_system sys maps fds 2 frame" "index_law sys 2" "mem_valid sys maps w"
    and "\<And>img. vpipe_read_pgm (files w (arg_or 3 argv ''tests/fixtures/ramp.pgm'')) room = (True, img) \<Longrightarrow> unat (pgm_width img) * unat (pgm_height img) \<le> frame"
  shows "(\<exists>status w'. bench_fixture_main sys files room dup argv w = Some (status, w') \<and> status \<le> 1 \<and> maps w' = maps w \<and> fds w' = fds w) \<and>
    (\<exists>status w'. fixture_feed_main sys files room dup argv w = Some (status, w') \<and> status \<le> 1 \<and> (status = 0 \<longrightarrow> maps w' = maps w \<and> fds w' = fds w))"
  by (rule conjI [OF bench_fixture_total [OF assms(1,3,4)] fixture_feed_total [OF assms]])

lemma demo_index: "index_law (demo_tool_sys x) 2"
  by (simp add: index_law_def demo_tool_sys_def demo_ioctl_def)

theorem fixture_tools_total_witness:
  "\<exists>status w'. bench_fixture_main demo_run (\<lambda>_ _. Some (pgm_header 2 1 @ [7, 9])) True True [''vpipe-bench-fixture''] demo_process = Some (status, w') \<and>
     status \<le> 1 \<and> rw_maps w' = {#} \<and> rw_fds w' = {#0, 1, 2#}"
proof -
  let ?files = "\<lambda>_ _. Some (pgm_header 2 1 @ [7, 9])"
  have sys: "tool_system demo_run rw_maps rw_fds 2 (HEIGHT * WIDTH)" by (rule demo_system) simp
  have "vpipe_read_pgm (Some (pgm_header 2 1 @ [7, 9])) True = (True, \<lparr>pgm_width = 2, pgm_height = 1, pgm_pixels = Some [7, 9], pgm_size = 2\<rparr>)"
    using read_header [of 2 1 "[7, 9]"] by simp
  then have fit: "vpipe_read_pgm (?files demo_process (arg_or 3 [''vpipe-bench-fixture''] ''tests/fixtures/ramp.pgm'')) True = (True, img) \<Longrightarrow>
      unat (pgm_width img) * unat (pgm_height img) \<le> HEIGHT * WIDTH" for img
    by (auto simp: HEIGHT_def WIDTH_def)
  have p: "rw_maps demo_process = {#}" "rw_fds demo_process = {#0, 1, 2#}" by (simp_all add: demo_process_def)
  show ?thesis using fixture_tools_total [OF sys demo_index demo_process_valid, where files = ?files and argv = "[''vpipe-bench-fixture'']" and room = True and dup = True] fit
    unfolding p by blast
qed

end
