(* ===== verification/User_Capture_Userptr.thy ===== *)
theory User_Capture_Userptr
  imports User_Capture_Direct
begin

text \<open>
  user/vpipe-capture-userptr.c: frames are captured into anonymous memory of the process, which
  is replaced by a fresh mapping before each buffer is queued again, unless told otherwise.
\<close>

unbundle bit_operations_syntax

record userptr_state =
  up_fd :: int
  up_bufs :: "uaddr list"
  up_lens :: "nat list"
  up_queued_at :: "u64 list"
  up_qbuf_minflt :: "s64 list"
  up_streaming :: bool
  up_sizeimage :: nat
  up_aligned_len :: u64

definition userptr_init :: userptr_state where
  "userptr_init = \<lparr>up_fd = -1, up_bufs = replicate 4 Null, up_lens = replicate 4 0, up_queued_at = replicate 4 0,
     up_qbuf_minflt = replicate 4 0, up_streaming = False, up_sizeimage = 0, up_aligned_len = 0\<rparr>"

definition minor_faults_now :: "('w, 'x) capture_sys_scheme \<Rightarrow> 'w \<Rightarrow> s64 \<times> 'w" where
  "minor_faults_now sys w = (case cap_minflt sys w of (None, w) \<Rightarrow> (-1, w) | (Some n, w) \<Rightarrow> (n, w))"

definition page_size :: "('w, 'x) capture_sys_scheme \<Rightarrow> u64" where
  "page_size sys = (if cap_page_size sys \<le> 0 then 4096 else of_int (cap_page_size sys))"

definition align_len :: "u64 \<Rightarrow> nat \<Rightarrow> u64" where
  "align_len page n = (of_nat n + page - 1) AND NOT (page - 1)"

text \<open>The loop that maps the buffers.\<close>

definition userptr_map :: "('w, 'x) capture_sys_scheme \<Rightarrow> nat \<Rightarrow> (userptr_state, 'w) step" where
  "userptr_map sys i = (\<lambda>(s, w). case sys_mmap sys (unat (up_aligned_len s)) (-1) 0 w of
       (None, w) \<Rightarrow> Some (False, s, w)
     | (Some a, w) \<Rightarrow>
         if length (up_bufs s) \<le> i \<or> length (up_lens s) \<le> i then None
         else Some (True, s\<lparr>up_bufs := (up_bufs s)[i := Addr a], up_lens := (up_lens s)[i := unat (up_aligned_len s)]\<rparr>, w))"

text \<open>A pointer as a number; the null pointer is zero.\<close>

definition addr_number :: "uaddr \<Rightarrow> nat" where
  "addr_number a = (case a of Addr n \<Rightarrow> n | _ \<Rightarrow> 0)"

definition userptr_buf :: "userptr_state \<Rightarrow> nat \<Rightarrow> v4l2_buffer" where
  "userptr_buf s i = (zero_buf V4L2_BUF_TYPE_VIDEO_CAPTURE V4L2_MEMORY_USERPTR (of_nat i))
     \<lparr>ub_userptr := addr_number (up_bufs s ! i), ub_length := ucast (up_aligned_len s)\<rparr>"

definition userptr_stamp :: "('w, 'x) capture_sys_scheme \<Rightarrow> nat \<Rightarrow> (userptr_state, 'w) step" where
  "userptr_stamp sys i = (\<lambda>(s, w). case now_ns sys w of (t, w) \<Rightarrow>
     if length (up_queued_at s) \<le> i then None else Some (True, s\<lparr>up_queued_at := (up_queued_at s)[i := t]\<rparr>, w))"

definition userptr_faults :: "nat \<Rightarrow> s64 \<Rightarrow> (userptr_state, 'w) step" where
  "userptr_faults i n = (\<lambda>(s, w).
     if length (up_qbuf_minflt s) \<le> i then None else Some (True, s\<lparr>up_qbuf_minflt := (up_qbuf_minflt s)[i := n]\<rparr>, w))"

definition userptr_queue :: "('w, 'x) capture_sys_scheme \<Rightarrow> nat \<Rightarrow> (userptr_state, 'w) step" where
  "userptr_queue sys i = block
     [userptr_stamp sys i, call (\<lambda>s. qbuf sys (up_fd s) (userptr_buf s i)), userptr_faults i 0]"

text \<open>Replacing the memory of a buffer: the new mapping is made before the old one goes.\<close>

definition userptr_reset :: "('w, 'x) capture_sys_scheme \<Rightarrow> nat \<Rightarrow> (userptr_state, 'w) step" where
  "userptr_reset sys i = (\<lambda>(s, w).
     if length (up_bufs s) \<le> i \<or> length (up_lens s) \<le> i then None
     else let old = up_bufs s ! i; old_len = up_lens s ! i; n = unat (up_aligned_len s) in
       case sys_mmap sys n (-1) 0 w of
         (None, w) \<Rightarrow> Some (False, s, w)
       | (Some a, w) \<Rightarrow>
           if Addr a = old then Some (False, s, sys_munmap sys a n w)
           else let s = s\<lparr>up_bufs := (up_bufs s)[i := Addr a], up_lens := (up_lens s)[i := n]\<rparr> in
             case cap_munmap sys (addr_number old) old_len w of (unmapped, w) \<Rightarrow> Some (unmapped, s, w))"

definition userptr_requeue :: "('w, 'x) capture_sys_scheme \<Rightarrow> nat \<Rightarrow> (userptr_state, 'w) step" where
  "userptr_requeue sys i =
     fetch (\<lambda>s w. case minor_faults_now sys w of (n, w) \<Rightarrow> Some (Some n, w)) (\<lambda>before. block
       [userptr_stamp sys i,
        call (\<lambda>s. qbuf sys (up_fd s) (userptr_buf s i)),
        fetch (\<lambda>s w. case minor_faults_now sys w of (n, w) \<Rightarrow> Some (Some n, w)) (\<lambda>after.
          userptr_faults i (if before <s 0 \<or> after <s 0 then -1 else after - before))])"

definition userptr_row :: "('w, 'x) run_sys_scheme \<Rightarrow> string \<Rightarrow> nat \<Rightarrow> v4l2_buffer \<Rightarrow> u64 \<Rightarrow> (userptr_state, 'w) step" where
  "userptr_row sys csv i b dq_ns = (\<lambda>(s, w). let j = unat (ub_index b) in
     if length (up_queued_at s) \<le> j \<or> length (up_qbuf_minflt s) \<le> j then None
     else tool_row sys csv (csv_join ([dec i, dec j, dec (unat (up_queued_at s ! j)), dec (unat dq_ns)] @ stamp_fields b @
       [dec_int (sint (up_qbuf_minflt s ! j))])) (s, w))"

definition userptr_frame :: "('w, 'x) capture_sys_scheme \<Rightarrow> bool \<Rightarrow> string \<Rightarrow> nat \<Rightarrow> (userptr_state, 'w) step" where
  "userptr_frame sys reset csv i =
     fetch (\<lambda>s. dqbuf sys (up_fd s) V4L2_BUF_TYPE_VIDEO_CAPTURE V4L2_MEMORY_USERPTR) (\<lambda>b. let idx = unat (ub_index b) in block
       [check (\<lambda>_. idx < 4),
        check (\<lambda>s. ub_userptr b = addr_number (up_bufs s ! idx)),
        tool_now sys (\<lambda>dq_ns. block
          [userptr_row sys csv i b dq_ns,
           if reset then userptr_reset sys idx else block [],
           userptr_requeue sys idx])])"

definition userptr_header :: string where
  "userptr_header = ''frame,buffer_index,enqueue_monotonic_ns,dequeue_monotonic_ns,v4l2_'' @
     ''timestamp_sec,v4l2_timestamp_usec,sequence,bytesused,minor_faults_'' @ ''delta''"

definition capture_userptr_body :: "('w, 'x) capture_sys_scheme \<Rightarrow> bool \<Rightarrow> bool \<Rightarrow> string \<Rightarrow> string \<Rightarrow> nat \<Rightarrow> (userptr_state, 'w) step" where
  "capture_userptr_body sys dup reset video csv frames = block
     [open_into sys video (\<lambda>f s. s\<lparr>up_fd := f\<rparr>),
      call (\<lambda>s. vpipe_set_format sys (up_fd s) V4L2_BUF_TYPE_VIDEO_CAPTURE 640 480 V4L2_PIX_FMT_GREY),
      sizeimage_into sys up_fd V4L2_BUF_TYPE_VIDEO_CAPTURE (\<lambda>n s. s\<lparr>up_sizeimage := n\<rparr>),
      check (\<lambda>s. up_sizeimage s \<noteq> 0),
      assign (\<lambda>s. s\<lparr>up_aligned_len := align_len (page_size sys) (up_sizeimage s)\<rparr>),
      check (\<lambda>s. up_aligned_len s \<le> 0xFFFFFFFF),
      each (userptr_map sys) [0..<4],
      fetch (\<lambda>s. request_bufs sys (up_fd s) 4 V4L2_BUF_TYPE_VIDEO_CAPTURE V4L2_MEMORY_USERPTR) (\<lambda>k. check (\<lambda>_. 4 \<le> k)),
      tool_csv sys dup csv userptr_header,
      each (userptr_queue sys) [0..<4],
      call (\<lambda>s. stream_on sys (up_fd s) V4L2_BUF_TYPE_VIDEO_CAPTURE),
      assign (\<lambda>s. s\<lparr>up_streaming := True\<rparr>),
      each (userptr_frame sys reset csv) [0..<frames]]"

text \<open>The label \<open>cleanup\<close>: the loop over the buffers, then the descriptor.\<close>

definition userptr_unmap :: "('w, 'x) capture_sys_scheme \<Rightarrow> userptr_state \<Rightarrow> nat \<Rightarrow> 'w \<Rightarrow> 'w option" where
  "userptr_unmap sys s i w =
     (if length (up_bufs s) \<le> i \<or> length (up_lens s) \<le> i then None
      else Some (case up_bufs s ! i of Addr a \<Rightarrow> sys_munmap sys a (up_lens s ! i) w | _ \<Rightarrow> w))"

definition capture_userptr_cleanup :: "('w, 'x) capture_sys_scheme \<Rightarrow> userptr_state \<Rightarrow> 'w \<Rightarrow> 'w option" where
  "capture_userptr_cleanup sys s w = do {
     w \<leftarrow> stream_off sys (0 \<le> up_fd s \<and> up_streaming s) (up_fd s) V4L2_BUF_TYPE_VIDEO_CAPTURE w;
     w \<leftarrow> foreach (userptr_unmap sys s) [0..<4] w;
     Some (close_fd sys (up_fd s) w) }"

definition capture_userptr_main :: "('w, 'x) capture_sys_scheme \<Rightarrow> bool \<Rightarrow> string list \<Rightarrow> 'w \<Rightarrow> (nat \<times> 'w) option" where
  "capture_userptr_main sys dup argv w =
     (let video = arg_or 1 argv ''/dev/video0''; csv = arg_or 2 argv ''bench/userptr.csv'';
          mode = (if length argv > 4 then (if argv ! 4 = ''reset'' then Some True else if argv ! 4 = ''noreset'' then Some False else None)
                  else Some True)
      in case (frames_arg 3 argv 600, mode) of
           (Some frames, Some reset) \<Rightarrow> run_program (capture_userptr_body sys dup reset video csv frames) (capture_userptr_cleanup sys) userptr_init w
         | _ \<Rightarrow> Some (1, w))"

section \<open>Memory of the process\<close>

definition slot_maps :: "uaddr \<times> nat \<Rightarrow> (nat \<times> nat) multiset" where
  "slot_maps = (\<lambda>(b, n). case b of Addr a \<Rightarrow> {#(a, n)#} | _ \<Rightarrow> {#})"

definition userptr_maps :: "userptr_state \<Rightarrow> (nat \<times> nat) multiset" where
  "userptr_maps s = sum_list (map slot_maps (zip (up_bufs s) (up_lens s)))"

definition userptr_fds :: "userptr_state \<Rightarrow> int multiset" where
  "userptr_fds s = owned (up_fd s)"

definition userptr_ok :: "userptr_state \<Rightarrow> bool" where
  "userptr_ok s \<longleftrightarrow> length (up_bufs s) = 4 \<and> length (up_lens s) = 4 \<and> length (up_queued_at s) = 4 \<and> length (up_qbuf_minflt s) = 4"

text \<open>The first \<open>k\<close> slots hold memory of the aligned length, the others none.\<close>

definition userptr_filled :: "nat \<Rightarrow> userptr_state \<Rightarrow> bool" where
  "userptr_filled k s \<longleftrightarrow> userptr_ok s \<and>
     (\<forall>i<4. if i < k then (\<exists>a. up_bufs s ! i = Addr a) \<and> up_lens s ! i = unat (up_aligned_len s) else up_bufs s ! i = Null)"

lemma userptr_filled_ok: "userptr_filled k s \<Longrightarrow> userptr_ok s"
  by (simp add: userptr_filled_def)

text \<open>A slot gets other memory.\<close>

lemma userptr_slot:
  assumes "userptr_ok s" "i < 4"
  shows "userptr_maps (s\<lparr>up_bufs := (up_bufs s)[i := Addr a], up_lens := (up_lens s)[i := n]\<rparr>) + slot_maps (up_bufs s ! i, up_lens s ! i) =
    add_mset (a, n) (userptr_maps s)"
  using sum_list_update_mset [of i "zip (up_bufs s) (up_lens s)" slot_maps "(Addr a, n)"] assms
  by (simp add: userptr_maps_def userptr_ok_def update_zip slot_maps_def)

lemma userptr_filled_slot:
  assumes "userptr_filled k s" "i < 4" "i \<le> k"
  shows "userptr_filled (max k (Suc i)) (s\<lparr>up_bufs := (up_bufs s)[i := Addr a], up_lens := (up_lens s)[i := unat (up_aligned_len s)]\<rparr>)"
  using assms by (auto simp: userptr_filled_def userptr_ok_def nth_list_update max_def split: if_splits)

lemma userptr_map_ends:
  assumes sys: "tool_system sys maps fds depth frame" and i: "i < 4"
  shows "ends (keeps sys maps fds M F userptr_maps userptr_fds (userptr_filled i)) (userptr_map sys i)
    (keeps sys maps fds M F userptr_maps userptr_fds (userptr_filled (Suc i))) (keeps sys maps fds M F userptr_maps userptr_fds userptr_ok)"
proof (rule endsI)
  fix s w assume "keeps sys maps fds M F userptr_maps userptr_fds (userptr_filled i) (s, w)"
  then have p: "mem_valid sys maps w" "maps w = M + userptr_maps s" "fds w = F + userptr_fds s" "userptr_filled i s" by (simp_all add: keeps_def)
  let ?n = "unat (up_aligned_len s)"
  obtain r w1 where m: "sys_mmap sys ?n (-1) 0 w = (r, w1)" by fastforce
  note w1 = mmap_run [OF sys p(1) m]
  have ok: "userptr_ok s" "up_bufs s ! i = Null" using p(4) i by (auto simp: userptr_filled_def)
  show "\<exists>go s' w'. userptr_map sys i (s, w) = Some (go, s', w') \<and>
      (if go then keeps sys maps fds M F userptr_maps userptr_fds (userptr_filled (Suc i)) (s', w')
       else keeps sys maps fds M F userptr_maps userptr_fds userptr_ok (s', w'))"
  proof (cases r)
    case None
    then show ?thesis using m w1 p ok by (simp add: userptr_map_def keeps_def)
  next
    case (Some a)
    let ?s = "s\<lparr>up_bufs := (up_bufs s)[i := Addr a], up_lens := (up_lens s)[i := ?n]\<rparr>"
    have "userptr_map sys i (s, w) = Some (True, ?s, w1)" using m Some ok(1) i by (simp add: userptr_map_def userptr_ok_def)
    moreover have "userptr_maps ?s = add_mset (a, ?n) (userptr_maps s)"
      using userptr_slot [OF ok(1) i, where a = a and n = ?n] ok(2) by (simp add: slot_maps_def)
    moreover have "userptr_filled (Suc i) ?s" using userptr_filled_slot [OF p(4) i, of a] by simp
    ultimately show ?thesis using w1 p Some by (simp add: keeps_def userptr_fds_def)
  qed
qed

lemma userptr_reset_ends:
  assumes sys: "tool_system sys maps fds depth frame" and cl: "capture_laws sys maps fds" and i: "i < 4"
  shows "ends (keeps sys maps fds M F userptr_maps userptr_fds (userptr_filled 4)) (userptr_reset sys i)
    (keeps sys maps fds M F userptr_maps userptr_fds (userptr_filled 4)) (keeps sys maps fds M F userptr_maps userptr_fds userptr_ok)"
proof (rule endsI)
  fix s w assume pre: "keeps sys maps fds M F userptr_maps userptr_fds (userptr_filled 4) (s, w)"
  then have p: "mem_valid sys maps w" "maps w = M + userptr_maps s" "fds w = F + userptr_fds s" "userptr_filled 4 s" by (simp_all add: keeps_def)
  let ?n = "unat (up_aligned_len s)"
  obtain r w1 where m: "sys_mmap sys ?n (-1) 0 w = (r, w1)" by fastforce
  note w1 = mmap_run [OF sys p(1) m]
  note un = munmap_run [OF sys w1(3)]
  have cap: "cap_munmap sys a k w1 = (True, sys_munmap sys a k w1)" for a k using cl unfolding capture_laws_def by blast
  obtain a0 where ok: "userptr_ok s" "up_bufs s ! i = Addr a0" "up_lens s ! i = ?n" using p(4) i by (auto simp: userptr_filled_def)
  have len: "\<not> length (up_bufs s) \<le> i" "\<not> length (up_lens s) \<le> i" using ok(1) i by (simp_all add: userptr_ok_def)
  show "\<exists>go s' w'. userptr_reset sys i (s, w) = Some (go, s', w') \<and>
      (if go then keeps sys maps fds M F userptr_maps userptr_fds (userptr_filled 4) (s', w')
       else keeps sys maps fds M F userptr_maps userptr_fds userptr_ok (s', w'))"
  proof (cases r)
    case None
    then show ?thesis using m w1 p ok(1) len by (simp add: userptr_reset_def keeps_def)
  next
    case (Some a)
    let ?s = "s\<lparr>up_bufs := (up_bufs s)[i := Addr a], up_lens := (up_lens s)[i := ?n]\<rparr>"
    show ?thesis
    proof (cases "a = a0")
      case True
      then have "userptr_reset sys i (s, w) = Some (False, s, sys_munmap sys a ?n w1)" using m Some ok(2) len by (simp add: userptr_reset_def)
      then show ?thesis using w1 un p ok(1) Some by (simp add: keeps_def)
    next
      case False
      then have "userptr_reset sys i (s, w) = Some (True, ?s, sys_munmap sys a0 ?n w1)"
        using m Some ok(2,3) len cap by (simp add: userptr_reset_def addr_number_def Let_def)
      moreover have "userptr_maps ?s + {#(a0, ?n)#} = add_mset (a, ?n) (userptr_maps s)"
        using userptr_slot [OF ok(1) i, where a = a and n = ?n] ok(2,3) by (simp add: slot_maps_def)
      then have "add_mset (a, ?n) (M + userptr_maps s) - {#(a0, ?n)#} = M + userptr_maps ?s"
        by (metis add_diff_cancel_right' union_assoc union_mset_add_mset_right)
      moreover have "userptr_filled 4 ?s" using userptr_filled_slot [OF p(4) i, of a] i by (simp add: max_absorb1)
      ultimately show ?thesis using w1 un p Some by (simp add: keeps_def userptr_fds_def)
    qed
  qed
qed

lemma userptr_quietly:
  assumes "capture_laws sys maps fds"
  shows "quietly sys maps fds (\<lambda>w. case minor_faults_now sys w of (n, w) \<Rightarrow> Some (Some n, w)) (\<lambda>_. True)"
proof (rule quietlyI)
  fix w
  have "quiet sys maps fds w (snd (cap_minflt sys w))" using assms unfolding capture_laws_def by blast
  then have "quiet sys maps fds w (snd (minor_faults_now sys w))" by (simp add: minor_faults_now_def case_prod_unfold split: option.split)
  then show "\<exists>r w'. (case minor_faults_now sys w of (n, w) \<Rightarrow> Some (Some n, w)) = Some (r, w') \<and> quiet sys maps fds w w'"
    by (simp add: case_prod_unfold)
qed

text \<open>Steps that change only the notes about a slot.\<close>

lemma userptr_notes:
  assumes sys: "tool_system sys maps fds depth frame" and i: "i < 4"
  shows "ends (keeps sys maps fds M F userptr_maps userptr_fds (userptr_filled 4)) (userptr_stamp sys i)
      (keeps sys maps fds M F userptr_maps userptr_fds (userptr_filled 4)) R"
    and "ends (keeps sys maps fds M F userptr_maps userptr_fds (userptr_filled 4)) (userptr_faults i n)
      (keeps sys maps fds M F userptr_maps userptr_fds (userptr_filled 4)) R"
proof -
  have note1: "userptr_filled 4 (s\<lparr>up_queued_at := (up_queued_at s)[i := t]\<rparr>)" "userptr_filled 4 (s\<lparr>up_qbuf_minflt := (up_qbuf_minflt s)[i := c]\<rparr>)"
    if "userptr_filled 4 s" for s t c using that by (simp_all add: userptr_filled_def userptr_ok_def)
  have len: "\<not> length (up_queued_at s) \<le> i" "\<not> length (up_qbuf_minflt s) \<le> i" if "userptr_filled 4 s" for s
    using that i by (simp_all add: userptr_filled_def userptr_ok_def)
  show "ends (keeps sys maps fds M F userptr_maps userptr_fds (userptr_filled 4)) (userptr_stamp sys i)
      (keeps sys maps fds M F userptr_maps userptr_fds (userptr_filled 4)) R"
  proof (rule endsI)
    fix s w assume pre: "keeps sys maps fds M F userptr_maps userptr_fds (userptr_filled 4) (s, w)"
    obtain t w' where t: "now_ns sys w = (t, w')" by fastforce
    have "run_laws sys maps fds" using sys by (simp add: tool_system_def)
    from keeps_quiet [OF pre now_quiet [OF this t]] show "\<exists>go s' w'. userptr_stamp sys i (s, w) = Some (go, s', w') \<and>
        (if go then keeps sys maps fds M F userptr_maps userptr_fds (userptr_filled 4) (s', w') else R (s', w'))"
      using t len note1 by (simp add: userptr_stamp_def keeps_def userptr_maps_def userptr_fds_def)
  qed
  show "ends (keeps sys maps fds M F userptr_maps userptr_fds (userptr_filled 4)) (userptr_faults i n)
      (keeps sys maps fds M F userptr_maps userptr_fds (userptr_filled 4)) R"
    by (rule endsI) (simp add: userptr_faults_def keeps_def userptr_maps_def userptr_fds_def len note1)
qed

lemma userptr_row_ends:
  assumes sys: "tool_system sys maps fds depth frame" and j: "unat (ub_index b) < 4"
  shows "ends (keeps sys maps fds M F userptr_maps userptr_fds (userptr_filled 4)) (userptr_row sys csv i b t)
    (keeps sys maps fds M F userptr_maps userptr_fds (userptr_filled 4)) (keeps sys maps fds M F userptr_maps userptr_fds userptr_ok)"
proof (rule ends_local)
  fix s w assume "keeps sys maps fds M F userptr_maps userptr_fds (userptr_filled 4) (s, w)"
  then show "userptr_row sys csv i b t (s, w) = tool_row sys csv (csv_join ([dec i, dec (unat (ub_index b)),
      dec (unat (up_queued_at s ! unat (ub_index b))), dec (unat t)] @ stamp_fields b @ [dec_int (sint (up_qbuf_minflt s ! unat (ub_index b)))])) (s, w)"
    using j by (simp add: userptr_row_def Let_def keeps_def userptr_filled_def userptr_ok_def)
qed (rule common_steps(8) [OF sys], erule userptr_filled_ok)

lemma userptr_frame_ends:
  assumes sys: "tool_system sys maps fds depth frame" and cl: "capture_laws sys maps fds"
  shows "ends (keeps sys maps fds M F userptr_maps userptr_fds (userptr_filled 4)) (userptr_frame sys reset csv i)
    (keeps sys maps fds M F userptr_maps userptr_fds (userptr_filled 4)) (keeps sys maps fds M F userptr_maps userptr_fds userptr_ok)"
proof -
  let ?A = "keeps sys maps fds M F userptr_maps userptr_fds (userptr_filled 4)" and ?R = "keeps sys maps fds M F userptr_maps userptr_fds userptr_ok"
  have chk: "ends ?A (check b) ?A ?R" for b by (rule ends_keeps_check) (simp_all add: userptr_filled_ok)
  have q: "ends ?A (call (\<lambda>s. qbuf sys (up_fd s) (b s))) ?A ?R" for b by (rule common_steps(4) [OF sys]) (erule userptr_filled_ok)
  have faults: "ends ?A (fetch (\<lambda>s w. case minor_faults_now sys w of (n, w) \<Rightarrow> Some (Some n, w)) k) ?A ?R" if "\<And>n. ends ?A (k n) ?A ?R" for k
    by (rule ends_fetch_any) (simp_all add: userptr_quietly [OF cl] userptr_filled_ok that)
  have req: "ends ?A (userptr_requeue sys j) ?A ?R" if "j < 4" for j
    unfolding userptr_requeue_def by (rule faults ends_seq userptr_notes [OF sys that] q)+
  have rst: "ends ?A (if reset then userptr_reset sys j else block []) ?A ?R" if "j < 4" for j
    by (cases reset) (simp_all only: if_True if_False userptr_reset_ends [OF sys cl that] ends_seq(1))
  have turn: "ends ?A (block [check (\<lambda>s. ub_userptr b = addr_number (up_bufs s ! unat (ub_index b))), tool_now sys (\<lambda>t. block
      [userptr_row sys csv i b t, if reset then userptr_reset sys (unat (ub_index b)) else block [], userptr_requeue sys (unat (ub_index b))])]) ?A ?R"
    if "unat (ub_index b) < 4" for b
    by (rule ends_seq chk ends_now [OF sys] userptr_row_ends [OF sys that] rst [OF that] req [OF that] | erule userptr_filled_ok)+
  show ?thesis unfolding userptr_frame_def Let_def
    by (rule ends_dqbuf [OF sys], erule userptr_filled_ok, rule ends_guard, erule turn, erule userptr_filled_ok)
qed

lemma userptr_queue_ends:
  assumes sys: "tool_system sys maps fds depth frame" and i: "i < 4"
  shows "ends (keeps sys maps fds M F userptr_maps userptr_fds (userptr_filled 4)) (userptr_queue sys i)
    (keeps sys maps fds M F userptr_maps userptr_fds (userptr_filled 4)) (keeps sys maps fds M F userptr_maps userptr_fds userptr_ok)"
  unfolding userptr_queue_def by (rule ends_seq userptr_notes [OF sys i] common_steps(4) [OF sys] | erule userptr_filled_ok)+

lemma userptr_body_ends:
  assumes sys: "tool_system sys maps fds depth frame" and cl: "capture_laws sys maps fds"
  shows "ends (keeps sys maps fds M F userptr_maps userptr_fds (\<lambda>s. userptr_filled 0 s \<and> up_fd s = -1)) (capture_userptr_body sys dup reset video csv frames)
    (keeps sys maps fds M F userptr_maps userptr_fds (userptr_filled 4)) (keeps sys maps fds M F userptr_maps userptr_fds userptr_ok)"
proof -
  let ?K = "keeps sys maps fds M F userptr_maps userptr_fds"
  let ?Z = "?K (userptr_filled 0)" and ?A = "?K (userptr_filled 4)" and ?R = "?K userptr_ok"
  have other: "userptr_filled k (s\<lparr>up_fd := f\<rparr>) = userptr_filled k s" "userptr_filled 0 (s\<lparr>up_sizeimage := z\<rparr>) = userptr_filled 0 s"
    "userptr_filled 0 (s\<lparr>up_aligned_len := l\<rparr>) = userptr_filled 0 s" "userptr_filled 4 (s\<lparr>up_streaming := t\<rparr>) = userptr_filled 4 s" for k s f z l t
    by (simp_all add: userptr_filled_def userptr_ok_def)
  have chk: "ends (?K (userptr_filled k)) (check b) (?K (userptr_filled k)) ?R" for b k by (rule ends_keeps_check) (simp_all add: userptr_filled_ok)
  have 1: "ends (?K (\<lambda>s. userptr_filled 0 s \<and> up_fd s = -1)) (open_into sys video (\<lambda>f s. s\<lparr>up_fd := f\<rparr>)) ?Z ?R"
    by (rule ends_open [OF sys]) (auto simp: other userptr_maps_def userptr_fds_def owned_def intro: userptr_filled_ok)
  have 2: "ends ?Z (call (\<lambda>s. vpipe_set_format sys (up_fd s) V4L2_BUF_TYPE_VIDEO_CAPTURE 640 480 V4L2_PIX_FMT_GREY)) ?Z ?R"
    by (rule common_steps(5) [OF sys]) (erule userptr_filled_ok)
  have 3: "ends ?Z (sizeimage_into sys up_fd V4L2_BUF_TYPE_VIDEO_CAPTURE (\<lambda>n s. s\<lparr>up_sizeimage := n\<rparr>)) ?Z ?R"
    by (rule ends_sizeimage [OF sys]) (simp add: other userptr_maps_def userptr_fds_def)
  have 4: "ends ?Z (assign (\<lambda>s. s\<lparr>up_aligned_len := align_len (page_size sys) (up_sizeimage s)\<rparr>)) ?Z ?R"
    by (rule ends_keeps_assign) (simp add: other userptr_maps_def userptr_fds_def)
  have 5: "ends ?Z (each (userptr_map sys) [0..<4]) ?A ?R"
    by (rule ends_each [of 0 4 "\<lambda>k. ?K (userptr_filled k)"]) (simp_all add: userptr_map_ends [OF sys])
  have 6: "ends ?A (fetch (\<lambda>s. request_bufs sys (up_fd s) 4 V4L2_BUF_TYPE_VIDEO_CAPTURE V4L2_MEMORY_USERPTR) (\<lambda>k. check (\<lambda>_. 4 \<le> k))) ?A ?R"
    by (rule ends_fetch_any) (simp_all add: quietly_calls [OF sys] userptr_filled_ok chk)
  have 7: "ends ?A (tool_csv sys dup csv userptr_header) ?A ?R" by (rule common_steps(7) [OF sys]) (erule userptr_filled_ok)
  have 8: "ends ?A (each (userptr_queue sys) [0..<4]) ?A ?R" by (rule ends_loop) (rule userptr_queue_ends [OF sys])
  have 9: "ends ?A (call (\<lambda>s. stream_on sys (up_fd s) V4L2_BUF_TYPE_VIDEO_CAPTURE)) ?A ?R" by (rule common_steps(6) [OF sys]) (erule userptr_filled_ok)
  have 10: "ends ?A (assign (\<lambda>s. s\<lparr>up_streaming := True\<rparr>)) ?A ?R" by (rule ends_keeps_assign) (simp add: other userptr_maps_def userptr_fds_def)
  have 11: "ends ?A (each (userptr_frame sys reset csv) [0..<frames]) ?A ?R" by (rule ends_loop) (rule userptr_frame_ends [OF sys cl])
  show ?thesis unfolding capture_userptr_body_def
    by (rule ends_block(2) [OF 1 ends_block(2) [OF 2 ends_block(2) [OF 3 ends_block(2) [OF chk ends_block(2) [OF 4 ends_block(2) [OF chk
      ends_block(2) [OF 5 ends_block(2) [OF 6 ends_block(2) [OF 7 ends_block(2) [OF 8 ends_block(2) [OF 9 ends_block(2) [OF 10 ends_block(2) [OF 11
      ends_block(1)]]]]]]]]]]]]])
qed

lemma userptr_unmap_all:
  assumes sys: "tool_system sys maps fds depth frame" and ok: "userptr_ok s" and valid: "mem_valid sys maps w"
  shows "\<exists>w'. foreach (userptr_unmap sys s) [0..<4] w = Some w' \<and> maps w' = maps w - userptr_maps s \<and> fds w' = fds w \<and> mem_valid sys maps w'"
proof -
  let ?z = "zip (up_bufs s) (up_lens s)"
  have len: "length ?z = 4" using ok by (simp add: userptr_ok_def)
  have "\<exists>w'. foreach (userptr_unmap sys s) [0..<4] w = Some w' \<and> maps w' = maps w - sum_list (map slot_maps (take 4 ?z)) \<and> fds w' = fds w \<and> mem_valid sys maps w'"
  proof (rule foreach_upt [where I = "\<lambda>k v. maps v = maps w - sum_list (map slot_maps (take k ?z)) \<and> fds v = fds w \<and> mem_valid sys maps v"])
    fix k v assume k: "k < 4" and v: "maps v = maps w - sum_list (map slot_maps (take k ?z)) \<and> fds v = fds w \<and> mem_valid sys maps v"
    have "userptr_unmap sys s k v = Some (case up_bufs s ! k of Addr a \<Rightarrow> sys_munmap sys a (up_lens s ! k) v | _ \<Rightarrow> v)"
      using k ok by (simp add: userptr_unmap_def userptr_ok_def)
    moreover have "take (Suc k) ?z = take k ?z @ [(up_bufs s ! k, up_lens s ! k)]"
      using k ok len by (subst take_Suc_conv_app_nth) (simp_all add: userptr_ok_def)
    ultimately show "\<exists>v'. userptr_unmap sys s k v = Some v' \<and> maps v' = maps w - sum_list (map slot_maps (take (Suc k) ?z)) \<and> fds v' = fds w \<and> mem_valid sys maps v'"
      using v munmap_run [OF sys, of v] by (simp add: slot_maps_def split: uaddr.split)
  qed (use valid in simp_all)
  then show ?thesis using len by (simp add: userptr_maps_def)
qed

lemma capture_userptr_total:
  assumes sys: "tool_system sys maps fds depth frame" and cl: "capture_laws sys maps fds" and valid: "mem_valid sys maps w"
  shows "\<exists>status w'. capture_userptr_main sys dup argv w = Some (status, w') \<and> status \<le> 1 \<and> maps w' = maps w \<and> fds w' = fds w"
proof -
  have clean: "\<exists>w'. capture_userptr_cleanup sys s v = Some w' \<and> maps w' = maps w \<and> fds w' = fds w"
    if k: "keeps sys maps fds (maps w) (fds w) userptr_maps userptr_fds userptr_ok (s, v)" for s v
  proof -
    have p: "mem_valid sys maps v" "maps v = maps w + userptr_maps s" "fds v = fds w + owned (up_fd s)" "userptr_ok s"
      using k by (simp_all add: keeps_def userptr_fds_def)
    obtain v1 where 1: "stream_off sys (0 \<le> up_fd s \<and> up_streaming s) (up_fd s) V4L2_BUF_TYPE_VIDEO_CAPTURE v = Some v1" "quiet sys maps fds v v1"
      using stream_off_quiet [OF sys] by blast
    then have v1: "mem_valid sys maps v1" "maps v1 = maps v" "fds v1 = fds v" using p(1) by (simp_all add: quiet_def)
    obtain v2 where 2: "foreach (userptr_unmap sys s) [0..<4] v1 = Some v2" "maps v2 = maps v1 - userptr_maps s" "fds v2 = fds v1"
      using userptr_unmap_all [OF sys p(4) v1(1)] by blast
    show ?thesis unfolding capture_userptr_cleanup_def 1(1) 2(1) bind.simps using 2 v1 p close_fd_run [OF sys] by simp
  qed
  have init: "userptr_maps userptr_init = {#}" "userptr_fds userptr_init = {#}"
    by (simp_all add: userptr_maps_def userptr_fds_def userptr_init_def owned_def slot_maps_def numeral_eq_Suc)
  have init3: "userptr_filled 0 userptr_init \<and> up_fd userptr_init = -1" by (simp add: userptr_init_def userptr_filled_def userptr_ok_def)
  have "\<exists>status w'. run_program (capture_userptr_body sys dup reset video csv frames) (capture_userptr_cleanup sys) userptr_init w = Some (status, w') \<and>
      status \<le> 1 \<and> maps w' = maps w \<and> fds w' = fds w" for reset video csv frames
    by (rule run_program_total [OF userptr_body_ends [OF sys cl] valid init init3 userptr_filled_ok clean])
  then show ?thesis unfolding capture_userptr_main_def Let_def by (simp split: option.split)
qed

section \<open>The size of the buffers\<close>

lemma and_not_mask: "unat (x AND NOT (mask k) :: 'a :: len word) = unat x - unat x mod 2 ^ k"
proof -
  have "x AND NOT (mask k) = push_bit k (drop_bit k x)" by (rule bit_word_eqI) (auto simp: bit_simps)
  moreover have "unat (push_bit k (drop_bit k x)) = push_bit k (drop_bit k (unat x))"
  proof -
    have "push_bit k (drop_bit k (unat x)) = unat x div 2 ^ k * 2 ^ k" by (simp add: push_bit_eq_mult drop_bit_eq_div)
    also have "\<dots> \<le> unat x" by simp
    also have "\<dots> < 2 ^ LENGTH('a)" by simp
    finally have "take_bit LENGTH('a) (push_bit k (drop_bit k (unat x))) = push_bit k (drop_bit k (unat x))" by (simp add: take_bit_nat_eq_self)
    moreover have "take_bit LENGTH('a) (unat x) = unat x" by (simp add: take_bit_nat_eq_self)
    ultimately show ?thesis by (simp add: unsigned_push_bit_eq unsigned_drop_bit_eq)
  qed
  ultimately show ?thesis by (simp add: push_bit_eq_mult drop_bit_eq_div minus_mod_eq_div_mult)
qed

lemma round_up:
  fixes n p :: nat
  assumes "0 < p" and m: "m = (n + p - 1) - (n + p - 1) mod p"
  shows "p dvd m" "n \<le> m" "m < n + p"
proof -
  define r where "r = (n + p - 1) mod p"
  have "r < p" "m = n + p - 1 - r" using assms by (simp_all add: r_def)
  then show "n \<le> m" "m < n + p" by linarith+
  show "p dvd m" unfolding m by (rule dvd_minus_mod)
qed

text \<open>
  C38.  The memory behind a USERPTR buffer is large enough.  For a page size that is a power of
  two, the length the program maps is the smallest multiple of the page size that holds an
  image: the rounding does not wrap around, and once the length has passed the program's check
  the length stated in a queued buffer is this number and not a truncation of it.
\<close>

theorem userptr_length:
  assumes page: "cap_page_size sys = 2 ^ k" "k < 32" and size: "up_sizeimage s < 2 ^ 32"
    and len: "up_aligned_len s = align_len (page_size sys) (up_sizeimage s)" and check: "up_aligned_len s \<le> 0xFFFFFFFF"
  shows "unat (ub_length (userptr_buf s i)) = unat (up_aligned_len s) \<and> 2 ^ k dvd unat (up_aligned_len s) \<and>
    up_sizeimage s \<le> unat (up_aligned_len s) \<and> unat (up_aligned_len s) < up_sizeimage s + 2 ^ k"
proof -
  let ?n = "up_sizeimage s" and ?l = "unat (up_aligned_len s)"
  have p: "page_size sys = (2 ^ k :: u64)" using page(1) by (simp add: page_size_def)
  have k: "(2 :: nat) ^ k \<le> 2 ^ 31" using page(2) by (intro power_increasing) simp_all
  have "unat (of_nat ?n + 2 ^ k - 1 :: u64) = ?n + 2 ^ k - 1"
  proof -
    have "(of_nat ?n + 2 ^ k - 1 :: u64) = of_nat (?n + 2 ^ k - 1)" by (subst of_nat_diff) (simp_all add: trans_le_add2)
    moreover have "?n + 2 ^ k - 1 < 2 ^ 64" using size k by simp
    ultimately show ?thesis by (simp only: unat_of_nat) simp
  qed
  then have l: "?l = (?n + 2 ^ k - 1) - (?n + 2 ^ k - 1) mod 2 ^ k"
    unfolding len align_len_def p by (simp only: and_not_mask flip: mask_eq_exp_minus_1)
  have "?l \<le> 0xFFFFFFFF" using check by (simp add: word_le_nat_alt)
  then have "unat (ub_length (userptr_buf s i)) = ?l"
    by (simp add: userptr_buf_def unsigned_ucast_eq take_bit_nat_eq_self)
  then show ?thesis using round_up [OF _ l] by simp
qed

theorem userptr_length_witness:
  "unat (ub_length (userptr_buf (userptr_init\<lparr>up_sizeimage := 307201, up_aligned_len := 311296\<rparr>) 2)) = 311296 \<and> (2 :: nat) ^ 12 dvd 311296"
proof -
  let ?sys = "demo_tool_sys \<lparr>cap_read = (\<lambda>fd n w. (Inr [], w)), cap_minflt = (\<lambda>w. (Some 0, w)), cap_munmap = (\<lambda>a n w. (True, w)), cap_page_size = 4096\<rparr>"
  let ?s = "userptr_init\<lparr>up_sizeimage := 307201, up_aligned_len := 311296\<rparr>"
  have "cap_page_size ?sys = 2 ^ 12" by (simp add: demo_tool_sys_def)
  moreover have "up_aligned_len ?s = align_len (page_size ?sys) (up_sizeimage ?s)"
    by (simp add: demo_tool_sys_def page_size_def align_len_def)
  ultimately show ?thesis using userptr_length [of ?sys 12 ?s 2] by simp
qed


definition demo_capture :: "run_world capture_sys" where
  "demo_capture = demo_tool_sys \<lparr>cap_read = (\<lambda>fd n w. (Inr (replicate n 0), w)), cap_minflt = (\<lambda>w. (Some 0, w)),
     cap_munmap = (\<lambda>a n w. (True, w\<lparr>rw_maps := rw_maps w - {#(a, n)#}\<rparr>)), cap_page_size = 4096\<rparr>"

lemma demo_capture_laws: "capture_laws demo_capture rw_maps rw_fds" "index_law demo_capture 4"
  by (simp_all add: capture_laws_def index_law_def demo_capture_def demo_tool_sys_def demo_ioctl_def)

lemma demo_capture_valid: "mem_valid demo_capture rw_maps demo_process"
  by (simp add: mem_valid_def demo_process_def)


end
