(* ===== verification/User_Unit_Test.thy ===== *)
theory User_Unit_Test
  imports User_Threshold User_Crc
begin

text \<open>
  user/vpipe-unit-test.c: every test as a function of the number of failed expectations, and
  the program, over any file system.
\<close>

unbundle bit_operations_syntax

section \<open>The tests\<close>

text \<open>\<open>EXPECT\<close>: a condition that does not hold is counted.\<close>

definition EXPECT :: "bool \<Rightarrow> u32 \<Rightarrow> u32" where
  "EXPECT cond failures = (if cond then failures else failures + 1)"

definition crc_case :: "u8 list \<times> u32 \<Rightarrow> u32 \<times> crc32_state \<Rightarrow> u32 \<times> crc32_state" where
  "crc_case = (\<lambda>(data, want) (n, st). case vpipe_crc32 data st of (crc, st) \<Rightarrow> (EXPECT (crc = want) n, st))"

definition test_crc32 :: "u32 \<times> crc32_state \<Rightarrow> u32 \<times> crc32_state" where
  "test_crc32 = fold crc_case
     [(bytes_of '''', 0), (bytes_of ''a'', 0xe8b7be43), (bytes_of ''123456789'', 0xcbf43926),
      (bytes_of ''The quick brown fox jumps over the lazy dog'', 0x414fa339)]"

text \<open>\<open>snprintf\<close> into a buffer of 256 bytes.\<close>

definition snprintf_path :: "string \<Rightarrow> string \<Rightarrow> string" where
  "snprintf_path root name = take 255 (root @ name)"

text \<open>\<open>isdir\<close>: what \<open>stat\<close> says of a path; \<open>room\<close>: whether memory can be allocated.\<close>

definition test_ensure_parent_dir :: "'s fs_api \<Rightarrow> ('s \<Rightarrow> string \<Rightarrow> bool) \<Rightarrow> bool \<Rightarrow> string \<Rightarrow> u32 \<times> 's \<Rightarrow> u32 \<times> 's" where
  "test_ensure_parent_dir api isdir room root = (\<lambda>(n, s).
     let path = snprintf_path root ''/a/b/c/file.txt'';
         (r, s) = vpipe_ensure_parent_dir api room path s; n = EXPECT r n;
         n = EXPECT (isdir s (snprintf_path root ''/a/b/c'')) n;
         (r, s) = vpipe_ensure_parent_dir api room path s; n = EXPECT r n;
         (r, s) = vpipe_ensure_parent_dir api room ''file.txt'' s
     in (EXPECT r n, s))"

definition test_pgm_roundtrip ::
    "'s fs_api \<Rightarrow> ('s \<Rightarrow> string \<rightharpoonup> u8 list) \<Rightarrow> bool \<Rightarrow> string \<Rightarrow> u32 \<times> 's \<Rightarrow> (u32 \<times> 's) option" where
  "test_pgm_roundtrip api files room root = (\<lambda>(n, s). do {
     let pixels = map (\<lambda>i. of_nat (i * 17)) [0..<16];
     let path = snprintf_path root ''/round.pgm'';
     (r, s) \<leftarrow> vpipe_write_pgm api room path pixels 4 4 s;
     let n = EXPECT r n;
     let (r, img) = vpipe_read_pgm (files s path) room;
     let n = EXPECT (pgm_size img = 16) (EXPECT (pgm_height img = 4) (EXPECT (pgm_width img = 4) (EXPECT r n)));
     same \<leftarrow> (case pgm_pixels img of None \<Rightarrow> Some False | Some px \<Rightarrow> if length px < 16 then None else Some (take 16 px = pixels));
     Some (EXPECT same n, s) })"

definition bad_dims_case ::
    "'s fs_api \<Rightarrow> ('s \<Rightarrow> string \<rightharpoonup> u8 list) \<Rightarrow> bool \<Rightarrow> string \<Rightarrow> u8 list \<Rightarrow> u32 \<times> 's \<Rightarrow> u32 \<times> 's" where
  "bad_dims_case api files room path contents = (\<lambda>(n, s). case os_fopen_w api path s of
       None \<Rightarrow> (EXPECT False n, s)
     | Some s \<Rightarrow> let s = snd (os_fwrite api path contents s) in (EXPECT (\<not> fst (vpipe_read_pgm (files s path) room)) n, s))"

definition test_pgm_rejects_bad_dims ::
    "'s fs_api \<Rightarrow> ('s \<Rightarrow> string \<rightharpoonup> u8 list) \<Rightarrow> bool \<Rightarrow> string \<Rightarrow> u32 \<times> 's \<Rightarrow> u32 \<times> 's" where
  "test_pgm_rejects_bad_dims api files room root ns =
     bad_dims_case api files room (snprintf_path root ''/huge.pgm'') (bytes_of ''P5'' @ [10] @ bytes_of ''100000 100000'' @ [10] @ bytes_of ''255'' @ [10])
       (bad_dims_case api files room (snprintf_path root ''/zero.pgm'') (bytes_of ''P5'' @ [10] @ bytes_of ''0 0'' @ [10] @ bytes_of ''255'' @ [10]) ns)"

text \<open>A threshold test: the call, then one expectation for each pixel; no pixels is a fault.\<close>

definition threshold_case :: "bool \<Rightarrow> u32 \<Rightarrow> u32 \<Rightarrow> u8 list \<Rightarrow> u8 \<Rightarrow> s32 \<Rightarrow> s32 \<Rightarrow> s32 \<Rightarrow> s32 \<Rightarrow> u8 list \<Rightarrow> u32 \<Rightarrow> u32 option" where
  "threshold_case room width height pixels threshold l t w h want n = do {
     (r, dst) \<leftarrow> vpipe_threshold_reference room
       \<lparr>pgm_width = width, pgm_height = height, pgm_pixels = Some pixels, pgm_size = length pixels\<rparr> threshold l t w h;
     px \<leftarrow> pgm_pixels dst;
     if length px < length want then None
     else Some (fold (\<lambda>i. EXPECT (px ! i = want ! i)) [0..<length want] (EXPECT r n)) }"

definition test_threshold_full :: "bool \<Rightarrow> u32 \<Rightarrow> u32 option" where
  "test_threshold_full room = threshold_case room 3 3 [0, 50, 100, 127, 128, 200, 255, 10, 250] 127 0 0 3 3 [0, 0, 0, 0, 255, 255, 255, 0, 255]"

definition test_threshold_roi_subset :: "bool \<Rightarrow> u32 \<Rightarrow> u32 option" where
  "test_threshold_roi_subset room = threshold_case room 3 3 [200, 200, 200, 200, 200, 200, 200, 200, 200] 100 1 0 1 3
     [200, 255, 200, 200, 255, 200, 200, 255, 200]"

definition test_threshold_roi_clamp :: "bool \<Rightarrow> u32 \<Rightarrow> u32 option" where
  "test_threshold_roi_clamp room = threshold_case room 2 2 [10, 200, 200, 10] 100 (-5) (-5) 1000 1000 [0, 255, 255, 0]"

definition test_threshold_invalid_roi :: "bool \<Rightarrow> u32 \<Rightarrow> u32 option" where
  "test_threshold_invalid_roi room = threshold_case room 2 2 [10, 200, 200, 10] 100 0 0 0 0 [0, 255, 255, 0]"

text \<open>\<open>root\<close>: the directory \<open>mkdtemp\<close> makes; \<open>clean\<close>: the command that removes it.\<close>

definition unit_test_main ::
    "'s fs_api \<Rightarrow> ('s \<Rightarrow> string \<Rightarrow> bool) \<Rightarrow> ('s \<Rightarrow> string \<rightharpoonup> u8 list) \<Rightarrow> (string \<Rightarrow> 's \<Rightarrow> 's) \<Rightarrow> bool \<Rightarrow> string option \<Rightarrow> 's \<Rightarrow> (nat \<times> 's) option" where
  "unit_test_main api isdir files clean room root s = (case root of None \<Rightarrow> Some (1, s)
     | Some root \<Rightarrow> do {
         let (n, st) = test_crc32 (0, crc32_state_init);
         let (n, s) = test_ensure_parent_dir api isdir room root (n, s);
         (n, s) \<leftarrow> test_pgm_roundtrip api files room root (n, s);
         let (n, s) = test_pgm_rejects_bad_dims api files room root (n, s);
         n \<leftarrow> test_threshold_full room n;
         n \<leftarrow> test_threshold_roi_subset room n;
         n \<leftarrow> test_threshold_roi_clamp room n;
         n \<leftarrow> test_threshold_invalid_roi room n;
         Some (if n \<noteq> 0 then 1 else 0, clean root s) })"

section \<open>They pass\<close>

lemma expect_true [simp]: "EXPECT True n = n"
  by (simp add: EXPECT_def)

lemma crc32_vectors:
  "NOT (crc32_bitwise (NOT 0) (bytes_of '''')) = 0"
  "NOT (crc32_bitwise (NOT 0) (bytes_of ''a'')) = 0xe8b7be43"
  "NOT (crc32_bitwise (NOT 0) (bytes_of ''123456789'')) = 0xcbf43926"
  "NOT (crc32_bitwise (NOT 0) (bytes_of ''The quick brown fox jumps over the lazy dog'')) = 0x414fa339"
  by (simp_all add: crc32_bitwise_def bytes_of_def crc_byte_def crc_bits_8 crc_bit_def)

lemma crc_case_passes:
  assumes "crc_ok st" "NOT (crc32_bitwise (NOT 0) data) = want"
  obtains st' where "crc_case (data, want) (n, st) = (n, st')" "crc_ok st'"
proof -
  obtain crc st' where c: "vpipe_crc32 data st = (crc, st')" by fastforce
  with vpipe_crc32_bitwise [OF assms(1), of data] assms(2) have "crc = want" "crc_ok st'" by simp_all
  with that c show thesis by (simp add: crc_case_def)
qed

lemma test_crc32_passes:
  assumes st: "crc_ok st"
  shows "fst (test_crc32 (n, st)) = n"
proof -
  obtain st1 where 1: "crc_case (bytes_of '''', 0) (n, st) = (n, st1)" "crc_ok st1" by (rule crc_case_passes [OF st crc32_vectors(1)])
  obtain st2 where 2: "crc_case (bytes_of ''a'', 0xe8b7be43) (n, st1) = (n, st2)" "crc_ok st2" by (rule crc_case_passes [OF 1(2) crc32_vectors(2)])
  obtain st3 where 3: "crc_case (bytes_of ''123456789'', 0xcbf43926) (n, st2) = (n, st3)" "crc_ok st3"
    by (rule crc_case_passes [OF 2(2) crc32_vectors(3)])
  obtain st4 where 4: "crc_case (bytes_of ''The quick brown fox jumps over the lazy dog'', 0x414fa339) (n, st3) = (n, st4)"
    by (rule crc_case_passes [OF 3(2) crc32_vectors(4)])
  show ?thesis unfolding test_crc32_def fold.simps comp_apply id_apply 1(1) 2(1) 3(1) 4 by simp
qed

lemma threshold_tests:
  "test_threshold_full True n = Some n" "test_threshold_roi_subset True n = Some n"
  "test_threshold_roi_clamp True n = Some n" "test_threshold_invalid_roi True n = Some n"
  by (simp_all add: test_threshold_full_def test_threshold_roi_subset_def test_threshold_roi_clamp_def test_threshold_invalid_roi_def
    threshold_case_def vpipe_threshold_reference_def reference_window_def upt_rec word_sless_alt word_sle_eq)

lemma bad_headers:
  "fst (vpipe_read_pgm (Some (bytes_of ''P5'' @ [10] @ bytes_of ''0 0'' @ [10] @ bytes_of ''255'' @ [10])) room) = False"
  "fst (vpipe_read_pgm (Some (bytes_of ''P5'' @ [10] @ bytes_of ''100000 100000'' @ [10] @ bytes_of ''255'' @ [10])) room) = False"
  by (simp_all add: vpipe_read_pgm_def fgetc_def bytes_of_def vpipe_skip_space.simps is_space_def ungetc_def scan_u32_def is_digit_def
    digits_value_def strtoul_value_def Let_def)

lemma bad_dims_passes:
  assumes fs: "fs_laws api exists files" "fs_healthy api" and bad: "fst (vpipe_read_pgm (Some contents) room) = False"
  shows "fst (bad_dims_case api files room path contents (n, s)) = n"
proof -
  obtain s1 where s1: "os_fopen_w api path s = Some s1" "files s1 = (files s)(path \<mapsto> [])" using fs_writeD(1) [OF fs] by blast
  have "files (snd (os_fwrite api path contents s1)) path = Some contents" using fs_writeD(2) [OF fs, of s1 path "[]" contents] s1(2) by simp
  then show ?thesis using s1(1) bad by (simp add: bad_dims_case_def Let_def)
qed

lemma ancestors_member: "0 < length d \<Longrightarrow> d \<in> set (ancestors (d @ ''/file.txt''))"
  by (auto simp: ancestors_def image_iff Suc_le_eq intro!: bexI [of _ "length d"])

lemma test_dirs_passes:
  assumes fs: "fs_laws api isdir files" "fs_healthy api" and root: "length root \<le> 200"
  shows "fst (test_ensure_parent_dir api isdir True root (n, s)) = n"
proof -
  have path: "snprintf_path root ''/a/b/c/file.txt'' = (root @ ''/a/b/c'') @ ''/file.txt''" "snprintf_path root ''/a/b/c'' = root @ ''/a/b/c''"
    using root by (simp_all add: snprintf_path_def)
  have ok: "fst (mkdir_all api ds s)" for ds s using mkdir_all_healthy [OF fs] by simp
  have "isdir (snd (mkdir_all api (ancestors ((root @ ''/a/b/c'') @ ''/file.txt'')) s)) (root @ ''/a/b/c'')" for s
    using mkdir_all_exists [OF fs(1) ok] ancestors_member [of "root @ ''/a/b/c''"] by simp
  then show ?thesis unfolding test_ensure_parent_dir_def path ensure_parent_dir_all Let_def
    using ok by (simp add: case_prod_unfold)
qed

lemma test_roundtrip_passes:
  assumes fs: "fs_laws api exists files" "fs_healthy api"
  shows "\<exists>s'. test_pgm_roundtrip api files True root (n, s) = Some (n, s')"
proof -
  let ?px = "map (\<lambda>i. of_nat (i * 17)) [0..<16] :: u8 list"
  let ?img = "\<lparr>pgm_width = 4, pgm_height = 4, pgm_pixels = Some ?px, pgm_size = 16\<rparr>"
  have "pgm_ok ?img" by (simp add: pgm_ok_def)
  from pgm_written [OF fs this, of ?px "snprintf_path root ''/round.pgm''" s] obtain s' where
    "vpipe_write_pgm api True (snprintf_path root ''/round.pgm'') ?px 4 4 s = Some (True, s')"
    "vpipe_read_pgm (files s' (snprintf_path root ''/round.pgm'')) True = (True, ?img)" by auto
  then show ?thesis by (simp add: test_pgm_roundtrip_def)
qed

text \<open>
  C40.  The unit tests of the repository pass.  On a file system where no call fails, and with
  memory available, the program's 48 expectations about checksums, directories, image files and
  the threshold reference all hold: it returns 0 for every directory \<open>mkdtemp\<close> may give it.
\<close>

theorem unit_tests_pass:
  assumes "fs_laws api isdir files" "fs_healthy api" "length root \<le> 200"
  shows "\<exists>s'. unit_test_main api isdir files clean True (Some root) s = Some (0, s')"
proof -
  obtain st where 1: "test_crc32 (0, crc32_state_init) = (0, st)"
    using test_crc32_passes [OF crc32_state_init_ok, of 0] by (cases "test_crc32 (0, crc32_state_init)") simp
  obtain s1 where 2: "test_ensure_parent_dir api isdir True root (0, s) = (0, s1)"
    using test_dirs_passes [OF assms, of 0 s] by (cases "test_ensure_parent_dir api isdir True root (0, s)") simp
  obtain s2 where 3: "test_pgm_roundtrip api files True root (0, s1) = Some (0, s2)" using test_roundtrip_passes [OF assms(1,2)] by blast
  have "fst (test_pgm_rejects_bad_dims api files True root (0, s2)) = 0"
    unfolding test_pgm_rejects_bad_dims_def by (metis bad_dims_passes [OF assms(1,2)] bad_headers prod.collapse)
  then obtain s3 where 4: "test_pgm_rejects_bad_dims api files True root (0, s2) = (0, s3)"
    by (cases "test_pgm_rejects_bad_dims api files True root (0, s2)") simp
  show ?thesis by (simp add: unit_test_main_def 1 2 3 4 threshold_tests)
qed

theorem unit_tests_pass_witness:
  "\<exists>s'. unit_test_main mem_api (\<lambda>s d. d \<in> set (mf_dirs s)) mf_files (\<lambda>_ s. s) True (Some ''/tmp/vpipe-unit-test.a1B2c3'') mem_fs_empty = Some (0, s')"
  by (rule unit_tests_pass [OF mem_api_laws]) simp

end
