(* ===== verification/Spec2Isabelle.thy ===== *)
theory Spec2Isabelle
  imports M2m_Lifecycle Meta_Interleaving Vcam_Lifetime Runner_Correct User_Vcam_Tools User_Fixture_Tools User_Capture_Userptr User_Unit_Test
begin

text \<open>
  Verification of vpipe: a V4L2 mem2mem driver that copies or thresholds 8-bit grey frames, and
  the user-space tools that feed, measure and check it.

  \<^bold>\<open>The program.\<close>  An application queues OUTPUT and CAPTURE buffers at the mem2mem device
  (kmod/vpipe-m2m.c).  Queueing an OUTPUT buffer takes a snapshot of the controls and asks the
  file's source backend (kmod/vpipe-source.c with vpipe-fixture.c, vpipe-synthetic.c and
  vpipe-vcam.c) for the frame.  The framework then runs a job: the image step (kmod/vpipe-cv.c)
  writes the CAPTURE buffer, and a metadata entry with a checksum is prepared.  Dequeueing the
  CAPTURE buffer publishes that entry, once, in a global ring of 256 entries
  (kmod/vpipe-meta.c), which any number of readers follow with cursors of their own.  In user
  space, user/vpipe-common.c has the helpers (image files, checksum, threshold reference,
  retrying ioctl, buffers), and a dozen small programs use them.

  \<^bold>\<open>How C is modelled.\<close>  Theory \<open>Vpipe_Prelude\<close> has the vocabulary.  C integers are words of
  their width, so arithmetic wraps as in the source; \<open>int\<close> results of system calls are \<open>int\<close>.
  Memory is a store of byte blocks, \<open>nat \<Rightarrow> u8 list option\<close>, and a pointer is a block and an
  offset: aliasing of two buffers and accesses behind the end of one are visible.  An operation
  returns \<open>None\<close> when it faults or never returns, \<open>Some (Inl e)\<close> for the error \<open>e\<close> and
  \<open>Some (Inr v)\<close> otherwise; where an operation cannot fault the outer option is left out.
  A structure is a record with prefixed fields, a \<open>goto\<close> ladder is the case analysis it
  performs, and mutation is state passing.  A \<open>for\<close> loop is \<open>foreach\<close> over its range.

  \<^bold>\<open>Loops without a bound in the source\<close> are \<open>vpipe_xioctl\<close> and \<open>vpipe_return_all_buffers\<close>, each a
  \<open>partial_function (option)\<close>.  \<open>xioctl_retries\<close> and \<open>return_all_buffers_terminates\<close> show when
  they return a result.  No definition has a fuel argument.  The programs' outer
  loops count the frames asked for; the drain tool also consumes the list of states in which it
  finds the device, and waiting at the end of that list is an outcome of its own.

  \<^bold>\<open>The kernel module.\<close>
  \<^item> \<open>Vpipe_Types\<close>: the structures and constants of kmod/vpipe.h, vpipe-internal.h and
    vpipe-source.h.
  \<^item> \<open>Tiny_Cv\<close> (vpipe-cv.c): \<open>vpipe_clamp_roi\<close>, \<open>vpipe_copy_frame\<close>,
    \<open>vpipe_threshold_frame\<close> and \<open>vpipe_cv_process\<close>.  The lemmas give the exact picture, memory frame and pixel counts.
  \<^item> \<open>Meta_Ring\<close> (vpipe-meta.c): publish, open, read, poll and the statistics.  The ring refines
    an append-only log; the locale \<open>log_channel\<close> is that contract, and the client facts on
    draining the channel are proved in it.  \<open>Meta_Interleaving\<close> splits a read into the two
    atomic steps it has in the code and runs them in any order (\<open>meta_step\<close>, \<open>reach\<close>).
  \<^item> \<open>Source_Core\<close> (vpipe-source.c, vpipe-source.h): registry and dispatch through operation
    tables; the locale \<open>frame_producer\<close> is what the core promises over any backend, and it is
    interpreted for all three.  \<open>Backend_State\<close> has the backends' private data and \<open>Gradient\<close>
    the test picture.  \<open>Synthetic_Source\<close>, \<open>Vcam_Source\<close> and \<open>Backends\<close> (which has the fixture
    backend) model the operations: frame contents, drop schedule and time stamps.
    \<open>Vcam_Lifetime\<close> counts the references to the framebuffer shared with exported DMA-BUFs
    (\<open>vcam_reach\<close>).
  \<^item> \<open>M2m_Format\<close>, \<open>M2m_Device\<close>, \<open>M2m_Jobs\<close>, \<open>M2m_Lifecycle\<close> (vpipe-m2m.c): format negotiation and
    controls; queueing, jobs, metadata and streaming; their correctness; module load, \<open>open\<close>,
    \<open>release\<close> and the private ioctls with the unwinding on every error.

  \<^bold>\<open>User space.\<close>
  \<^item> \<open>User_Crc\<close>, \<open>User_Files\<close>, \<open>User_Pgm\<close>, \<open>User_Threshold\<close>, \<open>User_V4l2\<close> (vpipe-common.c): the
    table-driven checksum against bitwise division, directories and CSV files, reading and
    writing images, the threshold reference against the kernel, and the ioctl and buffer helpers.
  \<^item> \<open>User_Tools\<close>: number parsing as in the capture tools, and vpipe-cv-ref.c, vpipe-pgm-diff.c,
    vpipe-dump-pgm.c and vpipe-meta-drain.c.
  \<^item> \<open>User_Steps\<close>, \<open>User_Device\<close>, \<open>Tool_Rules\<close>: the longer programs are sequences of steps on
    their local variables and the system, each of which may end the program early.  The rules
    prove that such a program returns, and keep account of its mappings and descriptors.
  \<^item> \<open>User_Runner\<close>, \<open>Runner_Laws\<close>, \<open>Runner_Correct\<close>: vpipe-vcam-runner.c.
  \<^item> \<open>User_Vcam_Tools\<close>: vpipe-vcam-bench.c, vpipe-vcam-dmabuf-bench.c, vpipe-vcam-dmabuf-test.c.
  \<^item> \<open>User_Capture_Tools\<close>: vpipe-capture-m2m.c and vpipe-capture-dmabuf.c.
    \<open>User_Capture_Direct\<close>: vpipe-capture-mmap.c and vpipe-capture-read.c.
    \<open>User_Capture_Userptr\<close>: vpipe-capture-userptr.c.
  \<^item> \<open>User_Fixture_Tools\<close>: vpipe-bench-fixture.c and vpipe-fixture-feed.c.
  \<^item> \<open>User_Unit_Test\<close>: vpipe-unit-test.c, all of whose 48 expectations hold.

  This theory has the properties that span driver and tools: the checksum a tool computes over a
  captured frame is the one in the frame's metadata, and the virtual camera's frames pass the
  pattern test of the runner.

  \<^bold>\<open>Parameters and their laws.\<close>  Code outside the repository is an argument of the definitions,
  and what is relied on is a named predicate: \<open>m2m_laws\<close> for the mem2mem buffer queues,
  \<open>crc32_le_law\<close> for the kernel's checksum, \<open>sys_laws\<close>, \<open>run_laws\<close>, \<open>device_laws\<close> and \<open>capture_laws\<close>
  for the system calls of the tools (among them that no ioctl is interrupted forever, that a
  request for two or more buffers is granted in full, since the tools ignore the number granted,
  and that a dequeued OUTPUT buffer is one of those granted), \<open>index_law\<close> for
  indices within a fixed array, \<open>fs_laws\<close> and \<open>fs_healthy\<close> for the file system, and \<open>format_law\<close> for granted formats.  Each is shown to hold
  of a concrete instance, and the witnesses use these instances.  The answers of allocators, of
  \<open>copy_to_user\<close> and of registration calls are arguments too, so every error path is covered.

  \<^bold>\<open>What does not hold.\<close>  \<open>meta_reads_race\<close>: two threads in \<open>read\<close> on one open file can get an
  entry twice and run past the head.  \<open>s_fmt_overruns_queued_buffer\<close>: S_FMT on one queue changes
  the size of buffers queued on the other.  \<open>release_uses_freed_source\<close>: closing a streaming file
  uses its freed source.  \<open>request_overruns_array\<close>: a driver that grants more buffers than
  requested overruns the caller's array.  \<open>parse_uint_range_negative\<close>: a minus sign behind white
  space is accepted.  vpipe-capture-mmap.c leaks on its error paths, and it and
  vpipe-fixture-feed.c use the index of a dequeued buffer unchecked; the hypotheses of
  \<open>capture_direct_total\<close> and \<open>fixture_tools_total\<close> say so.

  \<^bold>\<open>Not modelled.\<close>
  \<^item> The floating-point statistics of vpipe-vcam-runner.c: \<open>percentile\<close> with its \<open>qsort\<close> is a
    parameter of the run, the mean occupancy stays a sum and a count, and the printed summary and
    comparison (\<open>print_summary\<close>, \<open>print_comparison\<close>) are left out.  The repository's own rounding
    is that of the compiler's \<open>double\<close>, for which the library has no theory.
  \<^item> Messages on the terminal, and the buffering of the CSV files (\<open>setvbuf\<close>, \<open>fclose\<close>): no
    decision of a program depends on them.  \<open>getopt\<close> is replaced by the list of options it
    yields.
  \<^item> Locks, as such: an operation under a lock is one atomic step.  The one place where the code
    leaves the lock in the middle of an operation is modelled as two steps.
  \<^item> The tables of function pointers and module macros that only register functions with the
    framework, the build rules, the scripts under scripts/ and .ci/ and tests/validate-tinycv.sh,
    which run the programs but are no part of them.
\<close>

unbundle bit_operations_syntax

section \<open>The checksum from the driver to the tools\<close>

text \<open>
  The kernel's \<open>crc32_le\<close> divides by the reflected polynomial 0xEDB88320 bit by bit, without
  inverting its start value or result.
\<close>

definition crc32_le_law :: "(u32 \<Rightarrow> u8 list \<Rightarrow> u32) \<Rightarrow> bool" where
  "crc32_le_law crc32_le \<longleftrightarrow> (\<forall>crc bs. crc32_le crc bs = crc32_bitwise crc bs)"

lemma job_picture_length: "length (job_picture ctx b S) = unat (q_height (c_out_q ctx)) * unat (q_width (c_out_q ctx))"
  by (simp add: job_picture_def Let_def)

text \<open>
  C2.  A captured frame passes the tools' check.  Let a reader open the metadata device, the
  driver process a frame, and the frame be dequeued.  The reader's next read returns the entry
  of this frame; the size it states is that of the picture in the CAPTURE buffer; and the
  checksum the runner computes over these bytes equals the one in the entry, so the runner
  counts the frame as a match.
\<close>

theorem captured_frame_matches:
  fixes s :: "'q vdrv"
  assumes "m2m_laws api srcs dsts dones"
    and "srcs (d_q s) = sa # srcs'" "dsts (d_q s) = da # dsts'"
    and "d_bufs s sa = Some src" "d_bufs s da = Some dst"
    and "fmt_ok (d_ctx s)" "prepared (d_ctx s) V4L2_BUF_TYPE_VIDEO_OUTPUT src" "prepared (d_ctx s) V4L2_BUF_TYPE_VIDEO_CAPTURE dst"
    and "plane_at (kw_mem (d_kw s)) src sb S" "plane_at (kw_mem (d_kw s)) dst db D" "sb \<noteq> db"
    and "b_algo_id src = VPIPE_ALGO_NONE \<or> b_algo_id src = VPIPE_ALGO_THRESHOLD"
    and "d_sequence s + 1 \<noteq> 0" "meta_inv (d_meta s) log" "Suc (length log) < 2 ^ 64"
    and alive: "\<not> md_dying (d_meta s)" and crc: "crc32_le_law crc32_le" "crc_ok table"
    and opened: "vpipe_meta_open True (d_meta s) = Inr f"
  shows "\<exists>s1 s2 e f' pic. vpipe_device_run api crc32_le now cpu s = Some s1 \<and>
      vpipe_buf_finish dq_now V4L2_BUF_TYPE_VIDEO_CAPTURE da s1 = Some s2 \<and>
      vpipe_meta_read sizeof_meta_entry False False True (d_meta s2) f = Some (Inr (Some e), f') \<and> me_seq e = d_sequence s + 1 \<and>
      load_bytes (kw_mem (d_kw s2)) (db, 0) (unat (me_bytesused e)) = Some pic \<and> pic = job_picture (d_ctx s) src S \<and>
      st_csum_checked (count_meta (Some e) (fst (vpipe_crc32 pic table)) st) = st_csum_checked st + 1 \<and>
      st_csum_pass (count_meta (Some e) (fst (vpipe_crc32 pic table)) st) = st_csum_pass st + 1"
proof -
  obtain s1 s2 e pic where run: "vpipe_device_run api crc32_le now cpu s = Some s1"
    "vpipe_buf_finish dq_now V4L2_BUF_TYPE_VIDEO_CAPTURE da s1 = Some s2"
    "meta_inv (d_meta s2) (log @ [e])" "md_dying (d_meta s2) = md_dying (d_meta s)"
    "load_bytes (kw_mem (d_kw s2)) (db, 0) (length pic) = Some pic" "pic = job_picture (d_ctx s) src S"
    "me_seq e = d_sequence s + 1" "me_crc32 e = NOT (crc32_le (NOT 0) pic)" "me_bytesused e = of_nat (length pic)"
    using job_logged [OF assms(1-15), of crc32_le now cpu dq_now dq_now] by blast
  have "unat (q_height (c_out_q (d_ctx s))) * unat (q_width (c_out_q (d_ctx s))) \<le> 4096 * 4096"
    using assms(6) q_ok_bounds(1) by (simp add: fmt_ok_def)
  then have "length pic \<le> 4096 * 4096" by (simp only: run(6) job_picture_length)
  then have "length pic < 2 ^ LENGTH(32)" by (rule order_le_less_trans) simp
  then have len: "unat (me_bytesused e) = length pic" unfolding run(9) by (rule unat_of_nat_len)
  have tail: "unat (mf_tail f) = length log" using opened meta_inv_head [OF assms(14)] by (auto simp: vpipe_meta_open_def)
  have "length log = max (unat (mf_tail f)) (length (log @ [e]) - 256)" "unat (mf_tail f) < length (log @ [e])"
    unfolding tail by simp_all
  from meta_next_next [OF run(3) _ this(2,1)] obtain f' where "meta_next (d_meta s2) f = Some (e, f')"
    unfolding tail using alive run(4) by (simp only: nth_append_length less_irrefl mark_overrun_False simp_thms) blast
  then have rd: "vpipe_meta_read sizeof_meta_entry False False True (d_meta s2) f = Some (Inr (Some e), f')"
    unfolding meta_next_def by (auto split: option.splits sum.splits prod.splits)
  have "fst (vpipe_crc32 pic table) = me_crc32 e"
    using vpipe_crc32_bitwise [OF crc(2), of pic] crc(1) run(8) by (simp add: crc32_le_law_def)
  then have "st_csum_checked (count_meta (Some e) (fst (vpipe_crc32 pic table)) st) = st_csum_checked st + 1"
    "st_csum_pass (count_meta (Some e) (fst (vpipe_crc32 pic table)) st) = st_csum_pass st + 1" by (simp_all add: count_meta_def)
  then show ?thesis using run rd len by metis
qed

theorem captured_frame_matches_witness:
  "\<exists>s1 s2 e f'. vpipe_device_run list_api crc32_bitwise 99 1 demo = Some s1 \<and>
     vpipe_buf_finish 100 V4L2_BUF_TYPE_VIDEO_CAPTURE 6 s1 = Some s2 \<and>
     vpipe_meta_read sizeof_meta_entry False False True (d_meta s2) \<lparr>mf_tail = 0\<rparr> = Some (Inr (Some e), f') \<and> me_seq e = 42 \<and>
     st_csum_pass (count_meta (Some e) (fst (vpipe_crc32 [0, 255, 0, 255] crc32_state_init)) zero_stats) = 1"
proof -
  have "vpipe_meta_open True (d_meta demo) = Inr \<lparr>mf_tail = 0\<rparr>"
    unfolding demo_queues by (simp add: vpipe_meta_open_def g_meta_init_def)
  moreover have "\<not> md_dying (d_meta demo)" unfolding demo_queues by simp
  moreover have "crc32_le_law crc32_bitwise" by (simp add: crc32_le_law_def)
  ultimately show ?thesis
    using captured_frame_matches [OF list_api_laws demo_queues(1-4) demo_ok(1) demo_ok(2) demo_ok(3-5), of "[]" crc32_bitwise
        crc32_state_init "\<lparr>mf_tail = 0\<rparr>" 99 1 100 zero_stats] crc32_state_init_ok demo_picture
    unfolding demo_queues by (auto simp: meta_inv_init zero_stats_def)
qed

section \<open>The test picture from the virtual camera to the tools\<close>

lemma none_picture:
  assumes "b_algo_id b = VPIPE_ALGO_NONE" "unat (q_height (c_out_q ctx)) * unat (q_width (c_out_q ctx)) \<le> length S"
  shows "job_picture ctx b S = take (unat (q_height (c_out_q ctx)) * unat (q_width (c_out_q ctx))) S"
  using assms by (intro nth_equalityI) (auto simp: job_picture_def Let_def cv_pixel_def split: prod.split)

lemma gradient_picture_cong:
  assumes "take (HEIGHT * WIDTH) D = take (HEIGHT * WIDTH) E" "gradient_picture D"
  shows "gradient_picture E"
proof -
  have same: "E ! i = D ! i" if "i < HEIGHT * WIDTH" for i using assms(1) that by (metis nth_take)
  have px: "y * WIDTH + x < HEIGHT * WIDTH" if "y < HEIGHT" "x < WIDTH" for x y
    using index_row_end [of y HEIGHT WIDTH WIDTH] that by simp
  show ?thesis using assms(2) same px px [of 0 0] by (simp add: gradient_picture_def WIDTH_def HEIGHT_def)
qed

text \<open>
  C4.  The virtual camera's frames verify.  A started source fills a 640 by 480 buffer, unless
  it drops the frame and flags it; after a job without an algorithm, any mapping that begins
  with the resulting picture is accepted by the runner's \<open>verify_gradient\<close>, in every frame and
  for every value of the pattern counter.
\<close>

theorem vcam_frames_verify:
  assumes "vcam_ready s w" "vcam_fits s b d w" "fd_width d = 640" "fd_height d = 480" "fd_stride d = 640" "fd_flags d = 0"
    and job: "b_algo_id src = VPIPE_ALGO_NONE" "q_width (c_out_q ctx) = 640" "q_height (c_out_q ctx) = 480"
  shows "\<exists>s' d' w' blk xs. vcam_next_frame s b d w = Some (Inr (), s', d', w') \<and> vb_vaddr b = Some (blk, 0) \<and> kw_mem w' blk = Some xs \<and>
    (fd_flags d' AND VPIPE_FRAME_FLAG_DROPPED \<noteq> 0 \<or>
     (\<forall>m a rest. m a = Some (job_picture ctx src xs @ rest) \<longrightarrow> verify_gradient m (a, 0) = Some True))"
proof -
  from assms(1) obtain p fa fb P where p: "s_priv s = Some (Vcam_Priv p)" "vc_fb p = Some fa" "kw_fbs w fa = Some fb"
      "kw_mem w (fb_vaddr fb) = Some P" "length P = unat (fb_size fb)" by (auto simp: vcam_ready_def)
  have wh: "unat (640 :: u32) = WIDTH" "unat (480 :: u32) = HEIGHT" by (simp_all add: WIDTH_def HEIGHT_def)
  from assms(2) obtain blk xs where v: "vb_vaddr b = Some (blk, 0)" "kw_mem w blk = Some xs"
    and n: "HEIGHT * WIDTH \<le> length xs" "HEIGHT * WIDTH \<le> length P"
    using p assms(3-5) by (auto simp: vcam_fits_def plane_fits_def WIDTH_def HEIGHT_def)
  note nf = vcam_next_frame_ok [OF p assms(2) v]
  show ?thesis
  proof (cases "dropped (unat (vc_drop_every_n p)) (unat (vc_frames_produced p))")
    case True
    then show ?thesis using nf v assms(6) by simp
  next
    case False
    define k :: u8 where "k = ucast (vc_pattern_offset p)"
    define P' where "P' = draw 0 0 WIDTH HEIGHT WIDTH (gradient k) P"
    define xs' where "xs' = (if blk = fb_vaddr fb then P' else splice 0 (take (HEIGHT * WIDTH) P') xs)"
    have P': "length P' = length P" "gradient_picture P'" using draw_gradient_picture [OF n(2)] by (simp_all add: P'_def)
    have mem: "vcam_frame_mem (fb_vaddr fb) P blk xs d k (kw_mem w) blk = Some xs'"
      by (simp add: vcam_frame_mem_def Let_def assms(3-5) P'_def xs'_def WIDTH_def HEIGHT_def)
    have "take (HEIGHT * WIDTH) xs' = take (HEIGHT * WIDTH) P'" "HEIGHT * WIDTH \<le> length xs'"
      using n P'(1) by (auto simp: xs'_def splice_def)
    moreover from this have "job_picture ctx src xs' = take (HEIGHT * WIDTH) xs'"
      using none_picture [OF job(1), of ctx xs'] by (simp add: job(2,3) WIDTH_def HEIGHT_def)
    ultimately have ok: "gradient_picture (job_picture ctx src xs' @ rest)" "HEIGHT * WIDTH \<le> length (job_picture ctx src xs' @ rest)" for rest
      using gradient_picture_cong [OF _ P'(2), of "job_picture ctx src xs' @ rest"] n(2) P'(1) by simp_all
    have "verify_gradient m (a, 0) = Some True" if "m a = Some (job_picture ctx src xs' @ rest)" for m a rest
      using verify_gradient_picture [of m a "job_picture ctx src xs' @ rest"] that ok by simp
    then show ?thesis using nf False v(1) mem by (auto simp: k_def)
  qed
qed

definition vga_world :: kworld where
  "vga_world = \<lparr>kw_mem = [20 \<mapsto> replicate (HEIGHT * WIDTH) 0, 3 \<mapsto> replicate (HEIGHT * WIDTH) 9],
     kw_fbs = [10 \<mapsto> \<lparr>fb_refcount = 1, fb_vaddr = 20, fb_size = 307200\<rparr>], kw_dmabufs = Map.empty\<rparr>"

definition vga_source :: source where
  "vga_source = run_src\<lparr>s_priv := Some (Vcam_Priv (vcam_at 10 0 1000 33333333 7))\<rparr>"

theorem vcam_frames_verify_witness:
  "\<exists>s' d' w' xs. vcam_next_frame vga_source (plain_buffer 3) (zero_frame_desc\<lparr>fd_width := 640, fd_height := 480, fd_stride := 640\<rparr>) vga_world
      = Some (Inr (), s', d', w') \<and> kw_mem w' 3 = Some xs \<and>
    (fd_flags d' AND VPIPE_FRAME_FLAG_DROPPED \<noteq> 0 \<or> verify_gradient [5 \<mapsto> job_picture run_ctx (plain_buffer 3) xs] (5, 0) = Some True)"
proof -
  let ?d = "zero_frame_desc\<lparr>fd_width := 640, fd_height := 480, fd_stride := 640\<rparr>"
  have n: "HEIGHT * WIDTH = 307200" by (simp add: HEIGHT_def WIDTH_def)
  have r: "vcam_ready vga_source vga_world" using n by (auto simp: vcam_ready_def vga_source_def vga_world_def vcam_at_def)
  have f: "vcam_fits vga_source (plain_buffer 3) ?d vga_world"
    using n by (auto simp: vcam_fits_def plane_fits_def vga_source_def vga_world_def vcam_at_def plain_buffer_def)
  have j: "b_algo_id (plain_buffer 3) = VPIPE_ALGO_NONE" "q_width (c_out_q run_ctx) = 640" "q_height (c_out_q run_ctx) = 480" "vb_vaddr (plain_buffer 3) = Some (3, 0)"
    by (simp_all add: plain_buffer_def run_ctx_def Let_def)
  obtain s' d' w' blk xs where w: "vcam_next_frame vga_source (plain_buffer 3) ?d vga_world = Some (Inr (), s', d', w')"
    "vb_vaddr (plain_buffer 3) = Some (blk, 0)" "kw_mem w' blk = Some xs"
    "fd_flags d' AND VPIPE_FRAME_FLAG_DROPPED \<noteq> 0 \<or>
     (\<forall>m a rest. m a = Some (job_picture run_ctx (plain_buffer 3) xs @ rest) \<longrightarrow> verify_gradient m (a, 0) = Some True)"
    using vcam_frames_verify [OF r f _ _ _ _ j(1-3)] by (auto simp: zero_frame_desc_def)
  then have "fd_flags d' AND VPIPE_FRAME_FLAG_DROPPED \<noteq> 0 \<or> verify_gradient [5 \<mapsto> job_picture run_ctx (plain_buffer 3) xs] (5, 0) = Some True"
    by (metis append_Nil2 fun_upd_same)
  with w j(4) show ?thesis by auto
qed

end
